(* ===== verification/Prelude.thy ===== *)
theory Prelude
  imports Main "HOL-Library.Word" "HOL-Library.AList" "HOL-Library.Monad_Syntax"
begin

text \<open>
  Shared material of the development: machine integers and byte strings, little-endian codecs
  (Rust's \<open>to_le_bytes\<close> and \<open>from_le_bytes\<close>), readers that consume the front of a
  byte string, slices with Rust's bounds behaviour, and the hash-map interface with the
  association-list model that every table of the server uses.
\<close>

section \<open>Types and fact collections\<close>

type_synonym u8 = "8 word"
type_synonym u16 = "16 word"
type_synonym u32 = "32 word"
type_synonym u64 = "64 word"
type_synonym bytes = "8 word list"

named_theorems wire "reading back what an encoder wrote"
named_theorems wire_len "lengths of encoded values"

unbundle bit_operations_syntax

section \<open>Little-endian codecs\<close>

primrec le_nat :: "nat \<Rightarrow> nat \<Rightarrow> bytes" where
  "le_nat 0 x = []"
| "le_nat (Suc n) x = of_nat (x mod 256) # le_nat n (x div 256)"

primrec nat_le :: "bytes \<Rightarrow> nat" where
  "nat_le [] = 0"
| "nat_le (b # bs) = unat b + 256 * nat_le bs"

definition le16 :: "u16 \<Rightarrow> bytes" where "le16 w = le_nat 2 (unat w)"
definition le32 :: "u32 \<Rightarrow> bytes" where "le32 w = le_nat 4 (unat w)"
definition le64 :: "u64 \<Rightarrow> bytes" where "le64 w = le_nat 8 (unat w)"

definition de16 :: "bytes \<Rightarrow> u16" where "de16 bs = of_nat (nat_le bs)"
definition de32 :: "bytes \<Rightarrow> u32" where "de32 bs = of_nat (nat_le bs)"
definition de64 :: "bytes \<Rightarrow> u64" where "de64 bs = of_nat (nat_le bs)"

lemma length_le_nat [simp, wire_len]: "length (le_nat n x) = n"
  by (induction n arbitrary: x) auto

lemma length_le16 [simp, wire_len]: "length (le16 w) = 2"
  by (simp add: le16_def)

lemma length_le32 [simp, wire_len]: "length (le32 w) = 4"
  by (simp add: le32_def)

lemma length_le64 [simp, wire_len]: "length (le64 w) = 8"
  by (simp add: le64_def)

lemma le_nonempty [simp]: "le16 w \<noteq> []" "le32 v \<noteq> []" "le64 u \<noteq> []"
  by (simp_all flip: length_0_conv)

lemma unat_range: "unat (w :: 'a::len word) < 2 ^ LENGTH('a)"
  by (rule unsigned_less)

lemma unat_byte_lt [simp]: "unat (b :: u8) < 256"
  using unat_range [of b] by simp

lemma unat_of_nat_byte [simp]: "unat (of_nat (x mod 256) :: u8) = x mod 256"
  by (simp add: unat_of_nat)

lemma nat_le_bound: "nat_le bs < 256 ^ length bs"
proof (induction bs)
  case (Cons b bs)
  have "unat b + 256 * nat_le bs < 256 * (nat_le bs + 1)"
    using unat_byte_lt [of b] by simp
  also have "\<dots> \<le> 256 * 256 ^ length bs"
    using Cons.IH by (intro mult_le_mono2) simp
  finally show ?case by simp
qed simp

lemma nat_le_le_nat: "nat_le (le_nat n x) = x mod 256 ^ n"
proof (induction n arbitrary: x)
  case (Suc n)
  have "x mod 256 + 256 * (x div 256 mod 256 ^ n) = x mod (256 * 256 ^ n)"
    by (simp add: mod_mult2_eq)
  with Suc show ?case by simp
qed simp

lemma le_nat_nat_le: "le_nat (length bs) (nat_le bs) = bs"
proof (induction bs)
  case (Cons b bs)
  have m: "(unat b + 256 * nat_le bs) mod 256 = unat b"
    by simp
  have d: "(unat b + 256 * nat_le bs) div 256 = nat_le bs"
    by simp
  show ?case using Cons by (simp only: list.size nat_le.simps le_nat.simps m d) simp
qed simp

lemma le_nat_mod: "le_nat n (x mod 256 ^ n) = le_nat n x"
  by (metis le_nat_nat_le length_le_nat nat_le_le_nat)

lemma nat_le_inject: "length xs = length ys \<Longrightarrow> nat_le xs = nat_le ys \<Longrightarrow> xs = ys"
  by (metis le_nat_nat_le)

lemma de16_le16 [simp, wire]: "de16 (le16 w) = w"
  using unat_range [of w] by (simp add: de16_def le16_def nat_le_le_nat)

lemma de32_le32 [simp, wire]: "de32 (le32 w) = w"
  using unat_range [of w] by (simp add: de32_def le32_def nat_le_le_nat)

lemma de64_le64 [simp, wire]: "de64 (le64 w) = w"
  using unat_range [of w] by (simp add: de64_def le64_def nat_le_le_nat)

lemma le16_de16: "length bs = 2 \<Longrightarrow> le16 (de16 bs) = bs"
  using nat_le_bound [of bs] le_nat_nat_le [of bs]
  by (simp add: de16_def le16_def unat_of_nat)

lemma le32_de32: "length bs = 4 \<Longrightarrow> le32 (de32 bs) = bs"
  using nat_le_bound [of bs] le_nat_nat_le [of bs]
  by (simp add: de32_def le32_def unat_of_nat)

lemma le64_de64: "length bs = 8 \<Longrightarrow> le64 (de64 bs) = bs"
  using nat_le_bound [of bs] le_nat_nat_le [of bs]
  by (simp add: de64_def le64_def unat_of_nat)

lemma le16_inject [simp]: "le16 a = le16 b \<longleftrightarrow> a = b"
  by (metis de16_le16)

lemma le32_inject [simp]: "le32 a = le32 b \<longleftrightarrow> a = b"
  by (metis de32_le32)

lemma le64_inject [simp]: "le64 a = le64 b \<longleftrightarrow> a = b"
  by (metis de64_le64)

section \<open>Readers\<close>

text \<open>
  A reader consumes the front of a byte string; \<open>None\<close> is the end-of-input error that every
  caller treats alike (the messages decode to an error, whatever its text).
\<close>

definition get_bytes :: "nat \<Rightarrow> bytes \<Rightarrow> (bytes \<times> bytes) option" where
  "get_bytes n b = (if length b < n then None else Some (take n b, drop n b))"

definition get8 :: "bytes \<Rightarrow> (u8 \<times> bytes) option" where
  "get8 b = (case b of [] \<Rightarrow> None | x # r \<Rightarrow> Some (x, r))"

definition get16 :: "bytes \<Rightarrow> (u16 \<times> bytes) option" where
  "get16 b = (if length b < 2 then None else Some (de16 (take 2 b), drop 2 b))"

definition get32 :: "bytes \<Rightarrow> (u32 \<times> bytes) option" where
  "get32 b = (if length b < 4 then None else Some (de32 (take 4 b), drop 4 b))"

definition get64 :: "bytes \<Rightarrow> (u64 \<times> bytes) option" where
  "get64 b = (if length b < 8 then None else Some (de64 (take 8 b), drop 8 b))"

fun get16s :: "nat \<Rightarrow> bytes \<Rightarrow> (u16 list \<times> bytes) option" where
  "get16s 0 b = Some ([], b)"
| "get16s (Suc n) b = do { (w, b) \<leftarrow> get16 b; (ws, b) \<leftarrow> get16s n b; Some (w # ws, b) }"

lemma get8_Cons [simp, wire]: "get8 (x # r) = Some (x, r)"
  by (simp add: get8_def)

lemma get16_le16 [simp, wire]: "get16 (le16 w @ r) = Some (w, r)"
  by (simp add: get16_def)

lemma get32_le32 [simp, wire]: "get32 (le32 w @ r) = Some (w, r)"
  by (simp add: get32_def)

lemma get64_le64 [simp, wire]: "get64 (le64 w @ r) = Some (w, r)"
  by (simp add: get64_def)

lemma get16_le16_end [simp, wire]: "get16 (le16 w) = Some (w, [])"
  using get16_le16 [of w "[]"] by simp

lemma get32_le32_end [simp, wire]: "get32 (le32 w) = Some (w, [])"
  using get32_le32 [of w "[]"] by simp

lemma get64_le64_end [simp, wire]: "get64 (le64 w) = Some (w, [])"
  using get64_le64 [of w "[]"] by simp

lemma get_bytes_append [wire]: "length xs = n \<Longrightarrow> get_bytes n (xs @ r) = Some (xs, r)"
  by (auto simp: get_bytes_def)

lemma get_bytes_all [wire]: "length xs = n \<Longrightarrow> get_bytes n xs = Some (xs, [])"
  by (auto simp: get_bytes_def)

lemma get16s_append [wire]:
  "length ws = n \<Longrightarrow> get16s n (concat (map le16 ws) @ r) = Some (ws, r)"
  by (induction ws arbitrary: n) auto

lemma get16s_all [wire]: "length ws = n \<Longrightarrow> get16s n (concat (map le16 ws)) = Some (ws, [])"
  using get16s_append [of ws n "[]"] by simp

lemma length_concat_le16 [simp, wire_len]: "length (concat (map le16 ws)) = 2 * length ws"
  by (induction ws) auto

text \<open>What a reader consumed is the encoding of what it returned.\<close>

lemma get8_SomeD: "get8 b = Some (x, r) \<Longrightarrow> b = x # r"
  by (auto simp: get8_def split: list.splits)

lemma get16_SomeD: "get16 b = Some (w, r) \<Longrightarrow> b = le16 w @ r"
  by (auto simp: get16_def le16_de16 split: if_splits)

lemma get32_SomeD: "get32 b = Some (w, r) \<Longrightarrow> b = le32 w @ r"
  by (auto simp: get32_def le32_de32 split: if_splits)

lemma get64_SomeD: "get64 b = Some (w, r) \<Longrightarrow> b = le64 w @ r"
  by (auto simp: get64_def le64_de64 split: if_splits)

lemma get_bytes_SomeD: "get_bytes n b = Some (xs, r) \<Longrightarrow> b = xs @ r \<and> length xs = n"
  by (auto simp: get_bytes_def split: if_splits)

lemmas get_SomeD = get8_SomeD get16_SomeD get32_SomeD get64_SomeD get_bytes_SomeD

section \<open>Slices and in-place patches\<close>

text \<open>
  \<open>get_range off n b\<close> is Rust's \<open>b[off..off + n]\<close> with its bounds check: \<open>None\<close> stands for the
  panic (or for the \<open>None\<close> of \<open>b.get(off..off + n)\<close>), and \<open>get_at i b\<close> and \<open>write_at off xs b\<close> are
  \<open>b[i]\<close> and \<open>copy_from_slice\<close> in the same form. \<open>slice\<close> and \<open>patch\<close> are their values without the
  check; the parsers use them where they have tested the range themselves.
\<close>

definition slice :: "nat \<Rightarrow> nat \<Rightarrow> 'a list \<Rightarrow> 'a list" where
  "slice off n b = take n (drop off b)"

definition get_range :: "nat \<Rightarrow> nat \<Rightarrow> 'a list \<Rightarrow> 'a list option" where
  "get_range off n b = (if off + n \<le> length b then Some (slice off n b) else None)"

definition patch :: "nat \<Rightarrow> 'a list \<Rightarrow> 'a list \<Rightarrow> 'a list" where
  "patch off xs b = take off b @ xs @ drop (off + length xs) b"

definition get_at :: "nat \<Rightarrow> 'a list \<Rightarrow> 'a option" where
  "get_at i b = (if i < length b then Some (b ! i) else None)"

definition write_at :: "nat \<Rightarrow> 'a list \<Rightarrow> 'a list \<Rightarrow> 'a list option" where
  "write_at offset xs buf =
     (if offset + length xs \<le> length buf then Some (patch offset xs buf) else None)"

lemma get_at_within [simp]: "i < length b \<Longrightarrow> get_at i b = Some (b ! i)"
  by (simp add: get_at_def)

lemma get_range_within [simp]: "off + n \<le> length b \<Longrightarrow> get_range off n b = Some (slice off n b)"
  by (simp add: get_range_def)

lemma write_at_within [simp]:
  "offset + length xs \<le> length buf \<Longrightarrow> write_at offset xs buf = Some (patch offset xs buf)"
  by (simp add: write_at_def)

lemma length_slice [simp]: "off + n \<le> length b \<Longrightarrow> length (slice off n b) = n"
  by (simp add: slice_def)

lemma length_patch [simp]: "off + length xs \<le> length b \<Longrightarrow> length (patch off xs b) = length b"
  by (simp add: patch_def)

lemma slice_patch [simp]:
  "off + length xs \<le> length b \<Longrightarrow> n = length xs \<Longrightarrow> slice off n (patch off xs b) = xs"
  by (simp add: slice_def patch_def)

lemma slice_patch_before:
  assumes "o2 + n \<le> off" and "off + length xs \<le> length b"
  shows "slice o2 n (patch off xs b) = slice o2 n b"
proof -
  have "drop o2 (patch off xs b) = take (off - o2) (drop o2 b) @ xs @ drop (off + length xs) b"
    using assms by (simp add: patch_def drop_take)
  with assms show ?thesis by (simp add: slice_def)
qed

lemma slice_patch_after:
  assumes "off + length xs \<le> o2" and "off + length xs \<le> length b"
  shows "slice o2 n (patch off xs b) = slice o2 n b"
proof -
  have "drop o2 (patch off xs b) = drop (o2 - off - length xs) (drop (off + length xs) b)"
    using assms by (simp add: patch_def)
  with assms show ?thesis by (simp add: slice_def)
qed

lemma slice_append_left [simp]: "off + n \<le> length a \<Longrightarrow> slice off n (a @ b) = slice off n a"
  by (simp add: slice_def)

lemma slice_append_right: "length a \<le> off \<Longrightarrow> slice off n (a @ b) = slice (off - length a) n b"
  by (simp add: slice_def)

lemma slice_at_append: "length a = off \<Longrightarrow> length x = n \<Longrightarrow> slice off n (a @ x @ b) = x"
  by (simp add: slice_def)

lemma patch_append_left: "off + length xs \<le> length a \<Longrightarrow> patch off xs (a @ b) = patch off xs a @ b"
  by (simp add: patch_def)

lemma patch_append_right:
  "length a \<le> off \<Longrightarrow> patch off xs (a @ b) = a @ patch (off - length a) xs b"
  by (simp add: patch_def)

section \<open>Rounding up to a multiple of eight\<close>

definition align_up8 :: "nat \<Rightarrow> nat" where
  "align_up8 n = (n + 7) div 8 * 8"

lemma align_up8_ge [simp]: "n \<le> align_up8 n"
  unfolding align_up8_def by presburger

lemma align_up8_lt: "align_up8 n < n + 8"
  unfolding align_up8_def by presburger

lemma align_up8_dvd [simp]: "8 dvd align_up8 n"
  by (simp add: align_up8_def)

lemma align_up8_fix: "8 dvd n \<Longrightarrow> align_up8 n = n"
  unfolding align_up8_def by presburger

section \<open>Hash maps\<close>

text \<open>
  The server keeps its tables in \<open>std::collections::HashMap\<close>. The model is an association
  list: the list order stands for the (unspecified) iteration order, and no theorem assumes
  anything about it. The interface lists the laws of the standard library the code relies on.
\<close>

locale hash_map =
  fixes get :: "'m \<Rightarrow> 'k \<Rightarrow> 'v option"
    and insert :: "'k \<Rightarrow> 'v \<Rightarrow> 'm \<Rightarrow> 'm"
    and remove :: "'k \<Rightarrow> 'm \<Rightarrow> 'm"
    and empty :: 'm
  assumes get_empty: "get empty k = None"
    and get_insert: "get (insert k v m) k' = (if k' = k then Some v else get m k')"
    and get_remove: "get (remove k m) k' = (if k' = k then None else get m k')"
begin

definition keys :: "'m \<Rightarrow> 'k set" where
  "keys m = {k. get m k \<noteq> None}"

lemma keys_empty: "keys empty = {}"
  by (simp add: keys_def get_empty)

lemma keys_insert: "keys (insert k v m) = Set.insert k (keys m)"
  by (auto simp: keys_def get_insert)

lemma keys_remove: "keys (remove k m) = keys m - {k}"
  by (auto simp: keys_def get_remove)

lemma get_insert_same: "get (insert k v m) k = Some v"
  by (simp add: get_insert)

lemma insert_insert_get: "get (insert k v (insert k v' m)) = get (insert k v m)"
  by (rule ext) (simp add: get_insert)

lemma remove_insert_get: "get m k = None \<Longrightarrow> get (remove k (insert k v m)) = get m"
  by (rule ext) (simp add: get_insert get_remove)

lemma remove_absent_get: "get m k = None \<Longrightarrow> get (remove k m) = get m"
  by (rule ext) (simp add: get_remove)

end

type_synonym ('k, 'v) table = "('k \<times> 'v) list"

definition tbl_get :: "('k, 'v) table \<Rightarrow> 'k \<Rightarrow> 'v option" where
  "tbl_get m k = map_of m k"

definition tbl_insert :: "'k \<Rightarrow> 'v \<Rightarrow> ('k, 'v) table \<Rightarrow> ('k, 'v) table" where
  "tbl_insert k v m = AList.update k v m"

definition tbl_remove :: "'k \<Rightarrow> ('k, 'v) table \<Rightarrow> ('k, 'v) table" where
  "tbl_remove k m = AList.delete k m"

definition tbl_ok :: "('k, 'v) table \<Rightarrow> bool" where
  "tbl_ok m \<longleftrightarrow> distinct (map fst m)"

interpretation hm: hash_map tbl_get tbl_insert tbl_remove "[] :: ('k, 'v) table"
  by unfold_locales
    (auto simp: tbl_get_def tbl_insert_def tbl_remove_def update_conv' delete_conv' restrict_map_def)

lemmas tbl_simps [simp] = hm.get_empty hm.get_insert hm.get_remove

lemma tbl_ok_empty [simp, intro]: "tbl_ok []"
  by (simp add: tbl_ok_def)

lemma tbl_ok_insert [simp, intro]: "tbl_ok m \<Longrightarrow> tbl_ok (tbl_insert k v m)"
  by (simp add: tbl_ok_def tbl_insert_def distinct_update)

lemma tbl_ok_remove [simp, intro]: "tbl_ok m \<Longrightarrow> tbl_ok (tbl_remove k m)"
  by (simp add: tbl_ok_def tbl_remove_def distinct_delete)

lemma tbl_get_in: "tbl_get m k = Some v \<Longrightarrow> (k, v) \<in> set m"
  by (simp add: tbl_get_def map_of_SomeD)

lemma tbl_in_get: "tbl_ok m \<Longrightarrow> (k, v) \<in> set m \<Longrightarrow> tbl_get m k = Some v"
  by (simp add: tbl_ok_def tbl_get_def)

lemma tbl_get_None_iff: "tbl_get m k = None \<longleftrightarrow> k \<notin> fst ` set m"
  by (simp add: tbl_get_def map_of_eq_None_iff)

lemma set_tbl_insert_subset: "set (tbl_insert k v m) \<subseteq> Set.insert (k, v) (set m)"
  by (induction m) (auto simp: tbl_insert_def)

lemma set_tbl_remove_subset: "set (tbl_remove k m) \<subseteq> set m"
  by (auto simp: tbl_remove_def AList.delete_eq)

lemma in_tbl_remove: "(k', v) \<in> set (tbl_remove k m) \<longleftrightarrow> k' \<noteq> k \<and> (k', v) \<in> set m"
  by (auto simp: tbl_remove_def AList.delete_eq)

lemma in_tbl_insert:
  "tbl_ok m \<Longrightarrow>
    (k', v') \<in> set (tbl_insert k v m) \<longleftrightarrow> (k' = k \<and> v' = v) \<or> (k' \<noteq> k \<and> (k', v') \<in> set m)"
  by (metis hm.get_insert tbl_get_in tbl_in_get tbl_ok_insert option.inject)

text \<open>A property of all entries of a table, and the shape that the operations keep.\<close>

definition tbl_all :: "('k \<Rightarrow> 'v \<Rightarrow> bool) \<Rightarrow> ('k, 'v) table \<Rightarrow> bool" where
  "tbl_all P m \<longleftrightarrow> tbl_ok m \<and> list_all (\<lambda>(k, v). P k v) m"

lemma tbl_all_empty [simp, intro]: "tbl_all P []"
  by (simp add: tbl_all_def)

lemma tbl_all_ok: "tbl_all P m \<Longrightarrow> tbl_ok m"
  by (simp add: tbl_all_def)

lemma tbl_all_get: "tbl_all P m \<Longrightarrow> tbl_get m k = Some v \<Longrightarrow> P k v"
  by (auto simp: tbl_all_def list_all_iff dest!: tbl_get_in)

lemma tbl_all_iff: "tbl_all P m \<longleftrightarrow> tbl_ok m \<and> (\<forall>k v. tbl_get m k = Some v \<longrightarrow> P k v)"
  by (auto simp: tbl_all_def list_all_iff dest: tbl_get_in intro: tbl_in_get)

lemma tbl_all_insert [intro]: "tbl_all P m \<Longrightarrow> P k v \<Longrightarrow> tbl_all P (tbl_insert k v m)"
  by (auto simp: tbl_all_iff split: if_splits)

lemma tbl_all_remove [intro]: "tbl_all P m \<Longrightarrow> tbl_all P (tbl_remove k m)"
  by (auto simp: tbl_all_iff split: if_splits)

lemma tbl_all_mono: "tbl_all P m \<Longrightarrow> (\<And>k v. P k v \<Longrightarrow> Q k v) \<Longrightarrow> tbl_all Q m"
  by (auto simp: tbl_all_iff)

lemma tbl_all_in: "tbl_all P m \<Longrightarrow> (k, v) \<in> set m \<Longrightarrow> P k v"
  by (auto simp: tbl_all_def list_all_iff)

end
