(* ===== verification/Text.thy ===== *)
theory Text
  imports Prelude
begin

text \<open>
  Text and time helpers of \<open>src/src/utils.rs\<close>. A Rust \<open>String\<close> is the list of its Unicode
  scalar values (code points as naturals); the UTF-16 and UTF-8 codecs are those of the Rust
  standard library, written out. A \<open>SystemTime\<close> is its distance to the UNIX epoch in
  nanoseconds, as an integer.
\<close>

section \<open>Strings\<close>

type_synonym rstring = "nat list"

text \<open>An ASCII literal of the source.\<close>

definition lit :: "string \<Rightarrow> rstring" where
  "lit s = map of_char s"

definition is_scalar :: "nat \<Rightarrow> bool" where
  "is_scalar c \<longleftrightarrow> c < 0xD800 \<or> (0xE000 \<le> c \<and> c < 0x110000)"

definition ascii_lower :: "nat \<Rightarrow> nat" where
  "ascii_lower c = (if 65 \<le> c \<and> c \<le> 90 then c + 32 else c)"

definition ascii_upper :: "nat \<Rightarrow> nat" where
  "ascii_upper c = (if 97 \<le> c \<and> c \<le> 122 then c - 32 else c)"

definition to_ascii_lowercase :: "rstring \<Rightarrow> rstring" where
  "to_ascii_lowercase s = map ascii_lower s"

definition to_ascii_uppercase :: "rstring \<Rightarrow> rstring" where
  "to_ascii_uppercase s = map ascii_upper s"

definition eq_ignore_ascii_case :: "rstring \<Rightarrow> rstring \<Rightarrow> bool" where
  "eq_ignore_ascii_case a b \<longleftrightarrow> to_ascii_lowercase a = to_ascii_lowercase b"

lemma eq_ignore_refl [simp]: "eq_ignore_ascii_case s s"
  by (simp add: eq_ignore_ascii_case_def)

lemma eq_ignore_sym: "eq_ignore_ascii_case a b \<longleftrightarrow> eq_ignore_ascii_case b a"
  by (auto simp: eq_ignore_ascii_case_def)

lemma eq_ignore_trans:
  "eq_ignore_ascii_case a b \<Longrightarrow> eq_ignore_ascii_case b c \<Longrightarrow> eq_ignore_ascii_case a c"
  by (simp add: eq_ignore_ascii_case_def)

lemma ascii_lower_idem [simp]: "ascii_lower (ascii_lower c) = ascii_lower c"
  by (auto simp: ascii_lower_def)

lemma to_lower_idem [simp]: "to_ascii_lowercase (to_ascii_lowercase s) = to_ascii_lowercase s"
  by (simp add: to_ascii_lowercase_def)

section \<open>UTF-16\<close>

definition encode_char :: "nat \<Rightarrow> u16 list" where
  "encode_char c =
     (if c < 0x10000 then [of_nat c]
      else [of_nat (0xD800 + (c - 0x10000) div 0x400), of_nat (0xDC00 + (c - 0x10000) mod 0x400)])"

definition encode_utf16 :: "rstring \<Rightarrow> u16 list" where
  "encode_utf16 s = concat (map encode_char s)"

definition is_surrogate :: "u16 \<Rightarrow> bool" where
  "is_surrogate u \<longleftrightarrow> 0xD800 \<le> unat u \<and> unat u < 0xE000"

definition is_low :: "u16 \<Rightarrow> bool" where
  "is_low u \<longleftrightarrow> 0xDC00 \<le> unat u \<and> unat u < 0xE000"

definition combine :: "u16 \<Rightarrow> u16 \<Rightarrow> nat" where
  "combine u v = 0x10000 + (unat u - 0xD800) * 0x400 + (unat v - 0xDC00)"

text \<open>\<open>char::decode_utf16\<close>: one item per scalar value or unpaired surrogate (\<open>None\<close>).\<close>

fun decode_items :: "u16 list \<Rightarrow> nat option list" where
  "decode_items [] = []"
| "decode_items [u] = [if is_surrogate u then None else Some (unat u)]"
| "decode_items (u # v # us) =
     (if \<not> is_surrogate u then Some (unat u) # decode_items (v # us)
      else if is_low u then None # decode_items (v # us)
      else if is_low v then Some (combine u v) # decode_items us
      else None # decode_items (v # us))"

definition from_utf16 :: "u16 list \<Rightarrow> rstring option" where
  "from_utf16 us =
     (if None \<in> set (decode_items us) then None else Some (map the (decode_items us)))"

definition from_utf16_lossy :: "u16 list \<Rightarrow> rstring" where
  "from_utf16_lossy us = map (\<lambda>i. case i of None \<Rightarrow> 0xFFFD | Some c \<Rightarrow> c) (decode_items us)"

lemma unat_u16_lt [simp]: "unat (u :: u16) < 65536"
  using unat_range [of u] by simp

lemma unat_of_nat_u16: "n < 65536 \<Longrightarrow> unat (of_nat n :: u16) = n"
  by (simp add: unat_of_nat)

lemma decode_items_bmp:
  "\<not> is_surrogate u \<Longrightarrow> decode_items (u # us) = Some (unat u) # decode_items us"
  by (cases us) auto

lemma decode_items_encode_char:
  assumes "is_scalar c"
  shows "decode_items (encode_char c @ us) = Some c # decode_items us"
proof (cases "c < 0x10000")
  case True
  then have u: "unat (of_nat c :: u16) = c" by (simp add: unat_of_nat_u16)
  have "\<not> is_surrogate (of_nat c)"
    using assms True by (auto simp: is_scalar_def is_surrogate_def u)
  with True u show ?thesis by (simp add: encode_char_def decode_items_bmp)
next
  case False
  define d where "d = c - 0x10000"
  have d: "d < 0x100000" "c = 0x10000 + d"
    using assms False by (auto simp: is_scalar_def d_def)
  have h: "unat (of_nat (0xD800 + d div 0x400) :: u16) = 0xD800 + d div 0x400"
    using d(1) by (intro unat_of_nat_u16) auto
  have l: "unat (of_nat (0xDC00 + d mod 0x400) :: u16) = 0xDC00 + d mod 0x400"
    by (intro unat_of_nat_u16) auto
  have "d div 0x400 < 0x400" using d(1) by auto
  then have "is_surrogate (of_nat (0xD800 + d div 0x400))"
      and "\<not> is_low (of_nat (0xD800 + d div 0x400))"
    by (auto simp: is_surrogate_def is_low_def h simp del: of_nat_add)
  moreover have "is_low (of_nat (0xDC00 + d mod 0x400))"
    by (auto simp: is_low_def l simp del: of_nat_add)
  moreover have "combine (of_nat (0xD800 + d div 0x400)) (of_nat (0xDC00 + d mod 0x400)) = c"
    using d(2) by (simp add: combine_def h l del: of_nat_add)
  moreover have "encode_char c = [of_nat (0xD800 + d div 0x400), of_nat (0xDC00 + d mod 0x400)]"
    using False by (simp add: encode_char_def d_def)
  ultimately show ?thesis by simp
qed

lemma decode_items_encode:
  "list_all is_scalar s \<Longrightarrow> decode_items (encode_utf16 s) = map Some s"
  by (induction s) (auto simp: encode_utf16_def decode_items_encode_char)

lemma from_utf16_encode: "list_all is_scalar s \<Longrightarrow> from_utf16 (encode_utf16 s) = Some s"
  by (simp add: from_utf16_def decode_items_encode comp_def image_iff)

lemma from_utf16_lossy_encode: "list_all is_scalar s \<Longrightarrow> from_utf16_lossy (encode_utf16 s) = s"
  by (simp add: from_utf16_lossy_def decode_items_encode comp_def)

lemma encode_char_bmp: "encode_char (unat (u :: u16)) = [u]"
  by (simp add: encode_char_def)

lemma encode_char_combine:
  assumes "is_surrogate u" "\<not> is_low u" "is_low v"
  shows "encode_char (combine u v) = [u, v]" and "is_scalar (combine u v)"
proof -
  define h l where "h = unat u - 0xD800" and "l = unat v - 0xDC00"
  have h: "unat u = 0xD800 + h" "h < 0x400" and l: "unat v = 0xDC00 + l" "l < 0x400"
    using assms by (auto simp: is_surrogate_def is_low_def h_def l_def)
  have c: "combine u v = 0x10000 + (h * 0x400 + l)"
    by (simp add: combine_def h_def l_def)
  have "(h * 0x400 + l) div 0x400 = h" and "(h * 0x400 + l) mod 0x400 = l"
    using l(2) by auto
  then have "encode_char (combine u v) = [of_nat (0xD800 + h), of_nat (0xDC00 + l)]"
    by (simp add: encode_char_def c)
  also have "\<dots> = [of_nat (unat u), of_nat (unat v)]"
    by (simp only: h(1) l(1))
  finally show "encode_char (combine u v) = [u, v]" by simp
  have "h * 0x400 + l < 0x100000" using h(2) l(2) by linarith
  then show "is_scalar (combine u v)" by (simp add: is_scalar_def c)
qed

lemma decode_items_inv:
  "None \<notin> set (decode_items us) \<Longrightarrow>
    encode_utf16 (map the (decode_items us)) = us \<and> list_all is_scalar (map the (decode_items us))"
proof (induction us rule: decode_items.induct)
  case (2 u)
  then show ?case
    by (auto simp: encode_utf16_def encode_char_bmp is_scalar_def is_surrogate_def
        split: if_splits intro: order.strict_trans2 [OF unat_u16_lt])
next
  case (3 u v us)
  show ?case
  proof (cases "is_surrogate u")
    case False
    then have "is_scalar (unat u)"
      using unat_u16_lt [of u] by (auto simp: is_scalar_def is_surrogate_def simp del: unat_u16_lt)
    with False 3 show ?thesis by (auto simp: encode_utf16_def encode_char_bmp)
  next
    case True
    with "3.prems" have low: "\<not> is_low u" "is_low v" by (auto split: if_splits)
    with True 3 show ?thesis
      by (auto simp: encode_utf16_def encode_char_combine [OF True low])
  qed
qed (simp add: encode_utf16_def)

lemma from_utf16_SomeD:
  "from_utf16 us = Some s \<Longrightarrow> encode_utf16 s = us \<and> list_all is_scalar s"
  using decode_items_inv [of us] by (auto simp: from_utf16_def split: if_splits)

section \<open>UTF-16LE byte strings\<close>

definition utf16le :: "rstring \<Rightarrow> bytes" where
  "utf16le s = concat (map le16 (encode_utf16 s))"

text \<open>\<open>bytes.chunks_exact(2)\<close> decoded as little-endian units; an odd byte at the end is dropped.\<close>

fun units_of :: "bytes \<Rightarrow> u16 list" where
  "units_of (a # b # r) = de16 [a, b] # units_of r"
| "units_of _ = []"

definition utf16le_to_string :: "bytes \<Rightarrow> rstring" where
  "utf16le_to_string b = (if length b mod 2 \<noteq> 0 then [] else from_utf16_lossy (units_of b))"

definition utf16le_to_units :: "bytes \<Rightarrow> u16 list option" where
  "utf16le_to_units b = (if length b mod 2 \<noteq> 0 then None else Some (units_of b))"

lemma le16_two: "\<exists>x y. le16 w = [x, y]"
  using length_le16 [of w] by (metis (no_types) One_nat_def Suc_1 length_0_conv length_Suc_conv)

lemma units_of_le16: "units_of (concat (map le16 us)) = us"
proof (induction us)
  case (Cons u us)
  obtain x y where xy: "le16 u = [x, y]" using le16_two by blast
  then have "de16 [x, y] = u" by (metis de16_le16)
  with Cons xy show ?case by simp
qed simp

lemma utf16le_to_units_utf16le: "utf16le_to_units (utf16le s) = Some (encode_utf16 s)"
  by (simp add: utf16le_to_units_def utf16le_def units_of_le16)

lemma utf16le_to_string_utf16le: "list_all is_scalar s \<Longrightarrow> utf16le_to_string (utf16le s) = s"
  by (simp add: utf16le_to_string_def utf16le_def units_of_le16 from_utf16_lossy_encode)

lemma length_utf16le: "length (utf16le s) = 2 * length (encode_utf16 s)"
  by (simp add: utf16le_def)

lemma even_length_utf16le [simp]: "even (length (utf16le s))"
  by (simp add: length_utf16le)

section \<open>UTF-8\<close>

definition utf8_char :: "nat \<Rightarrow> bytes" where
  "utf8_char c =
     (if c < 0x80 then [of_nat c]
      else if c < 0x800 then [of_nat (0xC0 + c div 0x40), of_nat (0x80 + c mod 0x40)]
      else if c < 0x10000 then
        [of_nat (0xE0 + c div 0x1000), of_nat (0x80 + c div 0x40 mod 0x40), of_nat (0x80 + c mod 0x40)]
      else [of_nat (0xF0 + c div 0x40000), of_nat (0x80 + c div 0x1000 mod 0x40),
            of_nat (0x80 + c div 0x40 mod 0x40), of_nat (0x80 + c mod 0x40)])"

text \<open>\<open>s.as_bytes()\<close>; its length is \<open>s.len()\<close>.\<close>

definition as_bytes :: "rstring \<Rightarrow> bytes" where
  "as_bytes s = concat (map utf8_char s)"

lemma as_bytes_Nil_iff [simp]: "as_bytes s = [] \<longleftrightarrow> s = []"
  by (cases s) (auto simp: as_bytes_def utf8_char_def)

section \<open>FILETIME\<close>

definition FILETIME_OFFSET :: u64 where
  "FILETIME_OFFSET = 116444736000000000"

type_synonym system_time = int

text \<open>\<open>duration_since(UNIX_EPOCH)\<close>: seconds and sub-second nanoseconds, or the error.\<close>

definition since_epoch :: "system_time \<Rightarrow> (nat \<times> nat) option" where
  "since_epoch t = (if t < 0 then None else Some (nat t div 1000000000, nat t mod 1000000000))"

definition system_time_to_filetime :: "system_time \<Rightarrow> u64" where
  "system_time_to_filetime t =
     (case since_epoch t of
        Some (secs, nanos) \<Rightarrow>
          FILETIME_OFFSET + of_nat secs * 10000000 + of_nat (nanos div 100)
      | None \<Rightarrow> 0)"

lemma system_time_to_filetime_exact:
  assumes "0 \<le> t" and "t < 1000000000000000000000"
  shows "unat (system_time_to_filetime t) = 116444736000000000 + nat t div 100"
proof -
  let ?s = "nat t div 1000000000" and ?n = "nat t mod 1000000000 div 100"
  have s: "?s < 1000000000000" using assms by (simp add: nat_less_iff)
  have n: "?n < 10000000" by auto
  have "nat t = nat t mod 1000000000 + 100 * (?s * 10000000)"
    using mod_mult_div_eq [of "nat t" 1000000000] by simp
  then have eq: "?s * 10000000 + ?n = nat t div 100"
    by (metis (no_types) add.commute div_mult_self2 zero_neq_numeral)
  have "system_time_to_filetime t = of_nat (116444736000000000 + (?s * 10000000 + ?n))"
    using assms by (simp add: system_time_to_filetime_def since_epoch_def FILETIME_OFFSET_def)
  then have "unat (system_time_to_filetime t)
      = (116444736000000000 + (?s * 10000000 + ?n)) mod 2 ^ 64"
    by (simp only: unat_of_nat) simp
  moreover have "116444736000000000 + (?s * 10000000 + ?n) < 2 ^ 64"
    using s n by simp
  ultimately show ?thesis by (simp only: mod_less eq)
qed

end
