(* ===== verification/Wildcard.thy ===== *)
theory Wildcard
  imports Text
begin

text \<open>
  The DOS wildcard matcher of \<open>src/src/utils.rs\<close> (\<open>dos_pattern_matches\<close>): the backtracking loop
  over two indices and one remembered star, its total correctness against a declarative matcher,
  and the one kind of name on which the two differ.
\<close>

section \<open>The loop\<close>

definition char_match :: "nat \<Rightarrow> nat \<Rightarrow> bool" where
  "char_match c x \<longleftrightarrow> c = 63 \<or> ascii_lower c = ascii_lower x"

text \<open>The final loop skips the trailing stars of the pattern.\<close>

function skip_stars :: "rstring \<Rightarrow> nat \<Rightarrow> nat" where
  "skip_stars p i = (if i < length p \<and> p ! i = 42 then skip_stars p (i + 1) else i)"
  by pat_completeness auto
termination
  by (relation "measure (\<lambda>(p, i). length p - i)") auto

declare skip_stars.simps [simp del]

text \<open>
  \<open>star\<close> remembers the index after the last star and the name index its attempt started at.
  The result is \<open>None\<close> only if the loop never ends.
\<close>

partial_function (option) dos_loop ::
  "rstring \<Rightarrow> rstring \<Rightarrow> nat \<Rightarrow> nat \<Rightarrow> (nat \<times> nat) option \<Rightarrow> bool option" where
  "dos_loop p n pi ni star =
     (if ni < length n then
        if pi < length p \<and> char_match (p ! pi) (n ! ni) then dos_loop p n (pi + 1) (ni + 1) star
        else if pi < length p \<and> p ! pi = 42 then dos_loop p n (pi + 1) ni (Some (pi + 1, ni))
        else (case star of
                Some (after_star, star_ni) \<Rightarrow>
                  dos_loop p n after_star (star_ni + 1) (Some (after_star, star_ni + 1))
              | None \<Rightarrow> Some False)
      else Some (skip_stars p pi = length p))"

definition dos_pattern_matches_inner :: "rstring \<Rightarrow> rstring \<Rightarrow> bool option" where
  "dos_pattern_matches_inner p n = dos_loop p n 0 0 None"

definition dos_pattern_matches :: "rstring \<Rightarrow> rstring \<Rightarrow> bool option" where
  "dos_pattern_matches p n =
     (if p = [] \<or> p = lit ''*'' \<or> p = lit ''*.*'' then Some True
      else dos_pattern_matches_inner p n)"

section \<open>The declarative matcher\<close>

fun wild :: "rstring \<Rightarrow> rstring \<Rightarrow> bool" where
  "wild [] n \<longleftrightarrow> n = []"
| "wild (c # p) n \<longleftrightarrow>
     (if c = 42 then \<exists>k \<le> length n. wild p (drop k n)
      else n \<noteq> [] \<and> char_match c (hd n) \<and> wild p (tl n))"

lemma wild_star: "wild (42 # p) n \<longleftrightarrow> (\<exists>k \<le> length n. wild p (drop k n))"
  by simp

declare wild.simps(2) [simp del]

lemma wild_char:
  "c \<noteq> 42 \<Longrightarrow> wild (c # p) n \<longleftrightarrow> n \<noteq> [] \<and> char_match c (hd n) \<and> wild p (tl n)"
  by (simp add: wild.simps(2))

text \<open>A star-free segment consumes exactly its length.\<close>

lemma wild_segment:
  "42 \<notin> set q \<Longrightarrow> wild (q @ r) m \<Longrightarrow> length q \<le> length m \<and> wild r (drop (length q) m)"
proof (induction q arbitrary: m)
  case (Cons c q)
  then obtain x xs where "m = x # xs" "wild (q @ r) xs"
    by (cases m) (auto simp: wild_char)
  with Cons show ?case by auto
qed simp

lemma wild_Nil: "wild p [] \<longleftrightarrow> set p \<subseteq> {42}"
proof (induction p)
  case (Cons c p)
  then show ?case by (cases "c = 42") (auto simp: wild_star wild_char)
qed simp

lemma skip_stars_full: "i \<le> length p \<Longrightarrow> skip_stars p i = length p \<longleftrightarrow> set (drop i p) \<subseteq> {42}"
proof (induction p i rule: skip_stars.induct)
  case (1 p i)
  show ?case
  proof (cases "i < length p")
    case True
    have d: "drop i p = p ! i # drop (i + 1) p" using True by (simp add: Cons_nth_drop_Suc)
    from 1 True show ?thesis
      by (cases "p ! i = 42") (auto simp: skip_stars.simps [of p i] d)
  next
    case False
    with "1.prems" have "i = length p" by simp
    then show ?thesis by (simp add: skip_stars.simps [of p "length p"])
  qed
qed

section \<open>Total correctness\<close>

definition dos_inv :: "rstring \<Rightarrow> rstring \<Rightarrow> nat \<Rightarrow> nat \<Rightarrow> (nat \<times> nat) option \<Rightarrow> bool" where
  "dos_inv p n pi ni star \<longleftrightarrow> pi \<le> length p \<and> ni \<le> length n \<and>
     (case star of None \<Rightarrow> True | Some (a, s) \<Rightarrow> a \<le> pi \<and> ni = s + (pi - a))"

definition dos_seg :: "rstring \<Rightarrow> nat \<Rightarrow> (nat \<times> nat) option \<Rightarrow> bool" where
  "dos_seg p pi star \<longleftrightarrow>
     (case star of None \<Rightarrow> True | Some (a, s) \<Rightarrow> 42 \<notin> set (take (pi - a) (drop a p)))"

text \<open>What is still to be matched: the current attempt, or a later start for the last star.\<close>

definition dos_rest :: "rstring \<Rightarrow> rstring \<Rightarrow> nat \<Rightarrow> nat \<Rightarrow> (nat \<times> nat) option \<Rightarrow> bool" where
  "dos_rest p n pi ni star \<longleftrightarrow> wild (drop pi p) (drop ni n) \<or>
     (case star of None \<Rightarrow> False
      | Some (a, s) \<Rightarrow> \<exists>k. s < k \<and> k \<le> length n \<and> wild (drop a p) (drop k n))"

definition dos_order :: "rstring \<Rightarrow> rstring \<Rightarrow> nat \<Rightarrow> nat \<Rightarrow> (nat \<times> nat) option \<Rightarrow> nat \<times> nat \<times> nat" where
  "dos_order p n pi ni star =
     ((case star of None \<Rightarrow> length p + 1 | Some (a, s) \<Rightarrow> length p - a),
      (case star of None \<Rightarrow> 0 | Some (a, s) \<Rightarrow> length n - s), length n - ni)"

lemma dos_retry:
  assumes inv: "dos_inv p n pi ni (Some (a, s))" and seg: "dos_seg p pi (Some (a, s))"
    and k: "s < k" "k \<le> length n" "wild (drop a p) (drop k n)"
  shows "\<exists>k'. ni < k' \<and> k' \<le> length n \<and> wild (drop pi p) (drop k' n)"
proof -
  let ?q = "take (pi - a) (drop a p)"
  from inv have le: "a \<le> pi" "pi \<le> length p" "ni = s + (pi - a)" by (auto simp: dos_inv_def)
  then have split: "drop a p = ?q @ drop pi p"
    by (metis append_take_drop_id drop_drop le_add_diff_inverse2)
  from le have len: "length ?q = pi - a" by simp
  from seg have "42 \<notin> set ?q" by (simp add: dos_seg_def)
  with k(3) split have "length ?q \<le> length (drop k n) \<and> wild (drop pi p) (drop (length ?q) (drop k n))"
    by (metis wild_segment)
  with len k le show ?thesis
    by (intro exI [of _ "k + (pi - a)"]) (auto simp: add.commute)
qed

lemma dos_step_match:
  assumes "dos_inv p n pi ni star" "dos_seg p pi star" "42 \<notin> set n" "ni < length n"
    and "pi < length p" "char_match (p ! pi) (n ! ni)"
  shows "dos_inv p n (pi + 1) (ni + 1) star" and "dos_seg p (pi + 1) star"
    and "dos_rest p n (pi + 1) (ni + 1) star \<longleftrightarrow> dos_rest p n pi ni star"
proof -
  have n42: "p ! pi \<noteq> 42"
  proof
    assume eq: "p ! pi = 42"
    with assms(6) have "ascii_lower (n ! ni) = 42" by (simp add: char_match_def ascii_lower_def)
    then have "n ! ni = 42" by (auto simp: ascii_lower_def split: if_splits)
    with assms(3,4) show False by (metis nth_mem)
  qed
  show "dos_inv p n (pi + 1) (ni + 1) star"
    using assms(1,4,5) by (auto simp: dos_inv_def split: option.splits)
  show "dos_seg p (pi + 1) star"
  proof (cases star)
    case (Some as)
    obtain a s where [simp]: "as = (a, s)" by force
    with assms(1) Some have "a \<le> pi" by (simp add: dos_inv_def)
    then have "take (pi + 1 - a) (drop a p) = take (pi - a) (drop a p) @ [p ! pi]"
      using assms(5) by (simp add: Suc_diff_le take_Suc_conv_app_nth)
    with assms(2) n42 Some show ?thesis by (simp add: dos_seg_def)
  qed (simp add: dos_seg_def)
  have "drop pi p = p ! pi # drop (pi + 1) p" "drop ni n = n ! ni # drop (ni + 1) n"
    using assms(4,5) by (simp_all add: Cons_nth_drop_Suc)
  then have "wild (drop pi p) (drop ni n) \<longleftrightarrow> wild (drop (pi + 1) p) (drop (ni + 1) n)"
    using n42 assms(6) by (simp add: wild_char)
  then show "dos_rest p n (pi + 1) (ni + 1) star \<longleftrightarrow> dos_rest p n pi ni star"
    by (simp add: dos_rest_def)
qed

lemma dos_step_star:
  assumes "dos_inv p n pi ni star" "dos_seg p pi star" "ni < length n" "pi < length p" "p ! pi = 42"
  shows "dos_rest p n (pi + 1) ni (Some (pi + 1, ni)) \<longleftrightarrow> dos_rest p n pi ni star"
proof -
  have d: "drop pi p = 42 # drop (pi + 1) p"
    using assms(4,5) by (metis Cons_nth_drop_Suc Suc_eq_plus1)
  have new: "dos_rest p n (pi + 1) ni (Some (pi + 1, ni)) \<longleftrightarrow>
      (\<exists>k \<ge> ni. k \<le> length n \<and> wild (drop (pi + 1) p) (drop k n))"
    using assms(3) by (auto simp: dos_rest_def le_less)
  have cur: "wild (drop pi p) (drop m n) \<longleftrightarrow>
      (\<exists>k \<ge> m. k \<le> length n \<and> wild (drop (pi + 1) p) (drop k n))" if "m \<le> length n" for m
  proof -
    have "wild (drop pi p) (drop m n) \<longleftrightarrow>
        (\<exists>k \<le> length n - m. wild (drop (pi + 1) p) (drop (k + m) n))"
      by (simp add: d wild_star)
    also have "\<dots> \<longleftrightarrow> (\<exists>k \<ge> m. k \<le> length n \<and> wild (drop (pi + 1) p) (drop k n))"
      using that by (metis add.commute le_add2 le_add_diff_inverse2 le_diff_conv
          le_add_diff_inverse nat_add_left_cancel_le)
    finally show ?thesis .
  qed
  show ?thesis
  proof (cases star)
    case None
    with new cur [of ni] assms(3) show ?thesis by (simp add: dos_rest_def)
  next
    case (Some as)
    obtain a s where [simp]: "as = (a, s)" by force
    have "\<exists>k \<ge> ni. k \<le> length n \<and> wild (drop (pi + 1) p) (drop k n)"
      if "s < k" "k \<le> length n" "wild (drop a p) (drop k n)" for k
      using dos_retry [of p n pi ni a s k] assms(1,2) Some that cur
      by (metis (no_types, lifting) \<open>as = (a, s)\<close> le_trans less_imp_le)
    with new cur [of ni] assms(3) Some show ?thesis by (auto simp: dos_rest_def)
  qed
qed

lemma dos_step_fail:
  assumes "ni < length n" "\<not> (pi < length p \<and> char_match (p ! pi) (n ! ni))"
    and "\<not> (pi < length p \<and> p ! pi = 42)"
  shows "\<not> wild (drop pi p) (drop ni n)"
proof (cases "pi < length p")
  case True
  then have "drop pi p = p ! pi # drop (pi + 1) p" by (simp add: Cons_nth_drop_Suc)
  with assms True show ?thesis by (simp add: wild_char hd_drop_conv_nth)
qed (use assms in simp)

lemma dos_step_end:
  assumes "dos_inv p n pi ni star" "dos_seg p pi star" "\<not> ni < length n"
  shows "skip_stars p pi = length p \<longleftrightarrow> dos_rest p n pi ni star"
proof -
  have ni: "ni = length n" "pi \<le> length p" using assms(1,3) by (auto simp: dos_inv_def)
  have "\<not> (s < k \<and> k \<le> length n \<and> wild (drop a p) (drop k n))" if "star = Some (a, s)" for a s k
    using dos_retry [of p n pi ni a s k] assms(1,2) ni that by auto
  then show ?thesis
    using ni by (auto simp: dos_rest_def skip_stars_full wild_Nil split: option.splits)
qed

lemma ex_later: "(\<exists>k. s < k \<and> Q k) \<longleftrightarrow> Q (Suc s) \<or> (\<exists>k. Suc s < k \<and> Q k)" for s :: nat
  by (metis Suc_lessD Suc_lessI lessI)

lemma dos_loop_total:
  assumes "dos_inv p n pi ni star"
  shows "\<exists>b. dos_loop p n pi ni star = Some b \<and>
    (42 \<notin> set n \<longrightarrow> dos_seg p pi star \<longrightarrow> b = dos_rest p n pi ni star)"
  using assms
proof (induction "dos_order p n pi ni star" arbitrary: pi ni star
    rule: wf_induct_rule [OF wf_lex_prod [OF wf_less_than wf_lex_prod [OF wf_less_than wf_less_than]]])
  case (1 pi ni star)
  note loop = dos_loop.simps [of p n pi ni star]
  consider (fin) "\<not> ni < length n"
    | (match) "ni < length n" "pi < length p" "char_match (p ! pi) (n ! ni)"
    | (star) "ni < length n" "pi < length p" "\<not> char_match (p ! pi) (n ! ni)" "p ! pi = 42"
    | (fail) "ni < length n" "\<not> (pi < length p \<and> char_match (p ! pi) (n ! ni))"
        "\<not> (pi < length p \<and> p ! pi = 42)"
    by blast
  then show ?case
  proof cases
    case fin
    with loop dos_step_end [OF "1.prems"] show ?thesis by simp
  next
    case match
    have inv: "dos_inv p n (pi + 1) (ni + 1) star"
      using "1.prems" match by (auto simp: dos_inv_def split: option.splits)
    have "(dos_order p n (pi + 1) (ni + 1) star, dos_order p n pi ni star)
        \<in> less_than <*lex*> less_than <*lex*> less_than"
      using match by (auto simp: dos_order_def)
    from "1.hyps" [OF this inv]
    obtain b where b: "dos_loop p n (pi + 1) (ni + 1) star = Some b"
        "42 \<notin> set n \<longrightarrow> dos_seg p (pi + 1) star \<longrightarrow> b = dos_rest p n (pi + 1) (ni + 1) star"
      by blast
    with loop match dos_step_match [OF "1.prems"] show ?thesis by auto
  next
    case star
    have inv: "dos_inv p n (pi + 1) ni (Some (pi + 1, ni))"
      using "1.prems" star by (auto simp: dos_inv_def split: option.splits)
    have "(dos_order p n (pi + 1) ni (Some (pi + 1, ni)), dos_order p n pi ni star)
        \<in> less_than <*lex*> less_than <*lex*> less_than"
      using "1.prems" star by (auto simp: dos_order_def dos_inv_def split: option.splits)
    from "1.hyps" [OF this inv]
    obtain b where b: "dos_loop p n (pi + 1) ni (Some (pi + 1, ni)) = Some b"
        "42 \<notin> set n \<longrightarrow> b = dos_rest p n (pi + 1) ni (Some (pi + 1, ni))"
      by (auto simp: dos_seg_def)
    with loop star dos_step_star [OF "1.prems"] show ?thesis by auto
  next
    case fail
    show ?thesis
    proof (cases star)
      case None
      with loop fail dos_step_fail [OF fail] show ?thesis by (intro exI [of _ False]) (simp add: dos_rest_def)
    next
      case (Some as)
      obtain a s where as [simp]: "as = (a, s)" by force
      have s: "s < length n" "a \<le> length p" using "1.prems" Some fail(1) by (auto simp: dos_inv_def)
      then have inv: "dos_inv p n a (s + 1) (Some (a, s + 1))" by (simp add: dos_inv_def)
      have "(dos_order p n a (s + 1) (Some (a, s + 1)), dos_order p n pi ni star)
          \<in> less_than <*lex*> less_than <*lex*> less_than"
        using s Some by (auto simp: dos_order_def)
      from "1.hyps" [OF this inv]
      obtain b where b: "dos_loop p n a (s + 1) (Some (a, s + 1)) = Some b"
          "42 \<notin> set n \<longrightarrow> b = dos_rest p n a (s + 1) (Some (a, s + 1))"
        by (auto simp: dos_seg_def)
      have "dos_rest p n a (s + 1) (Some (a, s + 1)) \<longleftrightarrow> dos_rest p n pi ni star"
        using dos_step_fail [OF fail] s Some ex_later [of s "\<lambda>k. k \<le> length n \<and> wild (drop a p) (drop k n)"]
        by (simp add: dos_rest_def)
      with b loop fail Some show ?thesis by auto
    qed
  qed
qed

lemma dos_inner_total: "\<exists>b. dos_pattern_matches_inner p n = Some b"
  using dos_loop_total [of p n 0 0 None]
  by (auto simp: dos_pattern_matches_inner_def dos_inv_def)

lemma dos_inner_wild: "42 \<notin> set n \<Longrightarrow> dos_pattern_matches_inner p n = Some (wild p n)"
  using dos_loop_total [of p n 0 0 None]
  by (auto simp: dos_pattern_matches_inner_def dos_inv_def dos_seg_def dos_rest_def)

lemma dos_pattern_matches_total: "\<exists>b. dos_pattern_matches p n = Some b"
  using dos_inner_total [of p n] by (auto simp: dos_pattern_matches_def)

text \<open>The result as a boolean, for the callers.\<close>

definition dos_matches :: "rstring \<Rightarrow> rstring \<Rightarrow> bool" where
  "dos_matches p n \<longleftrightarrow> dos_pattern_matches p n = Some True"

lemma dos_matches_star [simp]: "dos_matches [] n" "dos_matches (lit ''*'') n"
  by (simp_all add: dos_matches_def dos_pattern_matches_def)

text \<open>
  C34: For every file name without a literal star (no SMB client can create one with it) the
  matcher returns, and its answer is: everything for the three match-all patterns, and otherwise
  exactly the declarative wildcard match (\<open>?\<close> one character, \<open>*\<close> any run of characters,
  letters without regard to ASCII case).
\<close>

theorem dos_pattern_matches_correct:
  assumes "42 \<notin> set n"
  shows "dos_pattern_matches p n =
    Some (p = [] \<or> p = lit ''*'' \<or> p = lit ''*.*'' \<or> wild p n)"
  using dos_inner_wild [OF assms, of p] by (simp add: dos_pattern_matches_def)

theorem dos_pattern_matches_correct_witness:
  "dos_pattern_matches (lit ''a*C'') (lit ''abxc'') = Some (wild (lit ''a*C'') (lit ''abxc''))"
proof -
  have "42 \<notin> set (lit ''abxc'')" by (simp add: lit_def)
  from dos_pattern_matches_correct [OF this, of "lit ''a*C''"] show ?thesis
    by (simp add: lit_def)
qed

text \<open>On a name that holds a star the loop can take the pattern's star as a literal.\<close>

lemma dos_star_name: "dos_pattern_matches (lit ''*b'') (lit ''*ab'') = Some False \<and>
    wild (lit ''*b'') (lit ''*ab'')"
proof
  show "dos_pattern_matches (lit ''*b'') (lit ''*ab'') = Some False"
    by (simp add: dos_pattern_matches_def dos_pattern_matches_inner_def dos_loop.simps lit_def
        char_match_def ascii_lower_def)
  show "wild (lit ''*b'') (lit ''*ab'')"
    by (auto simp: lit_def wild_star wild_char char_match_def intro!: exI [of _ 2])
qed

end
