(* ===== verification/Codec.thy ===== *)
theory Codec
  imports Prelude
begin

text \<open>
  The error type of the protocol layer (\<open>src/src/proto/error.rs\<close>) and the contract that
  every wire codec of \<open>src/src/proto/messages\<close> meets. A codec reads a value off the front of a
  byte string and writes it back; the laws say that the two are inverse on the well-formed
  values, so that each message accepts exactly the encodings it produces, followed by anything.
\<close>

datatype proto_error =
    Malformed string | UnsupportedDialect u16 | Auth string | Crypto string | ProtoIo | Binrw

text \<open>The operator \<open>?\<close>: go on with the value, or return the error.\<close>

definition attempt :: "'e + 'a \<Rightarrow> ('a \<Rightarrow> 'e + 'b) \<Rightarrow> 'e + 'b" where
  "attempt r f = (case r of Inl e \<Rightarrow> Inl e | Inr x \<Rightarrow> f x)"

lemma attempt_simps [simp]: "attempt (Inl e) f = Inl e" "attempt (Inr x) f = f x"
  by (simp_all add: attempt_def)

lemma attempt_cong [fundef_cong]:
  "r = r' \<Longrightarrow> (\<And>x. r' = Inr x \<Longrightarrow> f x = g x) \<Longrightarrow> attempt r f = attempt r' g"
  by (simp add: attempt_def split: sum.splits)

lemma attempt_eq_Inr: "attempt r f = Inr y \<longleftrightarrow> (\<exists>x. r = Inr x \<and> f x = Inr y)"
  by (simp add: attempt_def split: sum.splits)

section \<open>The codec contract\<close>

locale codec =
  fixes get :: "bytes \<Rightarrow> ('a \<times> bytes) option"
    and put :: "'a \<Rightarrow> bytes"
    and wf :: "'a \<Rightarrow> bool"
  assumes get_put: "wf m \<Longrightarrow> get (put m @ r) = Some (m, r)"
    and get_wf: "get b = Some (m, r) \<Longrightarrow> wf m"
    and get_canonical: "get b = Some (m, r) \<Longrightarrow> b = put m @ r"
begin

lemma get_put_end: "wf m \<Longrightarrow> get (put m) = Some (m, [])"
  using get_put [of m "[]"] by simp

lemma put_inject: "wf m \<Longrightarrow> wf m' \<Longrightarrow> put m = put m' \<longleftrightarrow> m = m'"
  using get_put_end by (metis option.inject prod.inject)

lemma put_prefix_free: "wf m \<Longrightarrow> wf m' \<Longrightarrow> put m @ r = put m' @ r' \<Longrightarrow> m = m' \<and> r = r'"
  using get_put by (metis option.inject prod.inject)

lemma get_more:
  assumes "get b = Some (m, r)"
  shows "get (b @ s) = Some (m, r @ s)"
  using get_put [OF get_wf [OF assms], of "r @ s"] get_canonical [OF assms] by simp

lemma get_iff: "get b = Some (m, r) \<longleftrightarrow> wf m \<and> b = put m @ r"
  using get_put get_wf get_canonical by blast

lemma get_length: "get b = Some (m, r) \<Longrightarrow> length b = length (put m) + length r"
  using get_canonical by fastforce

end

text \<open>
  \<open>T::read(&mut Cursor::new(buf))\<close>: every \<open>parse\<close> of the messages ignores what follows.
\<close>

definition parse_with :: "(bytes \<Rightarrow> ('a \<times> bytes) option) \<Rightarrow> bytes \<Rightarrow> 'a option" where
  "parse_with get b = map_option fst (get b)"

context codec
begin

lemma parse_put: "wf m \<Longrightarrow> parse_with get (put m @ r) = Some m"
  by (simp add: parse_with_def get_put)

lemma parse_iff: "parse_with get b = Some m \<longleftrightarrow> wf m \<and> (\<exists>r. b = put m @ r)"
  by (auto simp: parse_with_def get_put dest: get_wf get_canonical)

lemma parse_wf: "parse_with get b = Some m \<Longrightarrow> wf m"
  by (simp add: parse_iff)

lemma parse_more: "parse_with get b = Some m \<Longrightarrow> parse_with get (b @ s) = Some m"
  by (auto simp: parse_iff)

end

section \<open>Repetition\<close>

text \<open>\<open>#[br(count = n)] Vec<T>\<close>: exactly \<open>n\<close> elements in a row.\<close>

fun get_many :: "(bytes \<Rightarrow> ('a \<times> bytes) option) \<Rightarrow> nat \<Rightarrow> bytes \<Rightarrow> ('a list \<times> bytes) option" where
  "get_many get 0 b = Some ([], b)"
| "get_many get (Suc n) b =
     do { (x, b) \<leftarrow> get b; (xs, b) \<leftarrow> get_many get n b; Some (x # xs, b) }"

context codec
begin

lemma get_many_put:
  "list_all wf ms \<Longrightarrow> n = length ms \<Longrightarrow> get_many get n (concat (map put ms) @ r) = Some (ms, r)"
  by (induction ms arbitrary: n) (auto simp: get_put)

lemma get_many_SomeD:
  "get_many get n b = Some (ms, r) \<Longrightarrow>
    list_all wf ms \<and> length ms = n \<and> b = concat (map put ms) @ r"
proof (induction n arbitrary: b ms)
  case (Suc n)
  then obtain x b1 xs where "get b = Some (x, b1)" "get_many get n b1 = Some (xs, r)" "ms = x # xs"
    by (auto simp: Option.bind_eq_Some_conv)
  with Suc.IH [of b1 xs] show ?case by (simp add: get_iff)
qed simp

end

section \<open>Alignment\<close>

text \<open>The number of zero bytes up to the next multiple of eight: \<open>(8 - n % 8) % 8\<close>.\<close>

definition pad_to8 :: "nat \<Rightarrow> nat" where
  "pad_to8 n = (8 - n mod 8) mod 8"

lemma pad_to8_cases: "pad_to8 n = (if n mod 8 = 0 then 0 else 8 - n mod 8)"
  by (cases "n mod 8 = 0") (simp_all add: pad_to8_def)

lemma pad_to8_0 [simp]: "pad_to8 0 = 0"
  by (simp add: pad_to8_def)

lemma pad_to8_lt: "pad_to8 n < 8"
  by (simp add: pad_to8_def)

lemma pad_to8_dvd [simp]: "8 dvd n + pad_to8 n"
proof -
  obtain q r where n: "n = 8 * q + r" "r < 8"
    using that [of "n div 8" "n mod 8"] by simp
  then have m: "n mod 8 = r" by simp
  from n have "n + (8 - r) = 8 * (q + 1)" by simp
  then have "8 dvd n + (8 - r)" by (metis dvd_triv_left)
  with n m show ?thesis by (auto simp: pad_to8_cases)
qed

lemma pad_to8_aligned [simp]: "8 dvd n \<Longrightarrow> pad_to8 n = 0"
  by (simp add: pad_to8_cases dvd_eq_mod_eq_0)

lemma pad_to8_add_aligned [simp]: "8 dvd m \<Longrightarrow> pad_to8 (m + n) = pad_to8 n"
  by (simp add: pad_to8_def mod_add_eq dvd_eq_mod_eq_0 flip: mod_add_left_eq [of m])

definition pad8 :: "bytes \<Rightarrow> bytes" where
  "pad8 b = b @ replicate (pad_to8 (length b)) 0"

lemma length_pad8 [simp, wire_len]: "length (pad8 b) = length b + pad_to8 (length b)"
  by (simp add: pad8_def)

lemma pad8_aligned: "8 dvd length b \<Longrightarrow> pad8 b = b"
  by (simp add: pad8_def)

lemma pad8_append: "8 dvd length a \<Longrightarrow> pad8 (a @ b) = a @ pad8 b"
  by (simp add: pad8_def)

section \<open>Facts for decoding\<close>

lemma get16s_SomeD: "get16s n b = Some (ws, r) \<Longrightarrow> length ws = n \<and> b = concat (map le16 ws) @ r"
proof (induction n arbitrary: b ws)
  case (Suc n)
  then obtain x b1 xs where "get16 b = Some (x, b1)" "get16s n b1 = Some (xs, r)" "ws = x # xs"
    by (auto simp: Option.bind_eq_Some_conv)
  with Suc.IH [of b1 xs] show ?case by (auto dest: get16_SomeD)
qed simp

lemmas codec_dests = get_SomeD get16s_SomeD

end
