(* ===== verification/Framing.thy ===== *)
theory Framing
  imports Codec
begin

text \<open>
  Direct-TCP framing: \<open>src/src/proto/framing.rs\<close>, the frame reader of
  \<open>src/src/conn/reader.rs\<close> and the frame writer of \<open>src/src/conn/writer.rs\<close>. A socket is the
  byte string the peer sends before it closes its side.
\<close>

definition FRAME_HEADER_LEN :: nat where "FRAME_HEADER_LEN = 4"
definition MAX_FRAME_PAYLOAD :: u32 where "MAX_FRAME_PAYLOAD = 0x00FFFFFF"

text \<open>The release build, where the debug assertion on the length is not compiled in.\<close>

definition encode_frame :: "bytes \<Rightarrow> bytes \<Rightarrow> bytes" where
  "encode_frame payload out =
     (let len = (of_nat (length payload) :: u32) in
      out @ [0, ucast (drop_bit 16 len AND 0xFF), ucast (drop_bit 8 len AND 0xFF),
             ucast (len AND 0xFF)] @ payload)"

definition decode_frame_header :: "u8 \<times> u8 \<times> u8 \<times> u8 \<Rightarrow> proto_error + u32" where
  "decode_frame_header hdr =
     (case hdr of (b0, b1, b2, b3) \<Rightarrow>
        if b0 \<noteq> 0
        then Inl (Malformed ''NetBIOS session-message type byte must be 0x00 for Direct-TCP'')
        else Inr (push_bit 16 (ucast b1) OR push_bit 8 (ucast b2) OR ucast b3))"

text \<open>
  \<open>read_exact\<close> on a stream that ends early fails with \<open>UnexpectedEof\<close>; \<open>read_one_frame\<close> turns
  that into an orderly end for the header and lets it through for the payload. Any other error of
  the socket, after the bytes it delivered, comes through from either read.
\<close>

datatype stream_end = PeerClosed | SocketError

datatype frame_read = FrameEof | Frame bytes | FrameInvalid proto_error | FrameTruncated | FrameIoError

definition read_one_frame :: "stream_end \<Rightarrow> bytes \<Rightarrow> frame_read \<times> bytes" where
  "read_one_frame fin s =
     (case s of
        b0 # b1 # b2 # b3 # s' \<Rightarrow>
          (case decode_frame_header (b0, b1, b2, b3) of
             Inl e \<Rightarrow> (FrameInvalid e, s')
           | Inr len \<Rightarrow>
               if length s' < unat len
               then (case fin of PeerClosed \<Rightarrow> FrameTruncated | SocketError \<Rightarrow> FrameIoError, [])
               else (Frame (take (unat len) s'), drop (unat len) s'))
      | _ \<Rightarrow> (case fin of PeerClosed \<Rightarrow> FrameEof | SocketError \<Rightarrow> FrameIoError, []))"

definition decode_frame :: "bytes \<Rightarrow> proto_error + (bytes \<times> bytes)" where
  "decode_frame buf =
     (case buf of
        b0 # b1 # b2 # b3 # s' \<Rightarrow>
          (case decode_frame_header (b0, b1, b2, b3) of
             Inl e \<Rightarrow> Inl e
           | Inr len \<Rightarrow>
               if length buf < FRAME_HEADER_LEN + unat len
               then Inl (Malformed ''truncated frame body'')
               else Inr (take (unat len) s', drop (unat len) s'))
      | _ \<Rightarrow> Inl (Malformed ''short frame header''))"

lemma read_one_frame_shorter: "read_one_frame fin s = (Frame p, s') \<Longrightarrow> length s' < length s"
  by (auto simp: read_one_frame_def split: list.splits sum.splits if_splits stream_end.splits)

text \<open>
  The frames a connection's reader sees before it stops, and why it stops. The writer task sends
  each queued payload in a frame of its own.
\<close>

function read_frames :: "stream_end \<Rightarrow> bytes \<Rightarrow> bytes list \<times> frame_read" where
  "read_frames fin s =
     (case read_one_frame fin s of
        (Frame p, s') \<Rightarrow> (let (ps, e) = read_frames fin s' in (p # ps, e))
      | (stop, _) \<Rightarrow> ([], stop))"
  by pat_completeness auto
termination
  by (relation "measure (\<lambda>(_, s). length s)") (auto dest: read_one_frame_shorter [OF sym])

declare read_frames.simps [simp del]

definition write_frames :: "bytes list \<Rightarrow> bytes" where
  "write_frames payloads = concat (map (\<lambda>p. encode_frame p []) payloads)"

section \<open>What is written is read back\<close>

lemma and_FF: "(w AND 0xFF :: u32) = take_bit 8 w"
  by (simp add: take_bit_eq_mask mask_eq_exp_minus_1)

lemma frame_header_bytes:
  fixes len :: u32
  assumes "unat len < 2 ^ 24"
  shows "decode_frame_header (0, ucast (drop_bit 16 len AND 0xFF), ucast (drop_bit 8 len AND 0xFF),
    ucast (len AND 0xFF)) = Inr len"
proof -
  have "push_bit 16 (ucast (ucast (drop_bit 16 len AND 0xFF) :: u8)) OR
      push_bit 8 (ucast (ucast (drop_bit 8 len AND 0xFF) :: u8)) OR
      ucast (ucast (len AND 0xFF) :: u8) = len" (is "?w = len")
  proof (rule bit_word_eqI)
    fix n :: nat
    assume n: "n < LENGTH(32)"
    have high: "\<not> bit len n" if "24 \<le> n"
    proof -
      have "unat len < 2 ^ n"
        using assms that power_increasing [of 24 n "2::nat"] by simp
      then have "\<not> bit (unat len) n" by (simp add: bit_iff_odd)
      with n show ?thesis by (simp add: bit_unsigned_iff)
    qed
    show "bit ?w n \<longleftrightarrow> bit len n"
      using n high
      by (cases "n < 8"; cases "n < 16"; cases "n < 24")
        (auto simp: and_FF bit_or_iff bit_push_bit_iff bit_drop_bit_eq bit_ucast_iff
          bit_take_bit_iff not_less)
  qed
  then show ?thesis by (simp add: decode_frame_header_def)
qed

lemma read_one_frame_encode:
  assumes "length p < 2 ^ 24"
  shows "read_one_frame fin (encode_frame p [] @ s) = (Frame p, s)"
proof -
  let ?len = "of_nat (length p) :: u32"
  have "unat ?len = length p"
    using assms by (simp add: unat_of_nat take_bit_eq_mod)
  with assms frame_header_bytes [of ?len] show ?thesis
    by (simp add: encode_frame_def Let_def read_one_frame_def)
qed

lemma encode_frame_out: "encode_frame p out = out @ encode_frame p []"
  by (simp add: encode_frame_def Let_def)

lemma length_encode_frame [wire_len]: "length (encode_frame p []) = FRAME_HEADER_LEN + length p"
  by (simp add: encode_frame_def Let_def FRAME_HEADER_LEN_def)

lemma decode_frame_read:
  "decode_frame buf = Inr (p, rest) \<longleftrightarrow> read_one_frame fin buf = (Frame p, rest)"
  by (auto simp: decode_frame_def read_one_frame_def FRAME_HEADER_LEN_def
      split: list.splits sum.splits if_splits stream_end.splits)

lemma write_frames_simps [simp]:
  "write_frames [] = []" "write_frames (p # ps) = encode_frame p [] @ write_frames ps"
  by (simp_all add: write_frames_def)

text \<open>Frames are taken off the front of the stream, whatever follows them.\<close>

lemma read_frames_write:
  assumes "\<forall>p \<in> set ps. length p \<le> unat MAX_FRAME_PAYLOAD"
  shows "read_frames fin (write_frames ps @ s) = (ps @ fst (read_frames fin s), snd (read_frames fin s))"
  using assms
proof (induction ps)
  case (Cons p ps)
  then have "length p < 2 ^ 24" by (simp add: MAX_FRAME_PAYLOAD_def)
  with Cons show ?case
    by (subst read_frames.simps) (simp add: read_one_frame_encode)
qed simp

lemma read_frames_Nil [simp]: "read_frames PeerClosed [] = ([], FrameEof)"
  by (simp add: read_frames.simps [of _ "[]"] read_one_frame_def)

text \<open>
  C40: Whatever payloads the writer task sends (each of at most $2^{24} - 1$ bytes, the largest
  length the header can hold), the peer's frame reader splits the byte stream into exactly those
  payloads, in order, and then sees the end of the stream when the writer's side is closed.
\<close>

theorem read_write_frames:
  assumes "\<forall>p \<in> set ps. length p \<le> unat MAX_FRAME_PAYLOAD"
  shows "read_frames PeerClosed (write_frames ps) = (ps, FrameEof)"
  using read_frames_write [OF assms, of PeerClosed "[]"] by simp

theorem read_write_frames_witness:
  "read_frames PeerClosed (write_frames [[1, 2, 3], []]) = ([[1, 2, 3], []], FrameEof)"
  by (rule read_write_frames) (simp add: MAX_FRAME_PAYLOAD_def)

text \<open>
  A frame reader never returns more than the length field promises, so what it allocates for one
  frame is below 16 MiB whatever the peer sends.
\<close>

lemma decode_frame_header_bound:
  assumes "decode_frame_header h = Inr len"
  shows "unat len \<le> unat MAX_FRAME_PAYLOAD"
proof -
  obtain b0 b1 b2 b3 where h: "h = (b0, b1, b2, b3)" by (cases h) auto
  with assms have len: "len = push_bit 16 (ucast b1) OR push_bit 8 (ucast b2) OR ucast b3"
    by (auto simp: decode_frame_header_def split: if_splits)
  have "take_bit 24 len = len"
  proof (rule bit_word_eqI)
    fix n assume "n < LENGTH(32)"
    then show "bit (take_bit 24 len) n \<longleftrightarrow> bit len n"
      by (auto simp: len bit_take_bit_iff bit_or_iff bit_push_bit_iff bit_ucast_iff
          dest: bit_imp_le_length)
  qed
  then have "unat len < 2 ^ 24"
    by (metis take_bit_nat_less_exp unsigned_take_bit_eq)
  then show ?thesis by (simp add: MAX_FRAME_PAYLOAD_def)
qed

lemma read_one_frame_bound:
  "read_one_frame fin s = (Frame p, s') \<Longrightarrow> length p \<le> unat MAX_FRAME_PAYLOAD"
  by (auto simp: read_one_frame_def min_def split: list.splits sum.splits if_splits stream_end.splits
      dest: decode_frame_header_bound)

text \<open>
  A stream that breaks off inside a frame header is reported as an orderly end, like a stream
  that stops at a frame boundary: the header read maps every \<open>UnexpectedEof\<close> to \<open>Ok(None)\<close>.
\<close>

lemma read_one_frame_partial_header:
  "length s < FRAME_HEADER_LEN \<Longrightarrow> read_one_frame PeerClosed s = (FrameEof, [])"
  by (auto simp: read_one_frame_def FRAME_HEADER_LEN_def split: list.splits)

section \<open>The frames of a byte stream\<close>

text \<open>
  What a frame is, without a decoder: a zero byte, the length of the payload in three bytes, the
  most significant first, and that many bytes. A stream is some frames and a rest that does not
  start with another one.
\<close>

definition is_frame :: "bytes \<Rightarrow> bytes \<Rightarrow> bool" where
  "is_frame f p \<longleftrightarrow> (\<exists>b1 b2 b3. f = [0, b1, b2, b3] @ p \<and>
     length p = 256 * 256 * unat b1 + 256 * unat b2 + unat b3)"

definition splits_into :: "bytes \<Rightarrow> bytes list \<Rightarrow> bytes \<Rightarrow> bool" where
  "splits_into s ps rest \<longleftrightarrow>
     (\<exists>fs. list_all2 is_frame fs ps \<and> s = concat fs @ rest) \<and>
     (\<nexists>f p more. is_frame f p \<and> rest = f @ more)"

text \<open>How a reader stops is decided by that rest and by how the stream ended.\<close>

definition stop_of :: "stream_end \<Rightarrow> bytes \<Rightarrow> frame_read" where
  "stop_of fin rest =
     (if 4 \<le> length rest \<and> hd rest \<noteq> 0
      then FrameInvalid
        (Malformed ''NetBIOS session-message type byte must be 0x00 for Direct-TCP'')
      else case fin of SocketError \<Rightarrow> FrameIoError
        | PeerClosed \<Rightarrow> if length rest < 4 then FrameEof else FrameTruncated)"

lemma decode_frame_header_big_endian:
  "decode_frame_header (0, b1, b2, b3) = Inr len
    \<longleftrightarrow> unat len = 256 * 256 * unat b1 + 256 * unat b2 + unat b3"
proof -
  let ?w = "push_bit 16 (ucast b1) OR push_bit 8 (ucast b2) OR ucast b3 :: u32"
  have "push_bit 8 (ucast b2) OR ucast b3 = push_bit 8 (ucast b2) + (ucast b3 :: u32)"
    by (rule disjunctive_add [symmetric]) (auto simp: bit_push_bit_iff bit_ucast_iff dest: bit_imp_le_length)
  moreover have "push_bit 16 (ucast b1) OR (push_bit 8 (ucast b2) OR ucast b3)
      = push_bit 16 (ucast b1) + (push_bit 8 (ucast b2) OR ucast b3 :: u32)"
    by (rule disjunctive_add [symmetric])
      (auto simp: bit_push_bit_iff bit_or_iff bit_ucast_iff dest: bit_imp_le_length)
  ultimately have w: "?w = 256 * 256 * ucast b1 + 256 * ucast b2 + ucast b3"
    by (simp add: push_bit_eq_mult ac_simps)
  have byte: "unat b < 256" for b :: u8
    using unsigned_less [of b, where ?'a = nat] by simp
  have small: "((65536 * (x mod 4294967296) mod 4294967296 +
      256 * (y mod 4294967296) mod 4294967296) mod 4294967296 + z mod 4294967296) mod 4294967296
      = 65536 * x + 256 * y + z" if "x < 256" "y < 256" "z < 256" for x y z :: nat
    using that by simp
  have "unat (256 * 256 * ucast b1 + 256 * ucast b2 + ucast b3 :: u32)
      = 256 * 256 * unat b1 + 256 * unat b2 + unat b3"
    by (simp add: unat_word_ariths unsigned_ucast_eq take_bit_eq_mod small [OF byte byte byte])
  with w have "unat ?w = 256 * 256 * unat b1 + 256 * unat b2 + unat b3" by simp
  moreover have "decode_frame_header (0, b1, b2, b3) = Inr len \<longleftrightarrow> unat ?w = unat len"
    unfolding word_unat_eq_iff [symmetric] by (simp add: decode_frame_header_def)
  ultimately show ?thesis by (simp only: eq_commute [of "unat len"])
qed

text \<open>The writer's frames are frames, and a frame is what the writer sends for its payload.\<close>

lemma is_frame_read:
  "read_one_frame fin s = (Frame p, rest) \<longleftrightarrow> (\<exists>f. is_frame f p \<and> s = f @ rest)"
proof
  assume read: "read_one_frame fin s = (Frame p, rest)"
  then obtain b1 b2 b3 s' len where s: "s = 0 # b1 # b2 # b3 # s'"
      "decode_frame_header (0, b1, b2, b3) = Inr len" "\<not> length s' < unat len"
      "p = take (unat len) s'" "rest = drop (unat len) s'"
    by (auto simp: read_one_frame_def decode_frame_header_def
        split: list.splits sum.splits if_splits stream_end.splits)
  then have "is_frame (0 # b1 # b2 # b3 # p) p"
    by (auto simp: is_frame_def decode_frame_header_big_endian)
  with s show "\<exists>f. is_frame f p \<and> s = f @ rest"
    by (intro exI [of _ "0 # b1 # b2 # b3 # p"]) simp
next
  assume "\<exists>f. is_frame f p \<and> s = f @ rest"
  then obtain b1 b2 b3 where s: "s = 0 # b1 # b2 # b3 # p @ rest"
      and len: "length p = 256 * 256 * unat b1 + 256 * unat b2 + unat b3"
    by (auto simp: is_frame_def)
  obtain l where "decode_frame_header (0, b1, b2, b3) = Inr l"
    by (simp add: decode_frame_header_def)
  with s len show "read_one_frame fin s = (Frame p, rest)"
    by (auto simp: read_one_frame_def decode_frame_header_big_endian [symmetric]
        dest: decode_frame_header_big_endian [THEN iffD1])
qed

lemma is_frame_unique:
  assumes "is_frame f p" and "is_frame f' p'" and "f @ s = f' @ s'"
  shows "f = f' \<and> p = p' \<and> s = s'"
  using assms by (auto simp: is_frame_def)

lemma is_frame_encode: "length p \<le> unat MAX_FRAME_PAYLOAD \<Longrightarrow> is_frame (encode_frame p []) p"
  using is_frame_read [of PeerClosed "encode_frame p []" p "[]"]
    read_one_frame_encode [of p PeerClosed "[]"]
  by (simp add: MAX_FRAME_PAYLOAD_def)

lemma stop_of_read:
  assumes "\<nexists>f p more. is_frame f p \<and> s = f @ more"
  shows "fst (read_one_frame fin s) = stop_of fin s"
proof -
  have "\<nexists>p rest. read_one_frame fin s = (Frame p, rest)"
    using assms is_frame_read [of fin s] by blast
  then show ?thesis
    by (auto simp: read_one_frame_def stop_of_def decode_frame_header_def
        split: list.splits if_splits stream_end.splits)
qed

text \<open>Every stream splits in exactly one way, and the reader finds it.\<close>

lemma splits_into_Nil: "splits_into s [] rest \<longleftrightarrow>
    s = rest \<and> (\<nexists>f p more. is_frame f p \<and> rest = f @ more)"
  by (auto simp: splits_into_def)

lemma splits_into_Cons: "splits_into s (p # ps) rest \<longleftrightarrow>
    (\<exists>f s'. is_frame f p \<and> s = f @ s' \<and> splits_into s' ps rest)"
proof
  assume "splits_into s (p # ps) rest"
  then obtain f fs where f: "is_frame f p" "list_all2 is_frame fs ps" "s = f @ concat fs @ rest"
    and "\<nexists>f p more. is_frame f p \<and> rest = f @ more"
    by (auto simp: splits_into_def list_all2_Cons2)
  then have "splits_into (concat fs @ rest) ps rest" unfolding splits_into_def by blast
  with f show "\<exists>f s'. is_frame f p \<and> s = f @ s' \<and> splits_into s' ps rest" by blast
next
  assume "\<exists>f s'. is_frame f p \<and> s = f @ s' \<and> splits_into s' ps rest"
  then obtain f fs where f: "is_frame f p" "list_all2 is_frame fs ps" "s = f @ concat fs @ rest"
    and "\<nexists>f p more. is_frame f p \<and> rest = f @ more"
    unfolding splits_into_def by blast
  then show "splits_into s (p # ps) rest"
    unfolding splits_into_def by (intro conjI exI [of _ "f # fs"]) simp_all
qed

lemma splits_into_unique:
  "splits_into s ps rest \<Longrightarrow> splits_into s ps' rest' \<Longrightarrow> ps = ps' \<and> rest = rest'"
proof (induction ps arbitrary: s ps')
  case Nil
  then show ?case by (cases ps') (auto simp: splits_into_Nil splits_into_Cons)
next
  case (Cons p ps)
  then obtain f s' where f: "is_frame f p" "s = f @ s'" "splits_into s' ps rest"
    by (auto simp: splits_into_Cons)
  with Cons.prems(2) obtain p' qs f' s'' where qs: "ps' = p' # qs" "is_frame f' p'" "s = f' @ s''"
      "splits_into s'' qs rest'"
    by (cases ps') (auto simp: splits_into_Nil splits_into_Cons)
  with f have "p = p'" "s' = s''" using is_frame_unique [of f p f' p' s' s''] by auto
  with Cons.IH [OF f(3)] qs show ?case by blast
qed

lemma read_frames_splits:
  "\<exists>rest. splits_into s (fst (read_frames fin s)) rest \<and> snd (read_frames fin s) = stop_of fin rest"
proof (induction fin s rule: read_frames.induct)
  case (1 fin s)
  obtain r s' where one: "read_one_frame fin s = (r, s')" by fastforce
  show ?case
  proof (cases "\<exists>p. r = Frame p")
    case True
    then obtain p where r: "r = Frame p" by blast
    obtain f where "is_frame f p" "s = f @ s'" using one r is_frame_read by blast
    moreover obtain rest where "splits_into s' (fst (read_frames fin s')) rest"
        "snd (read_frames fin s') = stop_of fin rest"
      using "1.IH" [OF one [symmetric] r] by blast
    moreover have "read_frames fin s = (p # fst (read_frames fin s'), snd (read_frames fin s'))"
      by (subst read_frames.simps) (simp add: one r case_prod_unfold Let_def)
    ultimately show ?thesis by (auto simp: splits_into_Cons)
  next
    case False
    then have no: "\<nexists>f p more. is_frame f p \<and> s = f @ more"
      using one is_frame_read [of fin s] by fastforce
    moreover have "read_frames fin s = ([], r)"
      using False one by (subst read_frames.simps) (simp split: frame_read.splits)
    moreover have "r = stop_of fin s" using stop_of_read [OF no, of fin] one by simp
    ultimately show ?thesis by (simp add: splits_into_Nil)
  qed
qed

lemma write_frames_split:
  "\<forall>p \<in> set ps. length p \<le> unat MAX_FRAME_PAYLOAD \<Longrightarrow> splits_into (write_frames ps) ps []"
proof (induction ps)
  case Nil
  show ?case by (simp add: splits_into_Nil is_frame_def)
next
  case (Cons p ps)
  then show ?case
    using is_frame_encode by (auto simp: splits_into_Cons intro: exI [of _ "encode_frame p []"])
qed

lemma splits_into_read:
  assumes "splits_into s ps rest"
  shows "read_frames fin s = (ps, stop_of fin rest)"
  using read_frames_splits [of s fin] splits_into_unique [OF assms] by (metis prod.collapse)

end
