(* ===== verification/Header.thy ===== *)
theory Header
  imports Codec
begin

text \<open>
  The 64-byte SMB2 header, \<open>src/src/proto/header.rs\<close>: opcodes, flags, the synchronous and the
  asynchronous form, parsing and serialisation.
\<close>

definition SMB2_MAGIC :: bytes where "SMB2_MAGIC = [0xFE, 0x53, 0x4D, 0x42]"
definition SMB2_HEADER_STRUCTURE_SIZE :: u16 where "SMB2_HEADER_STRUCTURE_SIZE = 64"
definition SMB2_HEADER_LEN :: nat where "SMB2_HEADER_LEN = 64"

definition SMB2_FLAGS_SERVER_TO_REDIR :: u32 where "SMB2_FLAGS_SERVER_TO_REDIR = 0x00000001"
definition SMB2_FLAGS_ASYNC_COMMAND :: u32 where "SMB2_FLAGS_ASYNC_COMMAND = 0x00000002"
definition SMB2_FLAGS_RELATED_OPERATIONS :: u32 where
  "SMB2_FLAGS_RELATED_OPERATIONS = 0x00000004"
definition SMB2_FLAGS_SIGNED :: u32 where "SMB2_FLAGS_SIGNED = 0x00000008"

lemmas flag_defs = SMB2_FLAGS_SERVER_TO_REDIR_def SMB2_FLAGS_ASYNC_COMMAND_def
  SMB2_FLAGS_RELATED_OPERATIONS_def SMB2_FLAGS_SIGNED_def

datatype command =
    Negotiate | SessionSetup | Logoff | TreeConnect | TreeDisconnect | Create | Close | Flush
  | Read | Write | Lock | Ioctl | Cancel | Echo | QueryDirectory | ChangeNotify | QueryInfo
  | SetInfo | OplockBreak

primrec command_as_u16 :: "command \<Rightarrow> u16" where
  "command_as_u16 Negotiate = 0x0000"
| "command_as_u16 SessionSetup = 0x0001"
| "command_as_u16 Logoff = 0x0002"
| "command_as_u16 TreeConnect = 0x0003"
| "command_as_u16 TreeDisconnect = 0x0004"
| "command_as_u16 Create = 0x0005"
| "command_as_u16 Close = 0x0006"
| "command_as_u16 Flush = 0x0007"
| "command_as_u16 Read = 0x0008"
| "command_as_u16 Write = 0x0009"
| "command_as_u16 Lock = 0x000A"
| "command_as_u16 Ioctl = 0x000B"
| "command_as_u16 Cancel = 0x000C"
| "command_as_u16 Echo = 0x000D"
| "command_as_u16 QueryDirectory = 0x000E"
| "command_as_u16 ChangeNotify = 0x000F"
| "command_as_u16 QueryInfo = 0x0010"
| "command_as_u16 SetInfo = 0x0011"
| "command_as_u16 OplockBreak = 0x0012"

text \<open>\<open>Command::read_le\<close>: the variants in order of their opcode, or an error.\<close>

definition all_commands :: "command list" where
  "all_commands = [Negotiate, SessionSetup, Logoff, TreeConnect, TreeDisconnect, Create, Close,
     Flush, Read, Write, Lock, Ioctl, Cancel, Echo, QueryDirectory, ChangeNotify, QueryInfo,
     SetInfo, OplockBreak]"

definition command_from_u16 :: "u16 \<Rightarrow> command option" where
  "command_from_u16 w = List.find (\<lambda>c. command_as_u16 c = w) all_commands"

datatype header_tail = SyncTail (tail_reserved: u32) (tail_tree: u32) | AsyncTail (tail_async: u64)

definition tail_sync :: "u32 \<Rightarrow> header_tail" where
  "tail_sync tree_id = SyncTail 0 tree_id"

record smb2_header =
  credit_charge :: u16
  channel_sequence_status :: u32
  hdr_command :: command
  credit_request_response :: u16
  flags :: u32
  next_command :: u32
  message_id :: u64
  hdr_tail :: header_tail
  session_id :: u64
  signature :: bytes

definition default_header :: smb2_header where
  "default_header =
     \<lparr>credit_charge = 0, channel_sequence_status = 0, hdr_command = Negotiate,
      credit_request_response = 0, flags = 0, next_command = 0, message_id = 0,
      hdr_tail = tail_sync 0, session_id = 0, signature = replicate 16 0\<rparr>"

definition is_async :: "smb2_header \<Rightarrow> bool" where
  "is_async h \<longleftrightarrow> flags h AND SMB2_FLAGS_ASYNC_COMMAND \<noteq> 0"

definition is_response :: "smb2_header \<Rightarrow> bool" where
  "is_response h \<longleftrightarrow> flags h AND SMB2_FLAGS_SERVER_TO_REDIR \<noteq> 0"

definition hdr_tree_id :: "smb2_header \<Rightarrow> u32 option" where
  "hdr_tree_id h = (case hdr_tail h of SyncTail _ t \<Rightarrow> Some t | AsyncTail _ \<Rightarrow> None)"

definition hdr_async_id :: "smb2_header \<Rightarrow> u64 option" where
  "hdr_async_id h = (case hdr_tail h of SyncTail _ _ \<Rightarrow> None | AsyncTail a \<Rightarrow> Some a)"

section \<open>The raw layout\<close>

record raw_header =
  raw_protocol_id :: bytes
  raw_structure_size :: u16
  raw_credit_charge :: u16
  raw_status :: u32
  raw_command :: u16
  raw_credits :: u16
  raw_flags :: u32
  raw_next_command :: u32
  raw_message_id :: u64
  raw_tail :: bytes
  raw_session_id :: u64
  raw_signature :: bytes

definition get_raw_header :: "bytes \<Rightarrow> (raw_header \<times> bytes) option" where
  "get_raw_header b = do {
     (protocol_id, b) \<leftarrow> get_bytes 4 b;
     (structure_size, b) \<leftarrow> get16 b;
     (charge, b) \<leftarrow> get16 b;
     (status, b) \<leftarrow> get32 b;
     (command_raw, b) \<leftarrow> get16 b;
     (credits, b) \<leftarrow> get16 b;
     (fl, b) \<leftarrow> get32 b;
     (next_cmd, b) \<leftarrow> get32 b;
     (mid, b) \<leftarrow> get64 b;
     (tail_bytes, b) \<leftarrow> get_bytes 8 b;
     (sid, b) \<leftarrow> get64 b;
     (sig, b) \<leftarrow> get_bytes 16 b;
     Some (\<lparr>raw_protocol_id = protocol_id, raw_structure_size = structure_size,
            raw_credit_charge = charge, raw_status = status, raw_command = command_raw,
            raw_credits = credits, raw_flags = fl, raw_next_command = next_cmd,
            raw_message_id = mid, raw_tail = tail_bytes, raw_session_id = sid,
            raw_signature = sig\<rparr>, b) }"

definition put_raw_header :: "raw_header \<Rightarrow> bytes" where
  "put_raw_header r =
     raw_protocol_id r @ le16 (raw_structure_size r) @ le16 (raw_credit_charge r) @
     le32 (raw_status r) @ le16 (raw_command r) @ le16 (raw_credits r) @ le32 (raw_flags r) @
     le32 (raw_next_command r) @ le64 (raw_message_id r) @ raw_tail r @
     le64 (raw_session_id r) @ raw_signature r"

definition wf_raw_header :: "raw_header \<Rightarrow> bool" where
  "wf_raw_header r \<longleftrightarrow>
     length (raw_protocol_id r) = 4 \<and> length (raw_tail r) = 8 \<and> length (raw_signature r) = 16"

interpretation raw: codec get_raw_header put_raw_header wf_raw_header
proof
  fix m r assume "wf_raw_header m"
  then show "get_raw_header (put_raw_header m @ r) = Some (m, r)"
    by (simp add: get_raw_header_def put_raw_header_def wf_raw_header_def wire)
next
  fix b m r assume "get_raw_header b = Some (m, r)"
  then show "wf_raw_header m" "b = put_raw_header m @ r"
    by (auto simp: get_raw_header_def put_raw_header_def wf_raw_header_def
        Option.bind_eq_Some_conv dest!: codec_dests)
qed

section \<open>Parsing and writing\<close>

definition tail_of :: "u32 \<Rightarrow> bytes \<Rightarrow> header_tail" where
  "tail_of fl t =
     (if fl AND SMB2_FLAGS_ASYNC_COMMAND \<noteq> 0 then AsyncTail (de64 t)
      else SyncTail (de32 (slice 0 4 t)) (de32 (slice 4 4 t)))"

definition smb2_header_parse :: "bytes \<Rightarrow> proto_error + (smb2_header \<times> bytes)" where
  "smb2_header_parse buf =
     (if length buf < SMB2_HEADER_LEN then Inl (Malformed ''short SMB2 header'')
      else case get_raw_header (take SMB2_HEADER_LEN buf) of
        None \<Rightarrow> Inl Binrw
      | Some (raw, _) \<Rightarrow>
          if raw_protocol_id raw \<noteq> SMB2_MAGIC then Inl (Malformed ''bad SMB2 magic'')
          else if raw_structure_size raw \<noteq> SMB2_HEADER_STRUCTURE_SIZE
          then Inl (Malformed ''SMB2 header structure_size != 64'')
          else (case command_from_u16 (raw_command raw) of
              None \<Rightarrow> Inl (Malformed ''unknown SMB2 command opcode'')
            | Some cmd \<Rightarrow>
                Inr (\<lparr>credit_charge = raw_credit_charge raw,
                         channel_sequence_status = raw_status raw, hdr_command = cmd,
                         credit_request_response = raw_credits raw, flags = raw_flags raw,
                         next_command = raw_next_command raw, message_id = raw_message_id raw,
                         hdr_tail = tail_of (raw_flags raw) (raw_tail raw), session_id = raw_session_id raw,
                         signature = raw_signature raw\<rparr>, drop SMB2_HEADER_LEN buf)))"

definition raw_of :: "smb2_header \<Rightarrow> raw_header" where
  "raw_of h =
     \<lparr>raw_protocol_id = SMB2_MAGIC, raw_structure_size = SMB2_HEADER_STRUCTURE_SIZE,
      raw_credit_charge = credit_charge h, raw_status = channel_sequence_status h,
      raw_command = command_as_u16 (hdr_command h), raw_credits = credit_request_response h,
      raw_flags = flags h, raw_next_command = next_command h, raw_message_id = message_id h,
      raw_tail = (case hdr_tail h of SyncTail r t \<Rightarrow> le32 r @ le32 t | AsyncTail a \<Rightarrow> le64 a),
      raw_session_id = session_id h, raw_signature = signature h\<rparr>"

definition smb2_header_write :: "smb2_header \<Rightarrow> bytes" where
  "smb2_header_write h = put_raw_header (raw_of h)"

text \<open>The form of the tail agrees with the flag that selects it, and the signature has 16 bytes.\<close>

definition wf_header :: "smb2_header \<Rightarrow> bool" where
  "wf_header h \<longleftrightarrow> length (signature h) = 16 \<and>
     (is_async h \<longleftrightarrow> (case hdr_tail h of AsyncTail _ \<Rightarrow> True | SyncTail _ _ \<Rightarrow> False))"

section \<open>Properties\<close>

lemma command_from_as_u16 [simp]: "command_from_u16 (command_as_u16 c) = Some c"
  by (cases c) (simp_all add: command_from_u16_def all_commands_def)

lemma command_from_u16_SomeD: "command_from_u16 w = Some c \<Longrightarrow> command_as_u16 c = w"
  by (auto simp: command_from_u16_def find_Some_iff)

lemma command_as_u16_inject [simp]: "command_as_u16 a = command_as_u16 b \<longleftrightarrow> a = b"
  by (metis command_from_as_u16 option.inject)

lemma wf_raw_of: "length (signature h) = 16 \<Longrightarrow> wf_raw_header (raw_of h)"
  by (simp add: wf_raw_header_def raw_of_def SMB2_MAGIC_def split: header_tail.splits)

lemma length_put_raw: "wf_raw_header r \<Longrightarrow> length (put_raw_header r) = SMB2_HEADER_LEN"
  by (simp add: put_raw_header_def wf_raw_header_def SMB2_HEADER_LEN_def)

lemma length_header_write [wire_len]:
  "length (signature h) = 16 \<Longrightarrow> length (smb2_header_write h) = SMB2_HEADER_LEN"
  by (simp add: smb2_header_write_def length_put_raw wf_raw_of)

lemma header_parse_write:
  assumes "wf_header h"
  shows "smb2_header_parse (smb2_header_write h @ r) = Inr (h, r)"
proof -
  have len: "length (smb2_header_write h) = SMB2_HEADER_LEN"
    using assms by (simp add: wf_header_def length_header_write)
  have raw: "get_raw_header (smb2_header_write h) = Some (raw_of h, [])"
    using assms by (simp add: smb2_header_write_def wf_header_def wf_raw_of raw.get_put_end)
  have "tail_of (raw_flags (raw_of h)) (raw_tail (raw_of h)) = hdr_tail h"
    using assms by (auto simp: tail_of_def wf_header_def is_async_def raw_of_def slice_def
        split: header_tail.splits)
  moreover have "h = \<lparr>credit_charge = raw_credit_charge (raw_of h),
      channel_sequence_status = raw_status (raw_of h), hdr_command = hdr_command h,
      credit_request_response = raw_credits (raw_of h), flags = raw_flags (raw_of h),
      next_command = raw_next_command (raw_of h), message_id = raw_message_id (raw_of h),
      hdr_tail = hdr_tail h, session_id = raw_session_id (raw_of h),
      signature = raw_signature (raw_of h)\<rparr>"
    by (simp add: raw_of_def)
  moreover have "raw_protocol_id (raw_of h) = SMB2_MAGIC"
    "raw_structure_size (raw_of h) = SMB2_HEADER_STRUCTURE_SIZE"
    "raw_command (raw_of h) = command_as_u16 (hdr_command h)"
    by (simp_all add: raw_of_def)
  ultimately show ?thesis
    using len raw by (simp add: smb2_header_parse_def)
qed

lemma header_parse_SomeD:
  assumes "smb2_header_parse b = Inr (h, r)"
  shows "wf_header h" and "b = smb2_header_write h @ r"
proof -
  from assms obtain raw rest where len: "SMB2_HEADER_LEN \<le> length b"
      and raw: "get_raw_header (take SMB2_HEADER_LEN b) = Some (raw, rest)"
    by (auto simp: smb2_header_parse_def not_less split: if_splits option.splits)
  note wf = raw.get_wf [OF raw]
  note canon = raw.get_canonical [OF raw]
  have rest: "rest = []"
    using arg_cong [OF canon, of length] len length_put_raw [OF wf] by simp
  from assms len raw obtain cmd where cmd: "command_from_u16 (raw_command raw) = Some cmd"
      and magic: "raw_protocol_id raw = SMB2_MAGIC"
      and size: "raw_structure_size raw = SMB2_HEADER_STRUCTURE_SIZE"
    by (auto simp: smb2_header_parse_def split: if_splits option.splits)
  define t where "t = raw_tail raw"
  have t8: "length t = 8" using wf by (simp add: wf_raw_header_def t_def)
  then have halves: "le32 (de32 (slice 0 4 t)) @ le32 (de32 (slice 4 4 t)) = t"
    by (simp add: le32_de32 slice_def)
  from assms len raw cmd magic size
  have h: "h = \<lparr>credit_charge = raw_credit_charge raw,
      channel_sequence_status = raw_status raw, hdr_command = cmd,
      credit_request_response = raw_credits raw, flags = raw_flags raw,
      next_command = raw_next_command raw, message_id = raw_message_id raw,
      hdr_tail = tail_of (raw_flags raw) t,
      session_id = raw_session_id raw, signature = raw_signature raw\<rparr>"
    and r: "r = drop SMB2_HEADER_LEN b"
    by (simp_all add: smb2_header_parse_def t_def)
  show "wf_header h"
    using wf by (simp add: h wf_header_def is_async_def wf_raw_header_def tail_of_def)
  have "raw_of h = raw"
    using magic size command_from_u16_SomeD [OF cmd] halves le64_de64 [OF t8]
    by (simp add: raw_of_def h t_def tail_of_def)
  with canon rest have "smb2_header_write h = take SMB2_HEADER_LEN b"
    by (simp add: smb2_header_write_def)
  with r show "b = smb2_header_write h @ r" by simp
qed

text \<open>
  C38: The header parser accepts exactly the serialisations of well-formed headers, followed by
  anything, and returns the header that was serialised and the untouched rest.
\<close>

theorem header_parse_iff:
  "smb2_header_parse b = Inr (h, r) \<longleftrightarrow> wf_header h \<and> b = smb2_header_write h @ r"
  using header_parse_write header_parse_SomeD by blast

text \<open>
  The one field of a serialised message that is rewritten in place is the signature, the last 16
  of the 64 bytes.
\<close>

lemma header_write_split:
  assumes "length (signature h) = 16"
  shows "smb2_header_write h = take 48 (smb2_header_write h) @ signature h"
proof -
  have "length (raw_tail (raw_of h)) = 8"
    by (simp add: raw_of_def split: header_tail.splits)
  then show ?thesis
    by (simp add: smb2_header_write_def put_raw_header_def raw_of_def SMB2_MAGIC_def)
qed

lemma header_write_signature:
  assumes "length (signature h) = 16" and "length sig = 16"
  shows "smb2_header_write (h\<lparr>signature := sig\<rparr>) = patch 48 sig (smb2_header_write h)"
proof -
  have "length (raw_tail (raw_of h)) = 8"
    by (simp add: raw_of_def split: header_tail.splits)
  with assms show ?thesis
    by (simp add: smb2_header_write_def put_raw_header_def raw_of_def patch_def SMB2_MAGIC_def
        numeral_eq_Suc)
qed

end
