(* ===== verification/Messages_Session.thy ===== *)
theory Messages_Session
  imports Text Codec
begin

text \<open>
  Messages that set up a connection, a session and a tree: \<open>negotiate.rs\<close>, \<open>session_setup.rs\<close>,
  \<open>logoff.rs\<close>, \<open>tree_connect.rs\<close>, \<open>tree_disconnect.rs\<close>, \<open>echo.rs\<close>, \<open>cancel.rs\<close> and
  \<open>error_response.rs\<close> of \<open>src/src/proto/messages\<close>. Each \<open>#[binrw]\<close> structure is a record with
  the fields in wire order; \<open>get_*\<close> and \<open>put_*\<close> are its little-endian reader and writer,
  \<open>wf_*\<close> says that the length fields agree with the buffers (the \<open>count\<close> attributes), and the
  interpretation of \<open>codec\<close> shows that the two are inverse.
\<close>

section \<open>Dialects\<close>

datatype dialect = Smb202 | Smb210 | Smb300 | Smb302 | Smb311 | Smb2Wildcard

primrec dialect_as_u16 :: "dialect \<Rightarrow> u16" where
  "dialect_as_u16 Smb202 = 0x0202"
| "dialect_as_u16 Smb210 = 0x0210"
| "dialect_as_u16 Smb300 = 0x0300"
| "dialect_as_u16 Smb302 = 0x0302"
| "dialect_as_u16 Smb311 = 0x0311"
| "dialect_as_u16 Smb2Wildcard = 0x02FF"

definition dialect_from_u16 :: "u16 \<Rightarrow> dialect option" where
  "dialect_from_u16 v =
     (if v = 0x0202 then Some Smb202 else if v = 0x0210 then Some Smb210
      else if v = 0x0300 then Some Smb300 else if v = 0x0302 then Some Smb302
      else if v = 0x0311 then Some Smb311 else if v = 0x02FF then Some Smb2Wildcard
      else None)"

lemma dialect_from_as [simp]: "dialect_from_u16 (dialect_as_u16 d) = Some d"
  by (cases d) (simp_all add: dialect_from_u16_def)

lemma dialect_from_SomeD: "dialect_from_u16 v = Some d \<Longrightarrow> v = dialect_as_u16 d"
  by (auto simp: dialect_from_u16_def split: if_splits)

section \<open>Negotiate\<close>

record negotiate_request =
  ngq_structure_size :: u16
  ngq_dialect_count :: u16
  ngq_security_mode :: u16
  ngq_reserved :: u16
  ngq_capabilities :: u32
  ngq_client_guid :: bytes
  ngq_negotiate_context_offset_or_client_start_time :: u64
  ngq_dialects :: "u16 list"

definition get_negotiate_request :: "bytes \<Rightarrow> (negotiate_request \<times> bytes) option" where
  "get_negotiate_request b = do {
     (structure_size, b) \<leftarrow> get16 b;
     (dialect_count, b) \<leftarrow> get16 b;
     (security_mode, b) \<leftarrow> get16 b;
     (reserved, b) \<leftarrow> get16 b;
     (capabilities, b) \<leftarrow> get32 b;
     (client_guid, b) \<leftarrow> get_bytes 16 b;
     (negotiate_context_offset_or_client_start_time, b) \<leftarrow> get64 b;
     (dialects, b) \<leftarrow> get16s (unat dialect_count) b;
     Some (\<lparr>ngq_structure_size = structure_size, ngq_dialect_count = dialect_count,
            ngq_security_mode = security_mode, ngq_reserved = reserved, ngq_capabilities = capabilities,
            ngq_client_guid = client_guid,
            ngq_negotiate_context_offset_or_client_start_time = negotiate_context_offset_or_client_start_time,
            ngq_dialects = dialects\<rparr>, b) }"

definition put_negotiate_request :: "negotiate_request \<Rightarrow> bytes" where
  "put_negotiate_request m =
     le16 (ngq_structure_size m) @ le16 (ngq_dialect_count m) @ le16 (ngq_security_mode m) @
     le16 (ngq_reserved m) @ le32 (ngq_capabilities m) @ ngq_client_guid m @
     le64 (ngq_negotiate_context_offset_or_client_start_time m) @
     concat (map le16 (ngq_dialects m))"

definition wf_negotiate_request :: "negotiate_request \<Rightarrow> bool" where
  "wf_negotiate_request m \<longleftrightarrow> length (ngq_client_guid m) = 16 \<and>
     length (ngq_dialects m) = (unat (ngq_dialect_count m))"

interpretation negotiate_request: codec get_negotiate_request put_negotiate_request wf_negotiate_request
proof
  fix m r assume "wf_negotiate_request m"
  then show "get_negotiate_request (put_negotiate_request m @ r) = Some (m, r)"
    by (simp add: get_negotiate_request_def put_negotiate_request_def wf_negotiate_request_def wire)
next
  fix b m r assume "get_negotiate_request b = Some (m, r)"
  then show "wf_negotiate_request m" "b = put_negotiate_request m @ r"
    by (auto simp: get_negotiate_request_def put_negotiate_request_def wf_negotiate_request_def Option.bind_eq_Some_conv
        dest!: codec_dests )
qed

definition negotiate_request_parse :: "bytes \<Rightarrow> negotiate_request option" where
  "negotiate_request_parse = parse_with get_negotiate_request"

record negotiate_response =
  ngr_structure_size :: u16
  ngr_security_mode :: u16
  ngr_dialect_revision :: u16
  ngr_negotiate_context_count_or_reserved :: u16
  ngr_server_guid :: bytes
  ngr_capabilities :: u32
  ngr_max_transact_size :: u32
  ngr_max_read_size :: u32
  ngr_max_write_size :: u32
  ngr_system_time :: u64
  ngr_server_start_time :: u64
  ngr_security_buffer_offset :: u16
  ngr_security_buffer_length :: u16
  ngr_negotiate_context_offset_or_reserved2 :: u32
  ngr_security_buffer :: bytes

definition get_negotiate_response :: "bytes \<Rightarrow> (negotiate_response \<times> bytes) option" where
  "get_negotiate_response b = do {
     (structure_size, b) \<leftarrow> get16 b;
     (security_mode, b) \<leftarrow> get16 b;
     (dialect_revision, b) \<leftarrow> get16 b;
     (negotiate_context_count_or_reserved, b) \<leftarrow> get16 b;
     (server_guid, b) \<leftarrow> get_bytes 16 b;
     (capabilities, b) \<leftarrow> get32 b;
     (max_transact_size, b) \<leftarrow> get32 b;
     (max_read_size, b) \<leftarrow> get32 b;
     (max_write_size, b) \<leftarrow> get32 b;
     (system_time, b) \<leftarrow> get64 b;
     (server_start_time, b) \<leftarrow> get64 b;
     (security_buffer_offset, b) \<leftarrow> get16 b;
     (security_buffer_length, b) \<leftarrow> get16 b;
     (negotiate_context_offset_or_reserved2, b) \<leftarrow> get32 b;
     (security_buffer, b) \<leftarrow> get_bytes (unat security_buffer_length) b;
     Some (\<lparr>ngr_structure_size = structure_size, ngr_security_mode = security_mode,
            ngr_dialect_revision = dialect_revision,
            ngr_negotiate_context_count_or_reserved = negotiate_context_count_or_reserved,
            ngr_server_guid = server_guid, ngr_capabilities = capabilities,
            ngr_max_transact_size = max_transact_size, ngr_max_read_size = max_read_size,
            ngr_max_write_size = max_write_size, ngr_system_time = system_time,
            ngr_server_start_time = server_start_time,
            ngr_security_buffer_offset = security_buffer_offset,
            ngr_security_buffer_length = security_buffer_length,
            ngr_negotiate_context_offset_or_reserved2 = negotiate_context_offset_or_reserved2,
            ngr_security_buffer = security_buffer\<rparr>, b) }"

definition put_negotiate_response :: "negotiate_response \<Rightarrow> bytes" where
  "put_negotiate_response m =
     le16 (ngr_structure_size m) @ le16 (ngr_security_mode m) @ le16 (ngr_dialect_revision m) @
     le16 (ngr_negotiate_context_count_or_reserved m) @ ngr_server_guid m @
     le32 (ngr_capabilities m) @ le32 (ngr_max_transact_size m) @ le32 (ngr_max_read_size m) @
     le32 (ngr_max_write_size m) @ le64 (ngr_system_time m) @ le64 (ngr_server_start_time m) @
     le16 (ngr_security_buffer_offset m) @ le16 (ngr_security_buffer_length m) @
     le32 (ngr_negotiate_context_offset_or_reserved2 m) @ ngr_security_buffer m"

definition wf_negotiate_response :: "negotiate_response \<Rightarrow> bool" where
  "wf_negotiate_response m \<longleftrightarrow> length (ngr_server_guid m) = 16 \<and>
     length (ngr_security_buffer m) = (unat (ngr_security_buffer_length m))"

interpretation negotiate_response: codec get_negotiate_response put_negotiate_response wf_negotiate_response
proof
  fix m r assume "wf_negotiate_response m"
  then show "get_negotiate_response (put_negotiate_response m @ r) = Some (m, r)"
    by (simp add: get_negotiate_response_def put_negotiate_response_def wf_negotiate_response_def wire)
next
  fix b m r assume "get_negotiate_response b = Some (m, r)"
  then show "wf_negotiate_response m" "b = put_negotiate_response m @ r"
    by (auto simp: get_negotiate_response_def put_negotiate_response_def wf_negotiate_response_def Option.bind_eq_Some_conv
        dest!: codec_dests )
qed

definition negotiate_response_parse :: "bytes \<Rightarrow> negotiate_response option" where
  "negotiate_response_parse = parse_with get_negotiate_response"

record negotiate_context =
  nc_context_type :: u16
  nc_data_length :: u16
  nc_reserved :: u32
  nc_data :: bytes

definition get_negotiate_context :: "bytes \<Rightarrow> (negotiate_context \<times> bytes) option" where
  "get_negotiate_context b = do {
     (context_type, b) \<leftarrow> get16 b;
     (data_length, b) \<leftarrow> get16 b;
     (reserved, b) \<leftarrow> get32 b;
     (dat, b) \<leftarrow> get_bytes (unat data_length) b;
     Some (\<lparr>nc_context_type = context_type, nc_data_length = data_length, nc_reserved = reserved,
            nc_data = dat\<rparr>, b) }"

definition put_negotiate_context :: "negotiate_context \<Rightarrow> bytes" where
  "put_negotiate_context m =
     le16 (nc_context_type m) @ le16 (nc_data_length m) @ le32 (nc_reserved m) @ nc_data m"

definition wf_negotiate_context :: "negotiate_context \<Rightarrow> bool" where
  "wf_negotiate_context m \<longleftrightarrow> length (nc_data m) = (unat (nc_data_length m))"

interpretation negotiate_context: codec get_negotiate_context put_negotiate_context wf_negotiate_context
proof
  fix m r assume "wf_negotiate_context m"
  then show "get_negotiate_context (put_negotiate_context m @ r) = Some (m, r)"
    by (simp add: get_negotiate_context_def put_negotiate_context_def wf_negotiate_context_def wire)
next
  fix b m r assume "get_negotiate_context b = Some (m, r)"
  then show "wf_negotiate_context m" "b = put_negotiate_context m @ r"
    by (auto simp: get_negotiate_context_def put_negotiate_context_def wf_negotiate_context_def Option.bind_eq_Some_conv
        dest!: codec_dests )
qed

definition TYPE_PREAUTH_INTEGRITY :: u16 where "TYPE_PREAUTH_INTEGRITY = 0x0001"
definition TYPE_ENCRYPTION :: u16 where "TYPE_ENCRYPTION = 0x0002"
definition TYPE_SIGNING :: u16 where "TYPE_SIGNING = 0x0008"
definition HASH_SHA512 :: u16 where "HASH_SHA512 = 0x0001"
definition ALGORITHM_HMAC_SHA256 :: u16 where "ALGORITHM_HMAC_SHA256 = 0x0000"
definition ALGORITHM_AES_CMAC :: u16 where "ALGORITHM_AES_CMAC = 0x0001"

text \<open>
  \<open>NegotiateContext::parse_list\<close>: the loop over \<open>0..count\<close> with what it has consumed so far, and
  \<open>encode_list\<close>, which pads before every entry but the first.
\<close>

fun parse_context_loop :: "nat \<Rightarrow> bytes \<Rightarrow> nat \<Rightarrow> proto_error + negotiate_context list" where
  "parse_context_loop 0 buf consumed_total = Inr []"
| "parse_context_loop (Suc count) buf consumed_total =
     (let pad = pad_to8 consumed_total in
      if length buf < pad then Inl (Malformed ''negotiate context alignment underflow'')
      else
        let buf = drop pad buf; consumed_total = consumed_total + pad in
        (case get_negotiate_context buf of
           None \<Rightarrow> Inl Binrw
         | Some (ctx, rest) \<Rightarrow>
             let consumed = length buf - length rest in
             (case parse_context_loop count rest (consumed_total + consumed) of
                Inl e \<Rightarrow> Inl e
              | Inr ctxs \<Rightarrow> Inr (ctx # ctxs))))"

definition negotiate_context_parse_list ::
    "bytes \<Rightarrow> u16 \<Rightarrow> proto_error + negotiate_context list" where
  "negotiate_context_parse_list buf count = parse_context_loop (unat count) buf 0"

fun encode_context_loop :: "bool \<Rightarrow> negotiate_context list \<Rightarrow> bytes \<Rightarrow> nat \<Rightarrow> bytes" where
  "encode_context_loop first [] out start = out"
| "encode_context_loop first (ctx # ctxs) out start =
     (let pad = (if first then 0 else pad_to8 (length out - start))
      in encode_context_loop False ctxs (out @ replicate pad 0 @ put_negotiate_context ctx) start)"

definition negotiate_context_encode_list :: "negotiate_context list \<Rightarrow> bytes \<Rightarrow> bytes" where
  "negotiate_context_encode_list list out = encode_context_loop True list out (length out)"

lemma encode_context_loop_out:
  "\<exists>tail. encode_context_loop first cs (pre @ mid) (length pre) = pre @ mid @ tail \<and>
     parse_context_loop (length cs) (if first then drop (length mid) (mid @ tail) else tail)
       (if first then 0 else length mid) = Inr cs"
  if "list_all wf_negotiate_context cs" "first \<Longrightarrow> mid = []"
  using that
proof (induction cs arbitrary: mid first)
  case Nil
  then show ?case by simp
next
  case (Cons c cs)
  let ?pad = "if first then 0 else pad_to8 (length mid)"
  let ?mid = "mid @ replicate ?pad 0 @ put_negotiate_context c"
  from Cons.prems Cons.IH [of False ?mid]
  obtain tail where enc: "encode_context_loop False cs (pre @ ?mid) (length pre)
        = pre @ ?mid @ tail"
      and dec: "parse_context_loop (length cs) tail (length ?mid) = Inr cs"
    by auto
  have pad: "pad_to8 (if first then 0 else length mid) = ?pad" using Cons.prems by simp
  have get: "get_negotiate_context (put_negotiate_context c @ tail) = Some (c, tail)"
    using Cons.prems by (simp add: negotiate_context.get_put)
  let ?all = "replicate ?pad 0 @ put_negotiate_context c @ tail"
  have "parse_context_loop (length (c # cs)) ?all (if first then 0 else length mid) = Inr (c # cs)"
    using dec get pad Cons.prems by (cases first) (simp_all add: Let_def add.assoc)
  moreover have "encode_context_loop first (c # cs) (pre @ mid) (length pre) = pre @ mid @ ?all"
    using enc by (cases first) (simp_all add: Let_def)
  ultimately show ?case using Cons.prems(2) by (intro exI [of _ ?all]) auto
qed

lemma parse_encoded_contexts:
  assumes "list_all wf_negotiate_context cs" and "unat n = length cs"
  shows "negotiate_context_parse_list (drop (length out) (negotiate_context_encode_list cs out)) n
    = Inr cs"
  using encode_context_loop_out [of cs True "[]" out] assms
  by (auto simp: negotiate_context_parse_list_def negotiate_context_encode_list_def)

text \<open>
  Every list of well-formed negotiate contexts survives encoding and parsing: the alignment
  padding that the encoder inserts between entries is exactly what the parser skips, wherever the
  list starts in the output buffer.
\<close>

theorem negotiate_context_list_roundtrip:
  assumes "list_all wf_negotiate_context cs" and "length cs < 2 ^ 16"
  shows "negotiate_context_parse_list
      (drop (length out) (negotiate_context_encode_list cs out)) (of_nat (length cs)) = Inr cs"
  using assms by (intro parse_encoded_contexts) (simp_all add: unat_of_nat take_bit_eq_mod)

theorem negotiate_context_list_roundtrip_witness:
  "\<exists>cs. length cs = 2 \<and> negotiate_context_parse_list
     (drop (length [9, 9, 9 :: u8]) (negotiate_context_encode_list cs [9, 9, 9])) (of_nat 2) = Inr cs"
proof -
  let ?cs = "[\<lparr>nc_context_type = 1, nc_data_length = 1, nc_reserved = 0, nc_data = [7]\<rparr>,
      \<lparr>nc_context_type = 8, nc_data_length = 2, nc_reserved = 0, nc_data = [0, 1]\<rparr>]"
  have len: "length ?cs = 2" by simp
  have "list_all wf_negotiate_context ?cs" by (simp add: wf_negotiate_context_def)
  moreover have "length ?cs < 2 ^ 16" by simp
  ultimately have "negotiate_context_parse_list
      (drop (length [9, 9, 9 :: u8]) (negotiate_context_encode_list ?cs [9, 9, 9]))
      (of_nat (length ?cs)) = Inr ?cs"
    by (rule negotiate_context_list_roundtrip)
  with len show ?thesis by metis
qed

record preauth_integrity_capabilities =
  pic_hash_algorithm_count :: u16
  pic_salt_length :: u16
  pic_hash_algorithms :: "u16 list"
  pic_salt :: bytes

definition get_preauth_integrity_capabilities :: "bytes \<Rightarrow> (preauth_integrity_capabilities \<times> bytes) option" where
  "get_preauth_integrity_capabilities b = do {
     (hash_algorithm_count, b) \<leftarrow> get16 b;
     (salt_length, b) \<leftarrow> get16 b;
     (hash_algorithms, b) \<leftarrow> get16s (unat hash_algorithm_count) b;
     (salt, b) \<leftarrow> get_bytes (unat salt_length) b;
     Some (\<lparr>pic_hash_algorithm_count = hash_algorithm_count, pic_salt_length = salt_length,
            pic_hash_algorithms = hash_algorithms, pic_salt = salt\<rparr>, b) }"

definition put_preauth_integrity_capabilities :: "preauth_integrity_capabilities \<Rightarrow> bytes" where
  "put_preauth_integrity_capabilities m =
     le16 (pic_hash_algorithm_count m) @ le16 (pic_salt_length m) @
     concat (map le16 (pic_hash_algorithms m)) @ pic_salt m"

definition wf_preauth_integrity_capabilities :: "preauth_integrity_capabilities \<Rightarrow> bool" where
  "wf_preauth_integrity_capabilities m \<longleftrightarrow> length (pic_hash_algorithms m) = (unat (pic_hash_algorithm_count m)) \<and>
     length (pic_salt m) = (unat (pic_salt_length m))"

interpretation preauth_integrity_capabilities: codec get_preauth_integrity_capabilities put_preauth_integrity_capabilities wf_preauth_integrity_capabilities
proof
  fix m r assume "wf_preauth_integrity_capabilities m"
  then show "get_preauth_integrity_capabilities (put_preauth_integrity_capabilities m @ r) = Some (m, r)"
    by (simp add: get_preauth_integrity_capabilities_def put_preauth_integrity_capabilities_def wf_preauth_integrity_capabilities_def wire)
next
  fix b m r assume "get_preauth_integrity_capabilities b = Some (m, r)"
  then show "wf_preauth_integrity_capabilities m" "b = put_preauth_integrity_capabilities m @ r"
    by (auto simp: get_preauth_integrity_capabilities_def put_preauth_integrity_capabilities_def wf_preauth_integrity_capabilities_def Option.bind_eq_Some_conv
        dest!: codec_dests )
qed

record encryption_capabilities =
  enc_cipher_count :: u16
  enc_ciphers :: "u16 list"

definition get_encryption_capabilities :: "bytes \<Rightarrow> (encryption_capabilities \<times> bytes) option" where
  "get_encryption_capabilities b = do {
     (cipher_count, b) \<leftarrow> get16 b;
     (ciphers, b) \<leftarrow> get16s (unat cipher_count) b;
     Some (\<lparr>enc_cipher_count = cipher_count, enc_ciphers = ciphers\<rparr>, b) }"

definition put_encryption_capabilities :: "encryption_capabilities \<Rightarrow> bytes" where
  "put_encryption_capabilities m =
     le16 (enc_cipher_count m) @ concat (map le16 (enc_ciphers m))"

definition wf_encryption_capabilities :: "encryption_capabilities \<Rightarrow> bool" where
  "wf_encryption_capabilities m \<longleftrightarrow> length (enc_ciphers m) = (unat (enc_cipher_count m))"

interpretation encryption_capabilities: codec get_encryption_capabilities put_encryption_capabilities wf_encryption_capabilities
proof
  fix m r assume "wf_encryption_capabilities m"
  then show "get_encryption_capabilities (put_encryption_capabilities m @ r) = Some (m, r)"
    by (simp add: get_encryption_capabilities_def put_encryption_capabilities_def wf_encryption_capabilities_def wire)
next
  fix b m r assume "get_encryption_capabilities b = Some (m, r)"
  then show "wf_encryption_capabilities m" "b = put_encryption_capabilities m @ r"
    by (auto simp: get_encryption_capabilities_def put_encryption_capabilities_def wf_encryption_capabilities_def Option.bind_eq_Some_conv
        dest!: codec_dests )
qed

record signing_capabilities =
  sgc_signing_algorithm_count :: u16
  sgc_signing_algorithms :: "u16 list"

definition get_signing_capabilities :: "bytes \<Rightarrow> (signing_capabilities \<times> bytes) option" where
  "get_signing_capabilities b = do {
     (signing_algorithm_count, b) \<leftarrow> get16 b;
     (signing_algorithms, b) \<leftarrow> get16s (unat signing_algorithm_count) b;
     Some (\<lparr>sgc_signing_algorithm_count = signing_algorithm_count,
            sgc_signing_algorithms = signing_algorithms\<rparr>, b) }"

definition put_signing_capabilities :: "signing_capabilities \<Rightarrow> bytes" where
  "put_signing_capabilities m =
     le16 (sgc_signing_algorithm_count m) @ concat (map le16 (sgc_signing_algorithms m))"

definition wf_signing_capabilities :: "signing_capabilities \<Rightarrow> bool" where
  "wf_signing_capabilities m \<longleftrightarrow> length (sgc_signing_algorithms m) = (unat (sgc_signing_algorithm_count m))"

interpretation signing_capabilities: codec get_signing_capabilities put_signing_capabilities wf_signing_capabilities
proof
  fix m r assume "wf_signing_capabilities m"
  then show "get_signing_capabilities (put_signing_capabilities m @ r) = Some (m, r)"
    by (simp add: get_signing_capabilities_def put_signing_capabilities_def wf_signing_capabilities_def wire)
next
  fix b m r assume "get_signing_capabilities b = Some (m, r)"
  then show "wf_signing_capabilities m" "b = put_signing_capabilities m @ r"
    by (auto simp: get_signing_capabilities_def put_signing_capabilities_def wf_signing_capabilities_def Option.bind_eq_Some_conv
        dest!: codec_dests )
qed

section \<open>Session setup, logoff and tree connections\<close>

record session_setup_request =
  ssq_structure_size :: u16
  ssq_flags :: u8
  ssq_security_mode :: u8
  ssq_capabilities :: u32
  ssq_channel :: u32
  ssq_security_buffer_offset :: u16
  ssq_security_buffer_length :: u16
  ssq_previous_session_id :: u64
  ssq_security_buffer :: bytes

definition get_session_setup_request :: "bytes \<Rightarrow> (session_setup_request \<times> bytes) option" where
  "get_session_setup_request b = do {
     (structure_size, b) \<leftarrow> get16 b;
     (fl, b) \<leftarrow> get8 b;
     (security_mode, b) \<leftarrow> get8 b;
     (capabilities, b) \<leftarrow> get32 b;
     (channel, b) \<leftarrow> get32 b;
     (security_buffer_offset, b) \<leftarrow> get16 b;
     (security_buffer_length, b) \<leftarrow> get16 b;
     (previous_session_id, b) \<leftarrow> get64 b;
     (security_buffer, b) \<leftarrow> get_bytes (unat security_buffer_length) b;
     Some (\<lparr>ssq_structure_size = structure_size, ssq_flags = fl,
            ssq_security_mode = security_mode, ssq_capabilities = capabilities, ssq_channel = channel,
            ssq_security_buffer_offset = security_buffer_offset,
            ssq_security_buffer_length = security_buffer_length,
            ssq_previous_session_id = previous_session_id,
            ssq_security_buffer = security_buffer\<rparr>, b) }"

definition put_session_setup_request :: "session_setup_request \<Rightarrow> bytes" where
  "put_session_setup_request m =
     le16 (ssq_structure_size m) @ [ssq_flags m] @ [ssq_security_mode m] @
     le32 (ssq_capabilities m) @ le32 (ssq_channel m) @ le16 (ssq_security_buffer_offset m) @
     le16 (ssq_security_buffer_length m) @ le64 (ssq_previous_session_id m) @
     ssq_security_buffer m"

definition wf_session_setup_request :: "session_setup_request \<Rightarrow> bool" where
  "wf_session_setup_request m \<longleftrightarrow> length (ssq_security_buffer m) = (unat (ssq_security_buffer_length m))"

interpretation session_setup_request: codec get_session_setup_request put_session_setup_request wf_session_setup_request
proof
  fix m r assume "wf_session_setup_request m"
  then show "get_session_setup_request (put_session_setup_request m @ r) = Some (m, r)"
    by (simp add: get_session_setup_request_def put_session_setup_request_def wf_session_setup_request_def wire)
next
  fix b m r assume "get_session_setup_request b = Some (m, r)"
  then show "wf_session_setup_request m" "b = put_session_setup_request m @ r"
    by (auto simp: get_session_setup_request_def put_session_setup_request_def wf_session_setup_request_def Option.bind_eq_Some_conv
        dest!: codec_dests )
qed

definition session_setup_request_parse :: "bytes \<Rightarrow> session_setup_request option" where
  "session_setup_request_parse = parse_with get_session_setup_request"

record session_setup_response =
  ssr_structure_size :: u16
  ssr_session_flags :: u16
  ssr_security_buffer_offset :: u16
  ssr_security_buffer_length :: u16
  ssr_security_buffer :: bytes

definition get_session_setup_response :: "bytes \<Rightarrow> (session_setup_response \<times> bytes) option" where
  "get_session_setup_response b = do {
     (structure_size, b) \<leftarrow> get16 b;
     (session_flags, b) \<leftarrow> get16 b;
     (security_buffer_offset, b) \<leftarrow> get16 b;
     (security_buffer_length, b) \<leftarrow> get16 b;
     (security_buffer, b) \<leftarrow> get_bytes (unat security_buffer_length) b;
     Some (\<lparr>ssr_structure_size = structure_size, ssr_session_flags = session_flags,
            ssr_security_buffer_offset = security_buffer_offset,
            ssr_security_buffer_length = security_buffer_length,
            ssr_security_buffer = security_buffer\<rparr>, b) }"

definition put_session_setup_response :: "session_setup_response \<Rightarrow> bytes" where
  "put_session_setup_response m =
     le16 (ssr_structure_size m) @ le16 (ssr_session_flags m) @
     le16 (ssr_security_buffer_offset m) @ le16 (ssr_security_buffer_length m) @
     ssr_security_buffer m"

definition wf_session_setup_response :: "session_setup_response \<Rightarrow> bool" where
  "wf_session_setup_response m \<longleftrightarrow> length (ssr_security_buffer m) = (unat (ssr_security_buffer_length m))"

interpretation session_setup_response: codec get_session_setup_response put_session_setup_response wf_session_setup_response
proof
  fix m r assume "wf_session_setup_response m"
  then show "get_session_setup_response (put_session_setup_response m @ r) = Some (m, r)"
    by (simp add: get_session_setup_response_def put_session_setup_response_def wf_session_setup_response_def wire)
next
  fix b m r assume "get_session_setup_response b = Some (m, r)"
  then show "wf_session_setup_response m" "b = put_session_setup_response m @ r"
    by (auto simp: get_session_setup_response_def put_session_setup_response_def wf_session_setup_response_def Option.bind_eq_Some_conv
        dest!: codec_dests )
qed

definition session_setup_response_parse :: "bytes \<Rightarrow> session_setup_response option" where
  "session_setup_response_parse = parse_with get_session_setup_response"

record logoff_request =
  lgq_structure_size :: u16
  lgq_reserved :: u16

definition get_logoff_request :: "bytes \<Rightarrow> (logoff_request \<times> bytes) option" where
  "get_logoff_request b = do {
     (structure_size, b) \<leftarrow> get16 b;
     (reserved, b) \<leftarrow> get16 b;
     Some (\<lparr>lgq_structure_size = structure_size, lgq_reserved = reserved\<rparr>, b) }"

definition put_logoff_request :: "logoff_request \<Rightarrow> bytes" where
  "put_logoff_request m =
     le16 (lgq_structure_size m) @ le16 (lgq_reserved m)"

definition wf_logoff_request :: "logoff_request \<Rightarrow> bool" where
  "wf_logoff_request m \<longleftrightarrow> True"

interpretation logoff_request: codec get_logoff_request put_logoff_request wf_logoff_request
proof
  fix m r assume "wf_logoff_request m"
  then show "get_logoff_request (put_logoff_request m @ r) = Some (m, r)"
    by (simp add: get_logoff_request_def put_logoff_request_def wf_logoff_request_def wire)
next
  fix b m r assume "get_logoff_request b = Some (m, r)"
  then show "wf_logoff_request m" "b = put_logoff_request m @ r"
    by (auto simp: get_logoff_request_def put_logoff_request_def wf_logoff_request_def Option.bind_eq_Some_conv
        dest!: codec_dests )
qed

definition logoff_request_parse :: "bytes \<Rightarrow> logoff_request option" where
  "logoff_request_parse = parse_with get_logoff_request"

record logoff_response =
  lgr_structure_size :: u16
  lgr_reserved :: u16

definition get_logoff_response :: "bytes \<Rightarrow> (logoff_response \<times> bytes) option" where
  "get_logoff_response b = do {
     (structure_size, b) \<leftarrow> get16 b;
     (reserved, b) \<leftarrow> get16 b;
     Some (\<lparr>lgr_structure_size = structure_size, lgr_reserved = reserved\<rparr>, b) }"

definition put_logoff_response :: "logoff_response \<Rightarrow> bytes" where
  "put_logoff_response m =
     le16 (lgr_structure_size m) @ le16 (lgr_reserved m)"

definition wf_logoff_response :: "logoff_response \<Rightarrow> bool" where
  "wf_logoff_response m \<longleftrightarrow> True"

interpretation logoff_response: codec get_logoff_response put_logoff_response wf_logoff_response
proof
  fix m r assume "wf_logoff_response m"
  then show "get_logoff_response (put_logoff_response m @ r) = Some (m, r)"
    by (simp add: get_logoff_response_def put_logoff_response_def wf_logoff_response_def wire)
next
  fix b m r assume "get_logoff_response b = Some (m, r)"
  then show "wf_logoff_response m" "b = put_logoff_response m @ r"
    by (auto simp: get_logoff_response_def put_logoff_response_def wf_logoff_response_def Option.bind_eq_Some_conv
        dest!: codec_dests )
qed

definition logoff_response_parse :: "bytes \<Rightarrow> logoff_response option" where
  "logoff_response_parse = parse_with get_logoff_response"

definition logoff_response_default :: logoff_response where
  "logoff_response_default = \<lparr>lgr_structure_size = 4, lgr_reserved = 0\<rparr>"

record tree_connect_request =
  tcq_structure_size :: u16
  tcq_flags :: u16
  tcq_path_offset :: u16
  tcq_path_length :: u16
  tcq_path :: bytes

definition get_tree_connect_request :: "bytes \<Rightarrow> (tree_connect_request \<times> bytes) option" where
  "get_tree_connect_request b = do {
     (structure_size, b) \<leftarrow> get16 b;
     (fl, b) \<leftarrow> get16 b;
     (path_offset, b) \<leftarrow> get16 b;
     (path_length, b) \<leftarrow> get16 b;
     (path, b) \<leftarrow> get_bytes (unat path_length) b;
     Some (\<lparr>tcq_structure_size = structure_size, tcq_flags = fl, tcq_path_offset = path_offset,
            tcq_path_length = path_length, tcq_path = path\<rparr>, b) }"

definition put_tree_connect_request :: "tree_connect_request \<Rightarrow> bytes" where
  "put_tree_connect_request m =
     le16 (tcq_structure_size m) @ le16 (tcq_flags m) @ le16 (tcq_path_offset m) @
     le16 (tcq_path_length m) @ tcq_path m"

definition wf_tree_connect_request :: "tree_connect_request \<Rightarrow> bool" where
  "wf_tree_connect_request m \<longleftrightarrow> length (tcq_path m) = (unat (tcq_path_length m))"

interpretation tree_connect_request: codec get_tree_connect_request put_tree_connect_request wf_tree_connect_request
proof
  fix m r assume "wf_tree_connect_request m"
  then show "get_tree_connect_request (put_tree_connect_request m @ r) = Some (m, r)"
    by (simp add: get_tree_connect_request_def put_tree_connect_request_def wf_tree_connect_request_def wire)
next
  fix b m r assume "get_tree_connect_request b = Some (m, r)"
  then show "wf_tree_connect_request m" "b = put_tree_connect_request m @ r"
    by (auto simp: get_tree_connect_request_def put_tree_connect_request_def wf_tree_connect_request_def Option.bind_eq_Some_conv
        dest!: codec_dests )
qed

definition tree_connect_request_parse :: "bytes \<Rightarrow> tree_connect_request option" where
  "tree_connect_request_parse = parse_with get_tree_connect_request"

record tree_connect_response =
  tcr_structure_size :: u16
  tcr_share_type :: u8
  tcr_reserved :: u8
  tcr_share_flags :: u32
  tcr_capabilities :: u32
  tcr_maximal_access :: u32

definition get_tree_connect_response :: "bytes \<Rightarrow> (tree_connect_response \<times> bytes) option" where
  "get_tree_connect_response b = do {
     (structure_size, b) \<leftarrow> get16 b;
     (share_type, b) \<leftarrow> get8 b;
     (reserved, b) \<leftarrow> get8 b;
     (share_flags, b) \<leftarrow> get32 b;
     (capabilities, b) \<leftarrow> get32 b;
     (maximal_access, b) \<leftarrow> get32 b;
     Some (\<lparr>tcr_structure_size = structure_size, tcr_share_type = share_type,
            tcr_reserved = reserved, tcr_share_flags = share_flags, tcr_capabilities = capabilities,
            tcr_maximal_access = maximal_access\<rparr>, b) }"

definition put_tree_connect_response :: "tree_connect_response \<Rightarrow> bytes" where
  "put_tree_connect_response m =
     le16 (tcr_structure_size m) @ [tcr_share_type m] @ [tcr_reserved m] @
     le32 (tcr_share_flags m) @ le32 (tcr_capabilities m) @ le32 (tcr_maximal_access m)"

definition wf_tree_connect_response :: "tree_connect_response \<Rightarrow> bool" where
  "wf_tree_connect_response m \<longleftrightarrow> True"

interpretation tree_connect_response: codec get_tree_connect_response put_tree_connect_response wf_tree_connect_response
proof
  fix m r assume "wf_tree_connect_response m"
  then show "get_tree_connect_response (put_tree_connect_response m @ r) = Some (m, r)"
    by (simp add: get_tree_connect_response_def put_tree_connect_response_def wf_tree_connect_response_def wire)
next
  fix b m r assume "get_tree_connect_response b = Some (m, r)"
  then show "wf_tree_connect_response m" "b = put_tree_connect_response m @ r"
    by (auto simp: get_tree_connect_response_def put_tree_connect_response_def wf_tree_connect_response_def Option.bind_eq_Some_conv
        dest!: codec_dests )
qed

definition tree_connect_response_parse :: "bytes \<Rightarrow> tree_connect_response option" where
  "tree_connect_response_parse = parse_with get_tree_connect_response"

definition SHARE_TYPE_DISK :: u8 where "SHARE_TYPE_DISK = 0x01"

text \<open>\<open>TreeConnectRequest::path_str\<close>: an odd number of bytes is refused.\<close>

definition tree_connect_path_str :: "tree_connect_request \<Rightarrow> rstring option" where
  "tree_connect_path_str m =
     (if odd (length (tcq_path m)) then None
      else Some (from_utf16_lossy (units_of (tcq_path m))))"

record tree_disconnect_request =
  tdq_structure_size :: u16
  tdq_reserved :: u16

definition get_tree_disconnect_request :: "bytes \<Rightarrow> (tree_disconnect_request \<times> bytes) option" where
  "get_tree_disconnect_request b = do {
     (structure_size, b) \<leftarrow> get16 b;
     (reserved, b) \<leftarrow> get16 b;
     Some (\<lparr>tdq_structure_size = structure_size, tdq_reserved = reserved\<rparr>, b) }"

definition put_tree_disconnect_request :: "tree_disconnect_request \<Rightarrow> bytes" where
  "put_tree_disconnect_request m =
     le16 (tdq_structure_size m) @ le16 (tdq_reserved m)"

definition wf_tree_disconnect_request :: "tree_disconnect_request \<Rightarrow> bool" where
  "wf_tree_disconnect_request m \<longleftrightarrow> True"

interpretation tree_disconnect_request: codec get_tree_disconnect_request put_tree_disconnect_request wf_tree_disconnect_request
proof
  fix m r assume "wf_tree_disconnect_request m"
  then show "get_tree_disconnect_request (put_tree_disconnect_request m @ r) = Some (m, r)"
    by (simp add: get_tree_disconnect_request_def put_tree_disconnect_request_def wf_tree_disconnect_request_def wire)
next
  fix b m r assume "get_tree_disconnect_request b = Some (m, r)"
  then show "wf_tree_disconnect_request m" "b = put_tree_disconnect_request m @ r"
    by (auto simp: get_tree_disconnect_request_def put_tree_disconnect_request_def wf_tree_disconnect_request_def Option.bind_eq_Some_conv
        dest!: codec_dests )
qed

definition tree_disconnect_request_parse :: "bytes \<Rightarrow> tree_disconnect_request option" where
  "tree_disconnect_request_parse = parse_with get_tree_disconnect_request"

record tree_disconnect_response =
  tdr_structure_size :: u16
  tdr_reserved :: u16

definition get_tree_disconnect_response :: "bytes \<Rightarrow> (tree_disconnect_response \<times> bytes) option" where
  "get_tree_disconnect_response b = do {
     (structure_size, b) \<leftarrow> get16 b;
     (reserved, b) \<leftarrow> get16 b;
     Some (\<lparr>tdr_structure_size = structure_size, tdr_reserved = reserved\<rparr>, b) }"

definition put_tree_disconnect_response :: "tree_disconnect_response \<Rightarrow> bytes" where
  "put_tree_disconnect_response m =
     le16 (tdr_structure_size m) @ le16 (tdr_reserved m)"

definition wf_tree_disconnect_response :: "tree_disconnect_response \<Rightarrow> bool" where
  "wf_tree_disconnect_response m \<longleftrightarrow> True"

interpretation tree_disconnect_response: codec get_tree_disconnect_response put_tree_disconnect_response wf_tree_disconnect_response
proof
  fix m r assume "wf_tree_disconnect_response m"
  then show "get_tree_disconnect_response (put_tree_disconnect_response m @ r) = Some (m, r)"
    by (simp add: get_tree_disconnect_response_def put_tree_disconnect_response_def wf_tree_disconnect_response_def wire)
next
  fix b m r assume "get_tree_disconnect_response b = Some (m, r)"
  then show "wf_tree_disconnect_response m" "b = put_tree_disconnect_response m @ r"
    by (auto simp: get_tree_disconnect_response_def put_tree_disconnect_response_def wf_tree_disconnect_response_def Option.bind_eq_Some_conv
        dest!: codec_dests )
qed

definition tree_disconnect_response_parse :: "bytes \<Rightarrow> tree_disconnect_response option" where
  "tree_disconnect_response_parse = parse_with get_tree_disconnect_response"

definition tree_disconnect_response_default :: tree_disconnect_response where
  "tree_disconnect_response_default = \<lparr>tdr_structure_size = 4, tdr_reserved = 0\<rparr>"

section \<open>Echo, cancel and the error response\<close>

record echo_request =
  ecq_structure_size :: u16
  ecq_reserved :: u16

definition get_echo_request :: "bytes \<Rightarrow> (echo_request \<times> bytes) option" where
  "get_echo_request b = do {
     (structure_size, b) \<leftarrow> get16 b;
     (reserved, b) \<leftarrow> get16 b;
     Some (\<lparr>ecq_structure_size = structure_size, ecq_reserved = reserved\<rparr>, b) }"

definition put_echo_request :: "echo_request \<Rightarrow> bytes" where
  "put_echo_request m =
     le16 (ecq_structure_size m) @ le16 (ecq_reserved m)"

definition wf_echo_request :: "echo_request \<Rightarrow> bool" where
  "wf_echo_request m \<longleftrightarrow> True"

interpretation echo_request: codec get_echo_request put_echo_request wf_echo_request
proof
  fix m r assume "wf_echo_request m"
  then show "get_echo_request (put_echo_request m @ r) = Some (m, r)"
    by (simp add: get_echo_request_def put_echo_request_def wf_echo_request_def wire)
next
  fix b m r assume "get_echo_request b = Some (m, r)"
  then show "wf_echo_request m" "b = put_echo_request m @ r"
    by (auto simp: get_echo_request_def put_echo_request_def wf_echo_request_def Option.bind_eq_Some_conv
        dest!: codec_dests )
qed

definition echo_request_parse :: "bytes \<Rightarrow> echo_request option" where
  "echo_request_parse = parse_with get_echo_request"

record echo_response =
  ecr_structure_size :: u16
  ecr_reserved :: u16

definition get_echo_response :: "bytes \<Rightarrow> (echo_response \<times> bytes) option" where
  "get_echo_response b = do {
     (structure_size, b) \<leftarrow> get16 b;
     (reserved, b) \<leftarrow> get16 b;
     Some (\<lparr>ecr_structure_size = structure_size, ecr_reserved = reserved\<rparr>, b) }"

definition put_echo_response :: "echo_response \<Rightarrow> bytes" where
  "put_echo_response m =
     le16 (ecr_structure_size m) @ le16 (ecr_reserved m)"

definition wf_echo_response :: "echo_response \<Rightarrow> bool" where
  "wf_echo_response m \<longleftrightarrow> True"

interpretation echo_response: codec get_echo_response put_echo_response wf_echo_response
proof
  fix m r assume "wf_echo_response m"
  then show "get_echo_response (put_echo_response m @ r) = Some (m, r)"
    by (simp add: get_echo_response_def put_echo_response_def wf_echo_response_def wire)
next
  fix b m r assume "get_echo_response b = Some (m, r)"
  then show "wf_echo_response m" "b = put_echo_response m @ r"
    by (auto simp: get_echo_response_def put_echo_response_def wf_echo_response_def Option.bind_eq_Some_conv
        dest!: codec_dests )
qed

definition echo_response_parse :: "bytes \<Rightarrow> echo_response option" where
  "echo_response_parse = parse_with get_echo_response"

definition echo_response_default :: echo_response where
  "echo_response_default = \<lparr>ecr_structure_size = 4, ecr_reserved = 0\<rparr>"

record cancel_request =
  can_structure_size :: u16
  can_reserved :: u16

definition get_cancel_request :: "bytes \<Rightarrow> (cancel_request \<times> bytes) option" where
  "get_cancel_request b = do {
     (structure_size, b) \<leftarrow> get16 b;
     (reserved, b) \<leftarrow> get16 b;
     Some (\<lparr>can_structure_size = structure_size, can_reserved = reserved\<rparr>, b) }"

definition put_cancel_request :: "cancel_request \<Rightarrow> bytes" where
  "put_cancel_request m =
     le16 (can_structure_size m) @ le16 (can_reserved m)"

definition wf_cancel_request :: "cancel_request \<Rightarrow> bool" where
  "wf_cancel_request m \<longleftrightarrow> True"

interpretation cancel_request: codec get_cancel_request put_cancel_request wf_cancel_request
proof
  fix m r assume "wf_cancel_request m"
  then show "get_cancel_request (put_cancel_request m @ r) = Some (m, r)"
    by (simp add: get_cancel_request_def put_cancel_request_def wf_cancel_request_def wire)
next
  fix b m r assume "get_cancel_request b = Some (m, r)"
  then show "wf_cancel_request m" "b = put_cancel_request m @ r"
    by (auto simp: get_cancel_request_def put_cancel_request_def wf_cancel_request_def Option.bind_eq_Some_conv
        dest!: codec_dests )
qed

definition cancel_request_parse :: "bytes \<Rightarrow> cancel_request option" where
  "cancel_request_parse = parse_with get_cancel_request"

record error_response =
  err_structure_size :: u16
  err_error_context_count :: u8
  err_reserved :: u8
  err_byte_count :: u32
  err_error_data :: bytes

definition get_error_response :: "bytes \<Rightarrow> (error_response \<times> bytes) option" where
  "get_error_response b = do {
     (structure_size, b) \<leftarrow> get16 b;
     (error_context_count, b) \<leftarrow> get8 b;
     (reserved, b) \<leftarrow> get8 b;
     (byte_count, b) \<leftarrow> get32 b;
     (error_data, b) \<leftarrow> get_bytes (if byte_count = 0 then 1 else unat byte_count) b;
     Some (\<lparr>err_structure_size = structure_size, err_error_context_count = error_context_count,
            err_reserved = reserved, err_byte_count = byte_count,
            err_error_data = error_data\<rparr>, b) }"

definition put_error_response :: "error_response \<Rightarrow> bytes" where
  "put_error_response m =
     le16 (err_structure_size m) @ [err_error_context_count m] @ [err_reserved m] @
     le32 (err_byte_count m) @ err_error_data m"

definition wf_error_response :: "error_response \<Rightarrow> bool" where
  "wf_error_response m \<longleftrightarrow> length (err_error_data m) = (if err_byte_count m = 0 then 1 else unat (err_byte_count m))"

interpretation error_response: codec get_error_response put_error_response wf_error_response
proof
  fix m r assume "wf_error_response m"
  then show "get_error_response (put_error_response m @ r) = Some (m, r)"
    by (simp add: get_error_response_def put_error_response_def wf_error_response_def wire)
next
  fix b m r assume "get_error_response b = Some (m, r)"
  then show "wf_error_response m" "b = put_error_response m @ r"
    by (auto simp: get_error_response_def put_error_response_def wf_error_response_def Option.bind_eq_Some_conv
        dest!: codec_dests )
qed

definition error_response_parse :: "bytes \<Rightarrow> error_response option" where
  "error_response_parse = parse_with get_error_response"

record error_context =
  ectx_error_data_length :: u32
  ectx_error_id :: u32
  ectx_error_context_data :: bytes

definition get_error_context :: "bytes \<Rightarrow> (error_context \<times> bytes) option" where
  "get_error_context b = do {
     (error_data_length, b) \<leftarrow> get32 b;
     (error_id, b) \<leftarrow> get32 b;
     (error_context_data, b) \<leftarrow> get_bytes (unat error_data_length) b;
     Some (\<lparr>ectx_error_data_length = error_data_length, ectx_error_id = error_id,
            ectx_error_context_data = error_context_data\<rparr>, b) }"

definition put_error_context :: "error_context \<Rightarrow> bytes" where
  "put_error_context m =
     le32 (ectx_error_data_length m) @ le32 (ectx_error_id m) @ ectx_error_context_data m"

definition wf_error_context :: "error_context \<Rightarrow> bool" where
  "wf_error_context m \<longleftrightarrow> length (ectx_error_context_data m) = (unat (ectx_error_data_length m))"

interpretation error_context: codec get_error_context put_error_context wf_error_context
proof
  fix m r assume "wf_error_context m"
  then show "get_error_context (put_error_context m @ r) = Some (m, r)"
    by (simp add: get_error_context_def put_error_context_def wf_error_context_def wire)
next
  fix b m r assume "get_error_context b = Some (m, r)"
  then show "wf_error_context m" "b = put_error_context m @ r"
    by (auto simp: get_error_context_def put_error_context_def wf_error_context_def Option.bind_eq_Some_conv
        dest!: codec_dests )
qed

definition error_response_status :: "u32 \<Rightarrow> error_response" where
  "error_response_status ntstatus =
     \<lparr>err_structure_size = 9, err_error_context_count = 0, err_reserved = 0, err_byte_count = 0,
      err_error_data = [0]\<rparr>"

lemma wf_error_response_status [simp]: "wf_error_response (error_response_status s)"
  by (simp add: wf_error_response_def error_response_status_def)

end
