(* ===== verification/Messages_File.thy ===== *)
theory Messages_File
  imports Text Codec
begin

text \<open>
  Messages about open files: \<open>create.rs\<close> with its create-context chains, \<open>close.rs\<close>,
  \<open>flush.rs\<close>, \<open>read.rs\<close>, \<open>write.rs\<close>, \<open>lock.rs\<close> and \<open>oplock_break.rs\<close> of
  \<open>src/src/proto/messages\<close>, in the same form as the messages of a session.
\<close>

section \<open>Create\<close>

record file_id =
  fid_persistent :: u64
  fid_volatile :: u64

definition get_file_id :: "bytes \<Rightarrow> (file_id \<times> bytes) option" where
  "get_file_id b = do {
     (persistent, b) \<leftarrow> get64 b;
     (volatile, b) \<leftarrow> get64 b;
     Some (\<lparr>fid_persistent = persistent, fid_volatile = volatile\<rparr>, b) }"

definition put_file_id :: "file_id \<Rightarrow> bytes" where
  "put_file_id m =
     le64 (fid_persistent m) @ le64 (fid_volatile m)"

definition wf_file_id :: "file_id \<Rightarrow> bool" where
  "wf_file_id m \<longleftrightarrow> True"

interpretation file_id: codec get_file_id put_file_id wf_file_id
proof
  fix m r assume "wf_file_id m"
  then show "get_file_id (put_file_id m @ r) = Some (m, r)"
    by (simp add: get_file_id_def put_file_id_def wf_file_id_def wire)
next
  fix b m r assume "get_file_id b = Some (m, r)"
  then show "wf_file_id m" "b = put_file_id m @ r"
    by (auto simp: get_file_id_def put_file_id_def wf_file_id_def Option.bind_eq_Some_conv
        dest!: codec_dests )
qed

definition file_id_any :: file_id where
  "file_id_any = \<lparr>fid_persistent = - 1, fid_volatile = - 1\<rparr>"

record create_request =
  crq_structure_size :: u16
  crq_security_flags :: u8
  crq_requested_oplock_level :: u8
  crq_impersonation_level :: u32
  crq_smb_create_flags :: u64
  crq_reserved :: u64
  crq_desired_access :: u32
  crq_file_attributes :: u32
  crq_share_access :: u32
  crq_create_disposition :: u32
  crq_create_options :: u32
  crq_name_offset :: u16
  crq_name_length :: u16
  crq_create_contexts_offset :: u32
  crq_create_contexts_length :: u32
  crq_name :: bytes
  crq_create_contexts :: bytes

definition get_create_request :: "bytes \<Rightarrow> (create_request \<times> bytes) option" where
  "get_create_request b = do {
     (structure_size, b) \<leftarrow> get16 b;
     (security_flags, b) \<leftarrow> get8 b;
     (requested_oplock_level, b) \<leftarrow> get8 b;
     (impersonation_level, b) \<leftarrow> get32 b;
     (smb_create_flags, b) \<leftarrow> get64 b;
     (reserved, b) \<leftarrow> get64 b;
     (desired_access, b) \<leftarrow> get32 b;
     (file_attributes, b) \<leftarrow> get32 b;
     (share_access, b) \<leftarrow> get32 b;
     (create_disposition, b) \<leftarrow> get32 b;
     (create_options, b) \<leftarrow> get32 b;
     (name_offset, b) \<leftarrow> get16 b;
     (name_length, b) \<leftarrow> get16 b;
     (create_contexts_offset, b) \<leftarrow> get32 b;
     (create_contexts_length, b) \<leftarrow> get32 b;
     (nm, b) \<leftarrow> get_bytes (unat name_length) b;
     (create_contexts, b) \<leftarrow> get_bytes (unat create_contexts_length) b;
     Some (\<lparr>crq_structure_size = structure_size, crq_security_flags = security_flags,
            crq_requested_oplock_level = requested_oplock_level,
            crq_impersonation_level = impersonation_level, crq_smb_create_flags = smb_create_flags,
            crq_reserved = reserved, crq_desired_access = desired_access,
            crq_file_attributes = file_attributes, crq_share_access = share_access,
            crq_create_disposition = create_disposition, crq_create_options = create_options,
            crq_name_offset = name_offset, crq_name_length = name_length,
            crq_create_contexts_offset = create_contexts_offset,
            crq_create_contexts_length = create_contexts_length, crq_name = nm,
            crq_create_contexts = create_contexts\<rparr>, b) }"

definition put_create_request :: "create_request \<Rightarrow> bytes" where
  "put_create_request m =
     le16 (crq_structure_size m) @ [crq_security_flags m] @ [crq_requested_oplock_level m] @
     le32 (crq_impersonation_level m) @ le64 (crq_smb_create_flags m) @ le64 (crq_reserved m) @
     le32 (crq_desired_access m) @ le32 (crq_file_attributes m) @ le32 (crq_share_access m) @
     le32 (crq_create_disposition m) @ le32 (crq_create_options m) @ le16 (crq_name_offset m) @
     le16 (crq_name_length m) @ le32 (crq_create_contexts_offset m) @
     le32 (crq_create_contexts_length m) @ crq_name m @ crq_create_contexts m"

definition wf_create_request :: "create_request \<Rightarrow> bool" where
  "wf_create_request m \<longleftrightarrow> length (crq_name m) = (unat (crq_name_length m)) \<and>
     length (crq_create_contexts m) = (unat (crq_create_contexts_length m))"

interpretation create_request: codec get_create_request put_create_request wf_create_request
proof
  fix m r assume "wf_create_request m"
  then show "get_create_request (put_create_request m @ r) = Some (m, r)"
    by (simp add: get_create_request_def put_create_request_def wf_create_request_def wire)
next
  fix b m r assume "get_create_request b = Some (m, r)"
  then show "wf_create_request m" "b = put_create_request m @ r"
    by (auto simp: get_create_request_def put_create_request_def wf_create_request_def Option.bind_eq_Some_conv
        dest!: codec_dests )
qed

definition create_request_parse :: "bytes \<Rightarrow> create_request option" where
  "create_request_parse = parse_with get_create_request"

record create_response =
  crr_structure_size :: u16
  crr_oplock_level :: u8
  crr_flags :: u8
  crr_create_action :: u32
  crr_creation_time :: u64
  crr_last_access_time :: u64
  crr_last_write_time :: u64
  crr_change_time :: u64
  crr_allocation_size :: u64
  crr_end_of_file :: u64
  crr_file_attributes :: u32
  crr_reserved2 :: u32
  crr_file_id :: file_id
  crr_create_contexts_offset :: u32
  crr_create_contexts_length :: u32
  crr_create_contexts :: bytes

definition get_create_response :: "bytes \<Rightarrow> (create_response \<times> bytes) option" where
  "get_create_response b = do {
     (structure_size, b) \<leftarrow> get16 b;
     (oplock_level, b) \<leftarrow> get8 b;
     (fl, b) \<leftarrow> get8 b;
     (create_action, b) \<leftarrow> get32 b;
     (creation_time, b) \<leftarrow> get64 b;
     (last_access_time, b) \<leftarrow> get64 b;
     (last_write_time, b) \<leftarrow> get64 b;
     (change_time, b) \<leftarrow> get64 b;
     (allocation_size, b) \<leftarrow> get64 b;
     (end_of_file, b) \<leftarrow> get64 b;
     (file_attributes, b) \<leftarrow> get32 b;
     (reserved2, b) \<leftarrow> get32 b;
     (file_id, b) \<leftarrow> get_file_id b;
     (create_contexts_offset, b) \<leftarrow> get32 b;
     (create_contexts_length, b) \<leftarrow> get32 b;
     (create_contexts, b) \<leftarrow> get_bytes (unat create_contexts_length) b;
     Some (\<lparr>crr_structure_size = structure_size, crr_oplock_level = oplock_level, crr_flags = fl,
            crr_create_action = create_action, crr_creation_time = creation_time,
            crr_last_access_time = last_access_time, crr_last_write_time = last_write_time,
            crr_change_time = change_time, crr_allocation_size = allocation_size,
            crr_end_of_file = end_of_file, crr_file_attributes = file_attributes,
            crr_reserved2 = reserved2, crr_file_id = file_id,
            crr_create_contexts_offset = create_contexts_offset,
            crr_create_contexts_length = create_contexts_length,
            crr_create_contexts = create_contexts\<rparr>, b) }"

definition put_create_response :: "create_response \<Rightarrow> bytes" where
  "put_create_response m =
     le16 (crr_structure_size m) @ [crr_oplock_level m] @ [crr_flags m] @
     le32 (crr_create_action m) @ le64 (crr_creation_time m) @ le64 (crr_last_access_time m) @
     le64 (crr_last_write_time m) @ le64 (crr_change_time m) @ le64 (crr_allocation_size m) @
     le64 (crr_end_of_file m) @ le32 (crr_file_attributes m) @ le32 (crr_reserved2 m) @
     put_file_id (crr_file_id m) @ le32 (crr_create_contexts_offset m) @
     le32 (crr_create_contexts_length m) @ crr_create_contexts m"

definition wf_create_response :: "create_response \<Rightarrow> bool" where
  "wf_create_response m \<longleftrightarrow> length (crr_create_contexts m) = (unat (crr_create_contexts_length m))"

interpretation create_response: codec get_create_response put_create_response wf_create_response
proof
  fix m r assume "wf_create_response m"
  then show "get_create_response (put_create_response m @ r) = Some (m, r)"
    by (simp add: get_create_response_def put_create_response_def wf_create_response_def wire file_id.get_put wf_file_id_def)
next
  fix b m r assume "get_create_response b = Some (m, r)"
  then show "wf_create_response m" "b = put_create_response m @ r"
    by (auto simp: get_create_response_def put_create_response_def wf_create_response_def Option.bind_eq_Some_conv
        dest!: codec_dests file_id.get_canonical )
qed

definition create_response_parse :: "bytes \<Rightarrow> create_response option" where
  "create_response_parse = parse_with get_create_response"

definition create_name_str :: "create_request \<Rightarrow> rstring option" where
  "create_name_str m =
     (if odd (length (crq_name m)) then None
      else Some (from_utf16_lossy (units_of (crq_name m))))"

section \<open>Oplock and impersonation levels\<close>

datatype oplock_level = OplockNone | OplockII | OplockExclusive | OplockBatch | OplockLease

text \<open>The discriminants of the \<open>repr(u8)\<close> enum, and \<open>OplockLevel::from_u8\<close>.\<close>

fun oplock_byte :: "oplock_level \<Rightarrow> u8" where
  "oplock_byte OplockNone = 0"
| "oplock_byte OplockII = 1"
| "oplock_byte OplockExclusive = 8"
| "oplock_byte OplockBatch = 9"
| "oplock_byte OplockLease = 0xFF"

definition oplock_from_u8 :: "u8 \<Rightarrow> oplock_level option" where
  "oplock_from_u8 v =
     (if v = 0 then Some OplockNone
      else if v = 1 then Some OplockII
      else if v = 8 then Some OplockExclusive
      else if v = 9 then Some OplockBatch
      else if v = 0xFF then Some OplockLease
      else None)"

lemma oplock_from_u8_iff: "oplock_from_u8 v = Some l \<longleftrightarrow> v = oplock_byte l"
  by (cases l) (auto simp: oplock_from_u8_def)

datatype impersonation_level =
    LevelAnonymous | LevelIdentification | LevelImpersonation | LevelDelegate

fun impersonation_code :: "impersonation_level \<Rightarrow> u32" where
  "impersonation_code LevelAnonymous = 0"
| "impersonation_code LevelIdentification = 1"
| "impersonation_code LevelImpersonation = 2"
| "impersonation_code LevelDelegate = 3"

section \<open>Create contexts\<close>

record create_context =
  ctx_name :: bytes
  ctx_data :: bytes

definition NAME_EXTA :: bytes where "NAME_EXTA = map of_char ''ExtA''"
definition NAME_SECD :: bytes where "NAME_SECD = map of_char ''SecD''"
definition NAME_DHNQ :: bytes where "NAME_DHNQ = map of_char ''DHnQ''"
definition NAME_DHNC :: bytes where "NAME_DHNC = map of_char ''DHnC''"
definition NAME_ALSI :: bytes where "NAME_ALSI = map of_char ''AlSi''"
definition NAME_TWRP :: bytes where "NAME_TWRP = map of_char ''TWrp''"
definition NAME_RQLS :: bytes where "NAME_RQLS = map of_char ''RqLs''"
definition NAME_DH2Q :: bytes where "NAME_DH2Q = map of_char ''DH2Q''"
definition NAME_DH2C :: bytes where "NAME_DH2C = map of_char ''DH2C''"
definition NAME_MXAC :: bytes where "NAME_MXAC = map of_char ''MxAc''"
definition NAME_QFID :: bytes where "NAME_QFID = map of_char ''QFid''"
definition NAME_AAPL :: bytes where "NAME_AAPL = map of_char ''AAPL''"

text \<open>
  \<open>CreateContext::parse_chain\<close>: the walk along the \<open>Next\<close> offsets. The offset grows with every
  step and stays inside the chain, so the loop ends and the \<open>checked_add\<close> of 64-bit offsets
  cannot overflow.
\<close>

function parse_chain_from :: "bytes \<Rightarrow> nat \<Rightarrow> proto_error + create_context list" where
  "parse_chain_from chain cursor_off =
     (if length chain < cursor_off then Inl (Malformed ''create context out of range'')
      else
        let entry = drop cursor_off chain in
        if length entry < 16 then Inl (Malformed ''create context too short'')
        else
          let nxt = unat (de32 (slice 0 4 entry));
              name_offset = unat (de16 (slice 4 2 entry));
              name_length = unat (de16 (slice 6 2 entry));
              data_offset = unat (de16 (slice 10 2 entry));
              data_length = unat (de32 (slice 12 4 entry))
          in case get_range name_offset name_length entry of
               None \<Rightarrow> Inl (Malformed ''create context name out of range'')
             | Some nm \<Rightarrow>
                 (case (if data_length = 0 then Some [] else get_range data_offset data_length entry) of
                    None \<Rightarrow> Inl (Malformed ''create context data out of range'')
                  | Some dat \<Rightarrow>
                      let c = \<lparr>ctx_name = nm, ctx_data = dat\<rparr> in
                      if nxt = 0 then Inr [c]
                      else (case parse_chain_from chain (cursor_off + nxt) of
                              Inl e \<Rightarrow> Inl e | Inr cs \<Rightarrow> Inr (c # cs))))"
  by pat_completeness auto

termination
  by (relation "measure (\<lambda>(chain, off). length chain + 1 - off)") auto

declare parse_chain_from.simps [simp del]

definition create_context_parse_chain :: "bytes \<Rightarrow> proto_error + create_context list" where
  "create_context_parse_chain chain = (if chain = [] then Inr [] else parse_chain_from chain 0)"

text \<open>
  \<open>CreateContext::encode_chain\<close>: the loop over the entries with the scratch buffer and the entry
  starts, and the pass that patches the \<open>Next\<close> offsets.
\<close>

fun encode_entries :: "create_context list \<Rightarrow> bytes \<Rightarrow> nat list \<Rightarrow> bytes \<times> nat list" where
  "encode_entries [] scratch entry_starts = (scratch, entry_starts)"
| "encode_entries (ctx # rest) scratch entry_starts =
     (let scratch = pad8 scratch;
          header_pos = length scratch;
          scratch = scratch @ replicate 16 0;
          name_offset_rel = of_nat (length scratch - header_pos) :: u16;
          scratch = scratch @ ctx_name ctx;
          scratch = scratch @ replicate (pad_to8 (length scratch - header_pos)) 0;
          data_offset_rel = of_nat (length scratch - header_pos) :: u16;
          scratch = scratch @ ctx_data ctx;
          hdr = le32 0 @ le16 name_offset_rel @ le16 (of_nat (length (ctx_name ctx))) @ le16 0 @
                le16 data_offset_rel @ le32 (of_nat (length (ctx_data ctx)));
          scratch = patch header_pos hdr scratch
      in encode_entries rest (if rest = [] then scratch else pad8 scratch)
           (entry_starts @ [header_pos]))"

fun patch_nexts :: "nat list \<Rightarrow> bytes \<Rightarrow> bytes" where
  "patch_nexts (this # nxt # starts) scratch =
     patch_nexts (nxt # starts) (patch this (le32 (of_nat (nxt - this))) scratch)"
| "patch_nexts _ scratch = scratch"

definition create_context_encode_chain :: "create_context list \<Rightarrow> bytes \<Rightarrow> bytes" where
  "create_context_encode_chain list out =
     (if list = [] then out
      else let (scratch, entry_starts) = encode_entries list [] []
           in out @ patch_nexts entry_starts scratch)"

subsection \<open>The chain as a sequence of entries\<close>

definition data_offset_of :: "create_context \<Rightarrow> nat" where
  "data_offset_of c = 16 + length (ctx_name c) + pad_to8 (length (ctx_name c))"

definition entry_of :: "nat \<Rightarrow> create_context \<Rightarrow> bytes" where
  "entry_of nxt c =
     le32 (of_nat nxt) @ le16 16 @ le16 (of_nat (length (ctx_name c))) @ le16 0 @
     le16 (of_nat (data_offset_of c)) @ le32 (of_nat (length (ctx_data c))) @
     ctx_name c @ replicate (pad_to8 (length (ctx_name c))) 0 @ ctx_data c"

definition entry_size :: "create_context \<Rightarrow> nat" where
  "entry_size c = data_offset_of c + length (ctx_data c)"

definition entry_stride :: "create_context \<Rightarrow> nat" where
  "entry_stride c = entry_size c + pad_to8 (entry_size c)"

fun chain_of :: "create_context list \<Rightarrow> bytes" where
  "chain_of [] = []"
| "chain_of [c] = entry_of 0 c"
| "chain_of (c # d # cs) = pad8 (entry_of (entry_stride c) c) @ chain_of (d # cs)"

fun raw_chain_of :: "create_context list \<Rightarrow> bytes" where
  "raw_chain_of [] = []"
| "raw_chain_of [c] = entry_of 0 c"
| "raw_chain_of (c # d # cs) = pad8 (entry_of 0 c) @ raw_chain_of (d # cs)"

fun starts_of :: "nat \<Rightarrow> create_context list \<Rightarrow> nat list" where
  "starts_of off [] = []"
| "starts_of off (c # cs) = off # starts_of (off + entry_stride c) cs"

definition wf_create_context :: "create_context \<Rightarrow> bool" where
  "wf_create_context c \<longleftrightarrow> data_offset_of c < 2 ^ 16 \<and> entry_stride c < 2 ^ 32"

lemma length_entry_of [simp]: "length (entry_of n c) = entry_size c"
  by (simp add: entry_of_def entry_size_def data_offset_of_def)

lemma entry_stride_pos: "0 < entry_stride c"
  by (simp add: entry_stride_def entry_size_def data_offset_of_def)

lemma length_pad8_entry [simp]: "length (pad8 (entry_of n c)) = entry_stride c"
  by (simp add: entry_stride_def)

lemma entry_stride_dvd [simp]: "8 dvd entry_stride c"
  by (simp add: entry_stride_def)

lemma encode_entries_raw:
  assumes "8 dvd length pre"
  shows "encode_entries cs pre starts = (pre @ raw_chain_of cs, starts @ starts_of (length pre) cs)"
  using assms
proof (induction cs arbitrary: pre starts)
  case (Cons c cs)
  let ?body = "ctx_name c @ replicate (pad_to8 (length (ctx_name c))) 0 @ ctx_data c"
  let ?hdr = "le32 0 @ le16 16 @ le16 (of_nat (length (ctx_name c))) @ le16 0 @
      le16 (of_nat (data_offset_of c)) @ le32 (of_nat (length (ctx_data c)))"
  have pad: "pad_to8 (16 + length (ctx_name c)) = pad_to8 (length (ctx_name c))"
    by simp
  have patch: "patch (length pre) ?hdr (pre @ replicate 16 0 @ ?body) = pre @ entry_of 0 c"
    by (simp add: patch_def entry_of_def)
  have step: "encode_entries (c # cs) pre starts = encode_entries cs
      (if cs = [] then pre @ entry_of 0 c else pad8 (pre @ entry_of 0 c)) (starts @ [length pre])"
    using Cons.prems patch pad by (simp add: Let_def pad8_aligned data_offset_of_def add.assoc)
  show ?case
  proof (cases cs)
    case Nil
    with step show ?thesis by simp
  next
    case (Cons d ds)
    have "8 dvd length (pre @ pad8 (entry_of 0 c))" using Cons.prems by simp
    from Cons.IH [OF this, of "starts @ [length pre]"] Cons Cons.prems step show ?thesis
      by (simp add: pad8_append del: length_pad8 encode_entries.simps)
  qed
qed simp

lemma patch_entry: "patch 0 (le32 (of_nat n)) (entry_of m c) = entry_of n c"
  by (simp add: patch_def entry_of_def)

lemma patch_nexts_chain:
  "patch_nexts (starts_of (length pre) cs) (pre @ raw_chain_of cs) = pre @ chain_of cs"
proof (induction cs arbitrary: pre rule: chain_of.induct)
  case (3 c d cs)
  let ?n = "length pre" and ?w = "le32 (of_nat (entry_stride c)) :: bytes"
  have "patch ?n ?w (pre @ pad8 (entry_of 0 c) @ raw_chain_of (d # cs))
      = pre @ pad8 (entry_of (entry_stride c) c) @ raw_chain_of (d # cs)"
  proof -
    have "4 \<le> entry_size c" by (simp add: entry_size_def data_offset_of_def)
    then show ?thesis
      using patch_entry [of "entry_stride c" 0 c]
      by (simp add: patch_append_right patch_append_left pad8_def)
  qed
  then show ?case
    using "3" [of "pre @ pad8 (entry_of (entry_stride c) c)"] by (simp del: length_pad8)
qed simp_all

lemma encode_chain_eq: "create_context_encode_chain cs out = out @ chain_of cs"
  using encode_entries_raw [of "[]" cs "[]"] patch_nexts_chain [of "[]" cs]
  by (cases cs) (simp_all add: create_context_encode_chain_def)

lemma slice_entry_fields:
  assumes "wf_create_context c" and "n < 2 ^ 32"
  shows "unat (de32 (slice 0 4 (entry_of n c @ r))) = n"
    and "unat (de16 (slice 4 2 (entry_of n c @ r))) = 16"
    and "unat (de16 (slice 6 2 (entry_of n c @ r))) = length (ctx_name c)"
    and "unat (de16 (slice 10 2 (entry_of n c @ r))) = data_offset_of c"
    and "unat (de32 (slice 12 4 (entry_of n c @ r))) = length (ctx_data c)"
    and "get_range 16 (length (ctx_name c)) (entry_of n c @ r) = Some (ctx_name c)"
    and "get_range (data_offset_of c) (length (ctx_data c)) (entry_of n c @ r) = Some (ctx_data c)"
proof -
  have nm: "length (ctx_name c) < 2 ^ 16" and dl: "length (ctx_data c) < 2 ^ 32"
    using assms(1)
    by (simp_all add: wf_create_context_def entry_stride_def entry_size_def data_offset_of_def)
  show "unat (de32 (slice 0 4 (entry_of n c @ r))) = n"
    using assms(2) by (simp add: slice_def entry_of_def unat_of_nat take_bit_eq_mod)
  show "unat (de16 (slice 4 2 (entry_of n c @ r))) = 16"
    by (simp add: slice_def entry_of_def)
  show "unat (de16 (slice 6 2 (entry_of n c @ r))) = length (ctx_name c)"
    using nm by (simp add: slice_def entry_of_def unat_of_nat take_bit_eq_mod)
  show "unat (de16 (slice 10 2 (entry_of n c @ r))) = data_offset_of c"
    using assms(1)
    by (simp add: slice_def entry_of_def unat_of_nat take_bit_eq_mod wf_create_context_def)
  show "unat (de32 (slice 12 4 (entry_of n c @ r))) = length (ctx_data c)"
    using dl by (simp add: slice_def entry_of_def unat_of_nat take_bit_eq_mod)
  show "get_range 16 (length (ctx_name c)) (entry_of n c @ r) = Some (ctx_name c)"
    by (simp add: get_range_def entry_size_def data_offset_of_def) (simp add: slice_def entry_of_def)
  show "get_range (data_offset_of c) (length (ctx_data c)) (entry_of n c @ r) = Some (ctx_data c)"
    by (simp add: get_range_def entry_size_def)
      (simp add: slice_def entry_of_def data_offset_of_def)
qed

lemma entry_size_ge: "16 \<le> entry_size c"
  by (simp add: entry_size_def data_offset_of_def)

lemma parse_chain_step:
  assumes "wf_create_context c" and "n < 2 ^ 32"
  shows "parse_chain_from (pre @ entry_of n c @ r) (length pre) =
    (if n = 0 then Inr [c]
     else case parse_chain_from (pre @ entry_of n c @ r) (length pre + n) of
       Inl e \<Rightarrow> Inl e | Inr cs \<Rightarrow> Inr (c # cs))"
proof -
  have dat: "(if length (ctx_data c) = 0 then Some []
      else get_range (data_offset_of c) (length (ctx_data c)) (entry_of n c @ r))
    = Some (ctx_data c)"
    using slice_entry_fields(7) [OF assms, of r] by simp
  have eta: "\<lparr>ctx_name = ctx_name c, ctx_data = ctx_data c\<rparr> = c" by (cases c) simp
  show ?thesis
    using entry_size_ge [of c]
    by (subst parse_chain_from.simps)
      (simp add: Let_def slice_entry_fields [OF assms] dat eta
        del: length_0_conv slice_append_left)
qed

lemma parse_chain_of:
  "cs \<noteq> [] \<Longrightarrow> list_all wf_create_context cs \<Longrightarrow>
    parse_chain_from (pre @ chain_of cs) (length pre) = Inr cs"
proof (induction cs arbitrary: pre rule: chain_of.induct)
  case (2 c)
  then show ?case using parse_chain_step [of c 0 pre "[]"] by simp
next
  case (3 c d cs)
  let ?e = "pad8 (entry_of (entry_stride c) c)"
  let ?pad = "replicate (pad_to8 (entry_size c)) 0"
  have c: "wf_create_context c" "entry_stride c < 2 ^ 32"
    using "3.prems" by (simp_all add: wf_create_context_def)
  have "parse_chain_from ((pre @ ?e) @ chain_of (d # cs)) (length (pre @ ?e)) = Inr (d # cs)"
    using "3.prems" by (intro "3.IH") auto
  then have "parse_chain_from (pre @ ?e @ chain_of (d # cs)) (length pre + entry_stride c)
      = Inr (d # cs)"
    by (simp del: length_pad8)
  moreover have "?e = entry_of (entry_stride c) c @ ?pad" by (simp add: pad8_def)
  ultimately show ?case
    using parse_chain_step [OF c, of pre "?pad @ chain_of (d # cs)"] entry_stride_pos [of c]
    by simp
qed simp

lemma parse_chain_of_all:
  assumes "list_all wf_create_context cs"
  shows "create_context_parse_chain (chain_of cs) = Inr cs"
proof (cases cs)
  case Nil
  then show ?thesis by (simp add: create_context_parse_chain_def)
next
  case (Cons c ds)
  have "chain_of cs \<noteq> []"
  proof
    assume "chain_of cs = []"
    then have "length (chain_of cs) = 0" by simp
    with Cons entry_stride_pos [of c] entry_size_ge [of c] show False by (cases ds) auto
  qed
  with assms Cons show ?thesis
    using parse_chain_of [of cs "[]"] by (simp add: create_context_parse_chain_def)
qed

text \<open>
  The server's create contexts survive the wire: whatever list of contexts is encoded (each
  small enough for its 16-bit offsets), the parser walks the patched \<open>Next\<close> offsets, the names
  and the aligned data back to the same list, and rejects nothing of it.
\<close>

theorem create_context_chain_roundtrip:
  assumes "list_all wf_create_context cs"
  shows "create_context_parse_chain (create_context_encode_chain cs []) = Inr cs"
  using parse_chain_of_all [OF assms] by (simp add: encode_chain_eq)

theorem create_context_chain_roundtrip_witness:
  "create_context_parse_chain (create_context_encode_chain
     [\<lparr>ctx_name = NAME_MXAC, ctx_data = []\<rparr>, \<lparr>ctx_name = NAME_QFID, ctx_data = replicate 32 1\<rparr>] [])
   = Inr [\<lparr>ctx_name = NAME_MXAC, ctx_data = []\<rparr>, \<lparr>ctx_name = NAME_QFID, ctx_data = replicate 32 1\<rparr>]"
  by (rule create_context_chain_roundtrip)
    (simp add: wf_create_context_def data_offset_of_def entry_stride_def entry_size_def
      NAME_MXAC_def NAME_QFID_def pad_to8_def)

section \<open>Close and flush\<close>

record close_request =
  clq_structure_size :: u16
  clq_flags :: u16
  clq_reserved :: u32
  clq_file_id :: file_id

definition get_close_request :: "bytes \<Rightarrow> (close_request \<times> bytes) option" where
  "get_close_request b = do {
     (structure_size, b) \<leftarrow> get16 b;
     (fl, b) \<leftarrow> get16 b;
     (reserved, b) \<leftarrow> get32 b;
     (file_id, b) \<leftarrow> get_file_id b;
     Some (\<lparr>clq_structure_size = structure_size, clq_flags = fl, clq_reserved = reserved,
            clq_file_id = file_id\<rparr>, b) }"

definition put_close_request :: "close_request \<Rightarrow> bytes" where
  "put_close_request m =
     le16 (clq_structure_size m) @ le16 (clq_flags m) @ le32 (clq_reserved m) @
     put_file_id (clq_file_id m)"

definition wf_close_request :: "close_request \<Rightarrow> bool" where
  "wf_close_request m \<longleftrightarrow> True"

interpretation close_request: codec get_close_request put_close_request wf_close_request
proof
  fix m r assume "wf_close_request m"
  then show "get_close_request (put_close_request m @ r) = Some (m, r)"
    by (simp add: get_close_request_def put_close_request_def wf_close_request_def wire file_id.get_put file_id.get_put_end wf_file_id_def)
next
  fix b m r assume "get_close_request b = Some (m, r)"
  then show "wf_close_request m" "b = put_close_request m @ r"
    by (auto simp: get_close_request_def put_close_request_def wf_close_request_def Option.bind_eq_Some_conv
        dest!: codec_dests file_id.get_canonical )
qed

definition close_request_parse :: "bytes \<Rightarrow> close_request option" where
  "close_request_parse = parse_with get_close_request"

record close_response =
  clr_structure_size :: u16
  clr_flags :: u16
  clr_reserved :: u32
  clr_creation_time :: u64
  clr_last_access_time :: u64
  clr_last_write_time :: u64
  clr_change_time :: u64
  clr_allocation_size :: u64
  clr_end_of_file :: u64
  clr_file_attributes :: u32

definition get_close_response :: "bytes \<Rightarrow> (close_response \<times> bytes) option" where
  "get_close_response b = do {
     (structure_size, b) \<leftarrow> get16 b;
     (fl, b) \<leftarrow> get16 b;
     (reserved, b) \<leftarrow> get32 b;
     (creation_time, b) \<leftarrow> get64 b;
     (last_access_time, b) \<leftarrow> get64 b;
     (last_write_time, b) \<leftarrow> get64 b;
     (change_time, b) \<leftarrow> get64 b;
     (allocation_size, b) \<leftarrow> get64 b;
     (end_of_file, b) \<leftarrow> get64 b;
     (file_attributes, b) \<leftarrow> get32 b;
     Some (\<lparr>clr_structure_size = structure_size, clr_flags = fl, clr_reserved = reserved,
            clr_creation_time = creation_time, clr_last_access_time = last_access_time,
            clr_last_write_time = last_write_time, clr_change_time = change_time,
            clr_allocation_size = allocation_size, clr_end_of_file = end_of_file,
            clr_file_attributes = file_attributes\<rparr>, b) }"

definition put_close_response :: "close_response \<Rightarrow> bytes" where
  "put_close_response m =
     le16 (clr_structure_size m) @ le16 (clr_flags m) @ le32 (clr_reserved m) @
     le64 (clr_creation_time m) @ le64 (clr_last_access_time m) @ le64 (clr_last_write_time m) @
     le64 (clr_change_time m) @ le64 (clr_allocation_size m) @ le64 (clr_end_of_file m) @
     le32 (clr_file_attributes m)"

definition wf_close_response :: "close_response \<Rightarrow> bool" where
  "wf_close_response m \<longleftrightarrow> True"

interpretation close_response: codec get_close_response put_close_response wf_close_response
proof
  fix m r assume "wf_close_response m"
  then show "get_close_response (put_close_response m @ r) = Some (m, r)"
    by (simp add: get_close_response_def put_close_response_def wf_close_response_def wire)
next
  fix b m r assume "get_close_response b = Some (m, r)"
  then show "wf_close_response m" "b = put_close_response m @ r"
    by (auto simp: get_close_response_def put_close_response_def wf_close_response_def Option.bind_eq_Some_conv
        dest!: codec_dests )
qed

definition close_response_parse :: "bytes \<Rightarrow> close_response option" where
  "close_response_parse = parse_with get_close_response"

definition FLAG_POSTQUERY_ATTRIB :: u16 where "FLAG_POSTQUERY_ATTRIB = 0x0001"

definition close_response_new :: close_response where
  "close_response_new = \<lparr>clr_structure_size = 60, clr_flags = 0, clr_reserved = 0, clr_creation_time = 0, clr_last_access_time = 0, clr_last_write_time = 0, clr_change_time = 0, clr_allocation_size = 0, clr_end_of_file = 0, clr_file_attributes = 0\<rparr>"

record flush_request =
  flq_structure_size :: u16
  flq_reserved1 :: u16
  flq_reserved2 :: u32
  flq_file_id_persistent :: u64
  flq_file_id_volatile :: u64

definition get_flush_request :: "bytes \<Rightarrow> (flush_request \<times> bytes) option" where
  "get_flush_request b = do {
     (structure_size, b) \<leftarrow> get16 b;
     (reserved1, b) \<leftarrow> get16 b;
     (reserved2, b) \<leftarrow> get32 b;
     (file_id_persistent, b) \<leftarrow> get64 b;
     (file_id_volatile, b) \<leftarrow> get64 b;
     Some (\<lparr>flq_structure_size = structure_size, flq_reserved1 = reserved1,
            flq_reserved2 = reserved2, flq_file_id_persistent = file_id_persistent,
            flq_file_id_volatile = file_id_volatile\<rparr>, b) }"

definition put_flush_request :: "flush_request \<Rightarrow> bytes" where
  "put_flush_request m =
     le16 (flq_structure_size m) @ le16 (flq_reserved1 m) @ le32 (flq_reserved2 m) @
     le64 (flq_file_id_persistent m) @ le64 (flq_file_id_volatile m)"

definition wf_flush_request :: "flush_request \<Rightarrow> bool" where
  "wf_flush_request m \<longleftrightarrow> True"

interpretation flush_request: codec get_flush_request put_flush_request wf_flush_request
proof
  fix m r assume "wf_flush_request m"
  then show "get_flush_request (put_flush_request m @ r) = Some (m, r)"
    by (simp add: get_flush_request_def put_flush_request_def wf_flush_request_def wire)
next
  fix b m r assume "get_flush_request b = Some (m, r)"
  then show "wf_flush_request m" "b = put_flush_request m @ r"
    by (auto simp: get_flush_request_def put_flush_request_def wf_flush_request_def Option.bind_eq_Some_conv
        dest!: codec_dests )
qed

definition flush_request_parse :: "bytes \<Rightarrow> flush_request option" where
  "flush_request_parse = parse_with get_flush_request"

record flush_response =
  flr_structure_size :: u16
  flr_reserved :: u16

definition get_flush_response :: "bytes \<Rightarrow> (flush_response \<times> bytes) option" where
  "get_flush_response b = do {
     (structure_size, b) \<leftarrow> get16 b;
     (reserved, b) \<leftarrow> get16 b;
     Some (\<lparr>flr_structure_size = structure_size, flr_reserved = reserved\<rparr>, b) }"

definition put_flush_response :: "flush_response \<Rightarrow> bytes" where
  "put_flush_response m =
     le16 (flr_structure_size m) @ le16 (flr_reserved m)"

definition wf_flush_response :: "flush_response \<Rightarrow> bool" where
  "wf_flush_response m \<longleftrightarrow> True"

interpretation flush_response: codec get_flush_response put_flush_response wf_flush_response
proof
  fix m r assume "wf_flush_response m"
  then show "get_flush_response (put_flush_response m @ r) = Some (m, r)"
    by (simp add: get_flush_response_def put_flush_response_def wf_flush_response_def wire)
next
  fix b m r assume "get_flush_response b = Some (m, r)"
  then show "wf_flush_response m" "b = put_flush_response m @ r"
    by (auto simp: get_flush_response_def put_flush_response_def wf_flush_response_def Option.bind_eq_Some_conv
        dest!: codec_dests )
qed

definition flush_response_parse :: "bytes \<Rightarrow> flush_response option" where
  "flush_response_parse = parse_with get_flush_response"

definition flush_response_default :: flush_response where
  "flush_response_default = \<lparr>flr_structure_size = 4, flr_reserved = 0\<rparr>"

section \<open>Read and write\<close>

record read_request =
  rdq_structure_size :: u16
  rdq_padding :: u8
  rdq_flags :: u8
  rdq_length :: u32
  rdq_offset :: u64
  rdq_file_id :: file_id
  rdq_minimum_count :: u32
  rdq_channel :: u32
  rdq_remaining_bytes :: u32
  rdq_read_channel_info_offset :: u16
  rdq_read_channel_info_length :: u16
  rdq_buffer :: bytes

definition get_read_request :: "bytes \<Rightarrow> (read_request \<times> bytes) option" where
  "get_read_request b = do {
     (structure_size, b) \<leftarrow> get16 b;
     (padding, b) \<leftarrow> get8 b;
     (fl, b) \<leftarrow> get8 b;
     (len, b) \<leftarrow> get32 b;
     (off, b) \<leftarrow> get64 b;
     (file_id, b) \<leftarrow> get_file_id b;
     (minimum_count, b) \<leftarrow> get32 b;
     (channel, b) \<leftarrow> get32 b;
     (remaining_bytes, b) \<leftarrow> get32 b;
     (read_channel_info_offset, b) \<leftarrow> get16 b;
     (read_channel_info_length, b) \<leftarrow> get16 b;
     (buffer, b) \<leftarrow> get_bytes (if read_channel_info_length = 0 then 1 else unat read_channel_info_length) b;
     Some (\<lparr>rdq_structure_size = structure_size, rdq_padding = padding, rdq_flags = fl,
            rdq_length = len, rdq_offset = off, rdq_file_id = file_id,
            rdq_minimum_count = minimum_count, rdq_channel = channel,
            rdq_remaining_bytes = remaining_bytes,
            rdq_read_channel_info_offset = read_channel_info_offset,
            rdq_read_channel_info_length = read_channel_info_length, rdq_buffer = buffer\<rparr>, b) }"

definition put_read_request :: "read_request \<Rightarrow> bytes" where
  "put_read_request m =
     le16 (rdq_structure_size m) @ [rdq_padding m] @ [rdq_flags m] @ le32 (rdq_length m) @
     le64 (rdq_offset m) @ put_file_id (rdq_file_id m) @ le32 (rdq_minimum_count m) @
     le32 (rdq_channel m) @ le32 (rdq_remaining_bytes m) @
     le16 (rdq_read_channel_info_offset m) @ le16 (rdq_read_channel_info_length m) @ rdq_buffer m"

definition wf_read_request :: "read_request \<Rightarrow> bool" where
  "wf_read_request m \<longleftrightarrow> length (rdq_buffer m) = (if rdq_read_channel_info_length m = 0 then 1 else unat (rdq_read_channel_info_length m))"

interpretation read_request: codec get_read_request put_read_request wf_read_request
proof
  fix m r assume "wf_read_request m"
  then show "get_read_request (put_read_request m @ r) = Some (m, r)"
    by (simp add: get_read_request_def put_read_request_def wf_read_request_def wire file_id.get_put wf_file_id_def)
next
  fix b m r assume "get_read_request b = Some (m, r)"
  then show "wf_read_request m" "b = put_read_request m @ r"
    by (auto simp: get_read_request_def put_read_request_def wf_read_request_def Option.bind_eq_Some_conv
        dest!: codec_dests file_id.get_canonical )
qed

definition read_request_parse :: "bytes \<Rightarrow> read_request option" where
  "read_request_parse = parse_with get_read_request"

record read_response =
  rdr_structure_size :: u16
  rdr_data_offset :: u8
  rdr_reserved :: u8
  rdr_data_length :: u32
  rdr_data_remaining :: u32
  rdr_flags :: u32
  rdr_data :: bytes

definition get_read_response :: "bytes \<Rightarrow> (read_response \<times> bytes) option" where
  "get_read_response b = do {
     (structure_size, b) \<leftarrow> get16 b;
     (data_offset, b) \<leftarrow> get8 b;
     (reserved, b) \<leftarrow> get8 b;
     (data_length, b) \<leftarrow> get32 b;
     (data_remaining, b) \<leftarrow> get32 b;
     (fl, b) \<leftarrow> get32 b;
     (dat, b) \<leftarrow> get_bytes (unat data_length) b;
     Some (\<lparr>rdr_structure_size = structure_size, rdr_data_offset = data_offset,
            rdr_reserved = reserved, rdr_data_length = data_length, rdr_data_remaining = data_remaining,
            rdr_flags = fl, rdr_data = dat\<rparr>, b) }"

definition put_read_response :: "read_response \<Rightarrow> bytes" where
  "put_read_response m =
     le16 (rdr_structure_size m) @ [rdr_data_offset m] @ [rdr_reserved m] @
     le32 (rdr_data_length m) @ le32 (rdr_data_remaining m) @ le32 (rdr_flags m) @ rdr_data m"

definition wf_read_response :: "read_response \<Rightarrow> bool" where
  "wf_read_response m \<longleftrightarrow> length (rdr_data m) = (unat (rdr_data_length m))"

interpretation read_response: codec get_read_response put_read_response wf_read_response
proof
  fix m r assume "wf_read_response m"
  then show "get_read_response (put_read_response m @ r) = Some (m, r)"
    by (simp add: get_read_response_def put_read_response_def wf_read_response_def wire)
next
  fix b m r assume "get_read_response b = Some (m, r)"
  then show "wf_read_response m" "b = put_read_response m @ r"
    by (auto simp: get_read_response_def put_read_response_def wf_read_response_def Option.bind_eq_Some_conv
        dest!: codec_dests )
qed

definition read_response_parse :: "bytes \<Rightarrow> read_response option" where
  "read_response_parse = parse_with get_read_response"

definition READ_STANDARD_DATA_OFFSET :: u8 where "READ_STANDARD_DATA_OFFSET = 0x50"

record write_request =
  wrq_structure_size :: u16
  wrq_data_offset :: u16
  wrq_length :: u32
  wrq_offset :: u64
  wrq_file_id :: file_id
  wrq_channel :: u32
  wrq_remaining_bytes :: u32
  wrq_write_channel_info_offset :: u16
  wrq_write_channel_info_length :: u16
  wrq_flags :: u32
  wrq_data :: bytes

definition get_write_request :: "bytes \<Rightarrow> (write_request \<times> bytes) option" where
  "get_write_request b = do {
     (structure_size, b) \<leftarrow> get16 b;
     (data_offset, b) \<leftarrow> get16 b;
     (len, b) \<leftarrow> get32 b;
     (off, b) \<leftarrow> get64 b;
     (file_id, b) \<leftarrow> get_file_id b;
     (channel, b) \<leftarrow> get32 b;
     (remaining_bytes, b) \<leftarrow> get32 b;
     (write_channel_info_offset, b) \<leftarrow> get16 b;
     (write_channel_info_length, b) \<leftarrow> get16 b;
     (fl, b) \<leftarrow> get32 b;
     (dat, b) \<leftarrow> get_bytes (if len = 0 then 1 else unat len) b;
     Some (\<lparr>wrq_structure_size = structure_size, wrq_data_offset = data_offset, wrq_length = len,
            wrq_offset = off, wrq_file_id = file_id, wrq_channel = channel,
            wrq_remaining_bytes = remaining_bytes,
            wrq_write_channel_info_offset = write_channel_info_offset,
            wrq_write_channel_info_length = write_channel_info_length, wrq_flags = fl,
            wrq_data = dat\<rparr>, b) }"

definition put_write_request :: "write_request \<Rightarrow> bytes" where
  "put_write_request m =
     le16 (wrq_structure_size m) @ le16 (wrq_data_offset m) @ le32 (wrq_length m) @
     le64 (wrq_offset m) @ put_file_id (wrq_file_id m) @ le32 (wrq_channel m) @
     le32 (wrq_remaining_bytes m) @ le16 (wrq_write_channel_info_offset m) @
     le16 (wrq_write_channel_info_length m) @ le32 (wrq_flags m) @ wrq_data m"

definition wf_write_request :: "write_request \<Rightarrow> bool" where
  "wf_write_request m \<longleftrightarrow> length (wrq_data m) = (if wrq_length m = 0 then 1 else unat (wrq_length m))"

interpretation write_request: codec get_write_request put_write_request wf_write_request
proof
  fix m r assume "wf_write_request m"
  then show "get_write_request (put_write_request m @ r) = Some (m, r)"
    by (simp add: get_write_request_def put_write_request_def wf_write_request_def wire file_id.get_put wf_file_id_def)
next
  fix b m r assume "get_write_request b = Some (m, r)"
  then show "wf_write_request m" "b = put_write_request m @ r"
    by (auto simp: get_write_request_def put_write_request_def wf_write_request_def Option.bind_eq_Some_conv
        dest!: codec_dests file_id.get_canonical )
qed

definition write_request_parse :: "bytes \<Rightarrow> write_request option" where
  "write_request_parse = parse_with get_write_request"

record write_response =
  wrr_structure_size :: u16
  wrr_reserved :: u16
  wrr_count :: u32
  wrr_remaining :: u32
  wrr_write_channel_info_offset :: u16
  wrr_write_channel_info_length :: u16

definition get_write_response :: "bytes \<Rightarrow> (write_response \<times> bytes) option" where
  "get_write_response b = do {
     (structure_size, b) \<leftarrow> get16 b;
     (reserved, b) \<leftarrow> get16 b;
     (count, b) \<leftarrow> get32 b;
     (remaining, b) \<leftarrow> get32 b;
     (write_channel_info_offset, b) \<leftarrow> get16 b;
     (write_channel_info_length, b) \<leftarrow> get16 b;
     Some (\<lparr>wrr_structure_size = structure_size, wrr_reserved = reserved, wrr_count = count,
            wrr_remaining = remaining, wrr_write_channel_info_offset = write_channel_info_offset,
            wrr_write_channel_info_length = write_channel_info_length\<rparr>, b) }"

definition put_write_response :: "write_response \<Rightarrow> bytes" where
  "put_write_response m =
     le16 (wrr_structure_size m) @ le16 (wrr_reserved m) @ le32 (wrr_count m) @
     le32 (wrr_remaining m) @ le16 (wrr_write_channel_info_offset m) @
     le16 (wrr_write_channel_info_length m)"

definition wf_write_response :: "write_response \<Rightarrow> bool" where
  "wf_write_response m \<longleftrightarrow> True"

interpretation write_response: codec get_write_response put_write_response wf_write_response
proof
  fix m r assume "wf_write_response m"
  then show "get_write_response (put_write_response m @ r) = Some (m, r)"
    by (simp add: get_write_response_def put_write_response_def wf_write_response_def wire)
next
  fix b m r assume "get_write_response b = Some (m, r)"
  then show "wf_write_response m" "b = put_write_response m @ r"
    by (auto simp: get_write_response_def put_write_response_def wf_write_response_def Option.bind_eq_Some_conv
        dest!: codec_dests )
qed

definition write_response_parse :: "bytes \<Rightarrow> write_response option" where
  "write_response_parse = parse_with get_write_response"

definition write_response_new :: "u32 \<Rightarrow> write_response" where
  "write_response_new n =
     \<lparr>wrr_structure_size = 17, wrr_reserved = 0, wrr_count = n, wrr_remaining = 0,
      wrr_write_channel_info_offset = 0, wrr_write_channel_info_length = 0\<rparr>"

section \<open>Lock and oplock break\<close>

record lock_element =
  lel_offset :: u64
  lel_length :: u64
  lel_flags :: u32
  lel_reserved :: u32

definition get_lock_element :: "bytes \<Rightarrow> (lock_element \<times> bytes) option" where
  "get_lock_element b = do {
     (off, b) \<leftarrow> get64 b;
     (len, b) \<leftarrow> get64 b;
     (fl, b) \<leftarrow> get32 b;
     (reserved, b) \<leftarrow> get32 b;
     Some (\<lparr>lel_offset = off, lel_length = len, lel_flags = fl,
            lel_reserved = reserved\<rparr>, b) }"

definition put_lock_element :: "lock_element \<Rightarrow> bytes" where
  "put_lock_element m =
     le64 (lel_offset m) @ le64 (lel_length m) @ le32 (lel_flags m) @ le32 (lel_reserved m)"

definition wf_lock_element :: "lock_element \<Rightarrow> bool" where
  "wf_lock_element m \<longleftrightarrow> True"

interpretation lock_element: codec get_lock_element put_lock_element wf_lock_element
proof
  fix m r assume "wf_lock_element m"
  then show "get_lock_element (put_lock_element m @ r) = Some (m, r)"
    by (simp add: get_lock_element_def put_lock_element_def wf_lock_element_def wire)
next
  fix b m r assume "get_lock_element b = Some (m, r)"
  then show "wf_lock_element m" "b = put_lock_element m @ r"
    by (auto simp: get_lock_element_def put_lock_element_def wf_lock_element_def Option.bind_eq_Some_conv
        dest!: codec_dests )
qed

record lock_request =
  lkq_structure_size :: u16
  lkq_lock_count :: u16
  lkq_lock_sequence :: u32
  lkq_file_id :: file_id
  lkq_locks :: "lock_element list"

definition get_lock_request :: "bytes \<Rightarrow> (lock_request \<times> bytes) option" where
  "get_lock_request b = do {
     (structure_size, b) \<leftarrow> get16 b;
     (lock_count, b) \<leftarrow> get16 b;
     (lock_sequence, b) \<leftarrow> get32 b;
     (file_id, b) \<leftarrow> get_file_id b;
     (locks, b) \<leftarrow> get_many get_lock_element (unat lock_count) b;
     Some (\<lparr>lkq_structure_size = structure_size, lkq_lock_count = lock_count,
            lkq_lock_sequence = lock_sequence, lkq_file_id = file_id, lkq_locks = locks\<rparr>, b) }"

definition put_lock_request :: "lock_request \<Rightarrow> bytes" where
  "put_lock_request m =
     le16 (lkq_structure_size m) @ le16 (lkq_lock_count m) @ le32 (lkq_lock_sequence m) @
     put_file_id (lkq_file_id m) @ concat (map put_lock_element (lkq_locks m))"

definition wf_lock_request :: "lock_request \<Rightarrow> bool" where
  "wf_lock_request m \<longleftrightarrow> length (lkq_locks m) = (unat (lkq_lock_count m))"

interpretation lock_request: codec get_lock_request put_lock_request wf_lock_request
proof
  fix m r assume "wf_lock_request m"
  then show "get_lock_request (put_lock_request m @ r) = Some (m, r)"
    by (simp add: get_lock_request_def put_lock_request_def wf_lock_request_def wire lock_element.get_many_put file_id.get_put wf_file_id_def list_all_iff wf_lock_element_def)
next
  fix b m r assume "get_lock_request b = Some (m, r)"
  then show "wf_lock_request m" "b = put_lock_request m @ r"
    by (auto simp: get_lock_request_def put_lock_request_def wf_lock_request_def Option.bind_eq_Some_conv
        dest!: codec_dests file_id.get_canonical lock_element.get_many_SomeD )
qed

definition lock_request_parse :: "bytes \<Rightarrow> lock_request option" where
  "lock_request_parse = parse_with get_lock_request"

record lock_response =
  lkr_structure_size :: u16
  lkr_reserved :: u16

definition get_lock_response :: "bytes \<Rightarrow> (lock_response \<times> bytes) option" where
  "get_lock_response b = do {
     (structure_size, b) \<leftarrow> get16 b;
     (reserved, b) \<leftarrow> get16 b;
     Some (\<lparr>lkr_structure_size = structure_size, lkr_reserved = reserved\<rparr>, b) }"

definition put_lock_response :: "lock_response \<Rightarrow> bytes" where
  "put_lock_response m =
     le16 (lkr_structure_size m) @ le16 (lkr_reserved m)"

definition wf_lock_response :: "lock_response \<Rightarrow> bool" where
  "wf_lock_response m \<longleftrightarrow> True"

interpretation lock_response: codec get_lock_response put_lock_response wf_lock_response
proof
  fix m r assume "wf_lock_response m"
  then show "get_lock_response (put_lock_response m @ r) = Some (m, r)"
    by (simp add: get_lock_response_def put_lock_response_def wf_lock_response_def wire)
next
  fix b m r assume "get_lock_response b = Some (m, r)"
  then show "wf_lock_response m" "b = put_lock_response m @ r"
    by (auto simp: get_lock_response_def put_lock_response_def wf_lock_response_def Option.bind_eq_Some_conv
        dest!: codec_dests )
qed

definition lock_response_parse :: "bytes \<Rightarrow> lock_response option" where
  "lock_response_parse = parse_with get_lock_response"

definition lock_response_default :: lock_response where
  "lock_response_default = \<lparr>lkr_structure_size = 4, lkr_reserved = 0\<rparr>"

record oplock_break_notification =
  obn_structure_size :: u16
  obn_oplock_level :: u8
  obn_reserved :: u8
  obn_reserved2 :: u32
  obn_file_id :: file_id

definition get_oplock_break_notification :: "bytes \<Rightarrow> (oplock_break_notification \<times> bytes) option" where
  "get_oplock_break_notification b = do {
     (structure_size, b) \<leftarrow> get16 b;
     (oplock_level, b) \<leftarrow> get8 b;
     (reserved, b) \<leftarrow> get8 b;
     (reserved2, b) \<leftarrow> get32 b;
     (file_id, b) \<leftarrow> get_file_id b;
     Some (\<lparr>obn_structure_size = structure_size, obn_oplock_level = oplock_level,
            obn_reserved = reserved, obn_reserved2 = reserved2, obn_file_id = file_id\<rparr>, b) }"

definition put_oplock_break_notification :: "oplock_break_notification \<Rightarrow> bytes" where
  "put_oplock_break_notification m =
     le16 (obn_structure_size m) @ [obn_oplock_level m] @ [obn_reserved m] @
     le32 (obn_reserved2 m) @ put_file_id (obn_file_id m)"

definition wf_oplock_break_notification :: "oplock_break_notification \<Rightarrow> bool" where
  "wf_oplock_break_notification m \<longleftrightarrow> True"

interpretation oplock_break_notification: codec get_oplock_break_notification put_oplock_break_notification wf_oplock_break_notification
proof
  fix m r assume "wf_oplock_break_notification m"
  then show "get_oplock_break_notification (put_oplock_break_notification m @ r) = Some (m, r)"
    by (simp add: get_oplock_break_notification_def put_oplock_break_notification_def wf_oplock_break_notification_def wire file_id.get_put file_id.get_put_end wf_file_id_def)
next
  fix b m r assume "get_oplock_break_notification b = Some (m, r)"
  then show "wf_oplock_break_notification m" "b = put_oplock_break_notification m @ r"
    by (auto simp: get_oplock_break_notification_def put_oplock_break_notification_def wf_oplock_break_notification_def Option.bind_eq_Some_conv
        dest!: codec_dests file_id.get_canonical )
qed

definition oplock_break_notification_parse :: "bytes \<Rightarrow> oplock_break_notification option" where
  "oplock_break_notification_parse = parse_with get_oplock_break_notification"

end
