(* ===== verification/Messages_Info.thy ===== *)
theory Messages_Info
  imports Messages_File
begin

text \<open>
  Messages that query, set and watch: \<open>ioctl.rs\<close>, \<open>query_directory.rs\<close>, \<open>query_info.rs\<close>,
  \<open>set_info.rs\<close> and \<open>change_notify.rs\<close> of \<open>src/src/proto/messages\<close>, in the same form as the
  other messages.
\<close>

section \<open>Control codes and information classes\<close>

datatype fsctl =
    ValidateNegotiateInfo | DfsGetReferrals | DfsGetReferralsEx | PipeTranscede | PipePeek
  | PipeWait | LmrRequestResiliency | QueryNetworkInterfaceInfo | FsctlOther u32

primrec fsctl_as_u32 :: "fsctl \<Rightarrow> u32" where
  "fsctl_as_u32 ValidateNegotiateInfo = 0x00140204"
| "fsctl_as_u32 DfsGetReferrals = 0x00060194"
| "fsctl_as_u32 DfsGetReferralsEx = 0x00060198"
| "fsctl_as_u32 PipeTranscede = 0x0011C017"
| "fsctl_as_u32 PipePeek = 0x0011400C"
| "fsctl_as_u32 PipeWait = 0x0011C018"
| "fsctl_as_u32 LmrRequestResiliency = 0x001C0017"
| "fsctl_as_u32 QueryNetworkInterfaceInfo = 0x001FC017"
| "fsctl_as_u32 (FsctlOther c) = c"

definition fsctl_from_u32 :: "u32 \<Rightarrow> fsctl" where
  "fsctl_from_u32 code =
     (if code = 0x00140204 then ValidateNegotiateInfo else if code = 0x00060194 then DfsGetReferrals
      else if code = 0x00060198 then DfsGetReferralsEx else if code = 0x0011C017 then PipeTranscede
      else if code = 0x0011400C then PipePeek else if code = 0x0011C018 then PipeWait
      else if code = 0x001C0017 then LmrRequestResiliency
      else if code = 0x001FC017 then QueryNetworkInterfaceInfo
      else FsctlOther code)"

lemma fsctl_as_from [simp]: "fsctl_as_u32 (fsctl_from_u32 c) = c"
  by (simp add: fsctl_from_u32_def)

datatype info_type = FileInfoType | FileSystemInfoType | SecurityInfoType | QuotaInfoType

definition info_type_from_u8 :: "u8 \<Rightarrow> info_type option" where
  "info_type_from_u8 v =
     (if v = 0x01 then Some FileInfoType else if v = 0x02 then Some FileSystemInfoType
      else if v = 0x03 then Some SecurityInfoType else if v = 0x04 then Some QuotaInfoType
      else None)"

datatype file_info_class =
    FileDirectoryInformation | FileFullDirectoryInformation | FileBothDirectoryInformation
  | FileNamesInformation | FileIdBothDirectoryInformation | FileIdFullDirectoryInformation

definition file_info_class_from_u8 :: "u8 \<Rightarrow> file_info_class option" where
  "file_info_class_from_u8 v =
     (if v = 0x01 then Some FileDirectoryInformation
      else if v = 0x02 then Some FileFullDirectoryInformation
      else if v = 0x03 then Some FileBothDirectoryInformation
      else if v = 0x0C then Some FileNamesInformation
      else if v = 0x25 then Some FileIdBothDirectoryInformation
      else if v = 0x26 then Some FileIdFullDirectoryInformation
      else None)"

definition FLAG_RESTART_SCANS :: u8 where "FLAG_RESTART_SCANS = 0x01"
definition FLAG_RETURN_SINGLE_ENTRY :: u8 where "FLAG_RETURN_SINGLE_ENTRY = 0x02"
definition FLAG_INDEX_SPECIFIED :: u8 where "FLAG_INDEX_SPECIFIED = 0x04"
definition FLAG_REOPEN :: u8 where "FLAG_REOPEN = 0x10"

section \<open>Messages\<close>

record ioctl_request =
  ioq_structure_size :: u16
  ioq_reserved :: u16
  ioq_ctl_code :: u32
  ioq_file_id :: file_id
  ioq_input_offset :: u32
  ioq_input_count :: u32
  ioq_max_input_response :: u32
  ioq_output_offset :: u32
  ioq_output_count :: u32
  ioq_max_output_response :: u32
  ioq_flags :: u32
  ioq_reserved2 :: u32
  ioq_input :: bytes

definition get_ioctl_request :: "bytes \<Rightarrow> (ioctl_request \<times> bytes) option" where
  "get_ioctl_request b = do {
     (structure_size, b) \<leftarrow> get16 b;
     (reserved, b) \<leftarrow> get16 b;
     (ctl_code, b) \<leftarrow> get32 b;
     (file_id, b) \<leftarrow> get_file_id b;
     (input_offset, b) \<leftarrow> get32 b;
     (input_count, b) \<leftarrow> get32 b;
     (max_input_response, b) \<leftarrow> get32 b;
     (output_offset, b) \<leftarrow> get32 b;
     (output_count, b) \<leftarrow> get32 b;
     (max_output_response, b) \<leftarrow> get32 b;
     (fl, b) \<leftarrow> get32 b;
     (reserved2, b) \<leftarrow> get32 b;
     (inp, b) \<leftarrow> get_bytes (unat input_count) b;
     Some (\<lparr>ioq_structure_size = structure_size, ioq_reserved = reserved,
            ioq_ctl_code = ctl_code, ioq_file_id = file_id, ioq_input_offset = input_offset,
            ioq_input_count = input_count, ioq_max_input_response = max_input_response,
            ioq_output_offset = output_offset, ioq_output_count = output_count,
            ioq_max_output_response = max_output_response, ioq_flags = fl, ioq_reserved2 = reserved2,
            ioq_input = inp\<rparr>, b) }"

definition put_ioctl_request :: "ioctl_request \<Rightarrow> bytes" where
  "put_ioctl_request m =
     le16 (ioq_structure_size m) @ le16 (ioq_reserved m) @ le32 (ioq_ctl_code m) @
     put_file_id (ioq_file_id m) @ le32 (ioq_input_offset m) @ le32 (ioq_input_count m) @
     le32 (ioq_max_input_response m) @ le32 (ioq_output_offset m) @ le32 (ioq_output_count m) @
     le32 (ioq_max_output_response m) @ le32 (ioq_flags m) @ le32 (ioq_reserved2 m) @ ioq_input m"

definition wf_ioctl_request :: "ioctl_request \<Rightarrow> bool" where
  "wf_ioctl_request m \<longleftrightarrow> length (ioq_input m) = (unat (ioq_input_count m))"

interpretation ioctl_request: codec get_ioctl_request put_ioctl_request wf_ioctl_request
proof
  fix m r assume "wf_ioctl_request m"
  then show "get_ioctl_request (put_ioctl_request m @ r) = Some (m, r)"
    by (simp add: get_ioctl_request_def put_ioctl_request_def wf_ioctl_request_def wire file_id.get_put wf_file_id_def)
next
  fix b m r assume "get_ioctl_request b = Some (m, r)"
  then show "wf_ioctl_request m" "b = put_ioctl_request m @ r"
    by (auto simp: get_ioctl_request_def put_ioctl_request_def wf_ioctl_request_def Option.bind_eq_Some_conv
        dest!: codec_dests file_id.get_canonical )
qed

definition ioctl_request_parse :: "bytes \<Rightarrow> ioctl_request option" where
  "ioctl_request_parse = parse_with get_ioctl_request"

record ioctl_response =
  ior_structure_size :: u16
  ior_reserved :: u16
  ior_ctl_code :: u32
  ior_file_id :: file_id
  ior_input_offset :: u32
  ior_input_count :: u32
  ior_output_offset :: u32
  ior_output_count :: u32
  ior_flags :: u32
  ior_reserved2 :: u32
  ior_output :: bytes

definition get_ioctl_response :: "bytes \<Rightarrow> (ioctl_response \<times> bytes) option" where
  "get_ioctl_response b = do {
     (structure_size, b) \<leftarrow> get16 b;
     (reserved, b) \<leftarrow> get16 b;
     (ctl_code, b) \<leftarrow> get32 b;
     (file_id, b) \<leftarrow> get_file_id b;
     (input_offset, b) \<leftarrow> get32 b;
     (input_count, b) \<leftarrow> get32 b;
     (output_offset, b) \<leftarrow> get32 b;
     (output_count, b) \<leftarrow> get32 b;
     (fl, b) \<leftarrow> get32 b;
     (reserved2, b) \<leftarrow> get32 b;
     (outp, b) \<leftarrow> get_bytes (unat output_count) b;
     Some (\<lparr>ior_structure_size = structure_size, ior_reserved = reserved,
            ior_ctl_code = ctl_code, ior_file_id = file_id, ior_input_offset = input_offset,
            ior_input_count = input_count, ior_output_offset = output_offset,
            ior_output_count = output_count, ior_flags = fl, ior_reserved2 = reserved2,
            ior_output = outp\<rparr>, b) }"

definition put_ioctl_response :: "ioctl_response \<Rightarrow> bytes" where
  "put_ioctl_response m =
     le16 (ior_structure_size m) @ le16 (ior_reserved m) @ le32 (ior_ctl_code m) @
     put_file_id (ior_file_id m) @ le32 (ior_input_offset m) @ le32 (ior_input_count m) @
     le32 (ior_output_offset m) @ le32 (ior_output_count m) @ le32 (ior_flags m) @
     le32 (ior_reserved2 m) @ ior_output m"

definition wf_ioctl_response :: "ioctl_response \<Rightarrow> bool" where
  "wf_ioctl_response m \<longleftrightarrow> length (ior_output m) = (unat (ior_output_count m))"

interpretation ioctl_response: codec get_ioctl_response put_ioctl_response wf_ioctl_response
proof
  fix m r assume "wf_ioctl_response m"
  then show "get_ioctl_response (put_ioctl_response m @ r) = Some (m, r)"
    by (simp add: get_ioctl_response_def put_ioctl_response_def wf_ioctl_response_def wire file_id.get_put wf_file_id_def)
next
  fix b m r assume "get_ioctl_response b = Some (m, r)"
  then show "wf_ioctl_response m" "b = put_ioctl_response m @ r"
    by (auto simp: get_ioctl_response_def put_ioctl_response_def wf_ioctl_response_def Option.bind_eq_Some_conv
        dest!: codec_dests file_id.get_canonical )
qed

definition ioctl_response_parse :: "bytes \<Rightarrow> ioctl_response option" where
  "ioctl_response_parse = parse_with get_ioctl_response"

record query_directory_request =
  qdq_structure_size :: u16
  qdq_file_information_class :: u8
  qdq_flags :: u8
  qdq_file_index :: u32
  qdq_file_id :: file_id
  qdq_file_name_offset :: u16
  qdq_file_name_length :: u16
  qdq_output_buffer_length :: u32
  qdq_file_name :: bytes

definition get_query_directory_request :: "bytes \<Rightarrow> (query_directory_request \<times> bytes) option" where
  "get_query_directory_request b = do {
     (structure_size, b) \<leftarrow> get16 b;
     (file_information_class, b) \<leftarrow> get8 b;
     (fl, b) \<leftarrow> get8 b;
     (file_index, b) \<leftarrow> get32 b;
     (file_id, b) \<leftarrow> get_file_id b;
     (file_name_offset, b) \<leftarrow> get16 b;
     (file_name_length, b) \<leftarrow> get16 b;
     (output_buffer_length, b) \<leftarrow> get32 b;
     (file_name, b) \<leftarrow> get_bytes (unat file_name_length) b;
     Some (\<lparr>qdq_structure_size = structure_size,
            qdq_file_information_class = file_information_class, qdq_flags = fl,
            qdq_file_index = file_index, qdq_file_id = file_id, qdq_file_name_offset = file_name_offset,
            qdq_file_name_length = file_name_length, qdq_output_buffer_length = output_buffer_length,
            qdq_file_name = file_name\<rparr>, b) }"

definition put_query_directory_request :: "query_directory_request \<Rightarrow> bytes" where
  "put_query_directory_request m =
     le16 (qdq_structure_size m) @ [qdq_file_information_class m] @ [qdq_flags m] @
     le32 (qdq_file_index m) @ put_file_id (qdq_file_id m) @ le16 (qdq_file_name_offset m) @
     le16 (qdq_file_name_length m) @ le32 (qdq_output_buffer_length m) @ qdq_file_name m"

definition wf_query_directory_request :: "query_directory_request \<Rightarrow> bool" where
  "wf_query_directory_request m \<longleftrightarrow> length (qdq_file_name m) = (unat (qdq_file_name_length m))"

interpretation query_directory_request: codec get_query_directory_request put_query_directory_request wf_query_directory_request
proof
  fix m r assume "wf_query_directory_request m"
  then show "get_query_directory_request (put_query_directory_request m @ r) = Some (m, r)"
    by (simp add: get_query_directory_request_def put_query_directory_request_def wf_query_directory_request_def wire file_id.get_put wf_file_id_def)
next
  fix b m r assume "get_query_directory_request b = Some (m, r)"
  then show "wf_query_directory_request m" "b = put_query_directory_request m @ r"
    by (auto simp: get_query_directory_request_def put_query_directory_request_def wf_query_directory_request_def Option.bind_eq_Some_conv
        dest!: codec_dests file_id.get_canonical )
qed

definition query_directory_request_parse :: "bytes \<Rightarrow> query_directory_request option" where
  "query_directory_request_parse = parse_with get_query_directory_request"

record query_directory_response =
  qdr_structure_size :: u16
  qdr_output_buffer_offset :: u16
  qdr_output_buffer_length :: u32
  qdr_buffer :: bytes

definition get_query_directory_response :: "bytes \<Rightarrow> (query_directory_response \<times> bytes) option" where
  "get_query_directory_response b = do {
     (structure_size, b) \<leftarrow> get16 b;
     (output_buffer_offset, b) \<leftarrow> get16 b;
     (output_buffer_length, b) \<leftarrow> get32 b;
     (buffer, b) \<leftarrow> get_bytes (unat output_buffer_length) b;
     Some (\<lparr>qdr_structure_size = structure_size, qdr_output_buffer_offset = output_buffer_offset,
            qdr_output_buffer_length = output_buffer_length, qdr_buffer = buffer\<rparr>, b) }"

definition put_query_directory_response :: "query_directory_response \<Rightarrow> bytes" where
  "put_query_directory_response m =
     le16 (qdr_structure_size m) @ le16 (qdr_output_buffer_offset m) @
     le32 (qdr_output_buffer_length m) @ qdr_buffer m"

definition wf_query_directory_response :: "query_directory_response \<Rightarrow> bool" where
  "wf_query_directory_response m \<longleftrightarrow> length (qdr_buffer m) = (unat (qdr_output_buffer_length m))"

interpretation query_directory_response: codec get_query_directory_response put_query_directory_response wf_query_directory_response
proof
  fix m r assume "wf_query_directory_response m"
  then show "get_query_directory_response (put_query_directory_response m @ r) = Some (m, r)"
    by (simp add: get_query_directory_response_def put_query_directory_response_def wf_query_directory_response_def wire)
next
  fix b m r assume "get_query_directory_response b = Some (m, r)"
  then show "wf_query_directory_response m" "b = put_query_directory_response m @ r"
    by (auto simp: get_query_directory_response_def put_query_directory_response_def wf_query_directory_response_def Option.bind_eq_Some_conv
        dest!: codec_dests )
qed

definition query_directory_response_parse :: "bytes \<Rightarrow> query_directory_response option" where
  "query_directory_response_parse = parse_with get_query_directory_response"

record query_info_request =
  qiq_structure_size :: u16
  qiq_info_type :: u8
  qiq_file_information_class :: u8
  qiq_output_buffer_length :: u32
  qiq_input_buffer_offset :: u16
  qiq_reserved :: u16
  qiq_input_buffer_length :: u32
  qiq_additional_information :: u32
  qiq_flags :: u32
  qiq_file_id :: file_id
  qiq_input_buffer :: bytes

definition get_query_info_request :: "bytes \<Rightarrow> (query_info_request \<times> bytes) option" where
  "get_query_info_request b = do {
     (structure_size, b) \<leftarrow> get16 b;
     (info_type, b) \<leftarrow> get8 b;
     (file_information_class, b) \<leftarrow> get8 b;
     (output_buffer_length, b) \<leftarrow> get32 b;
     (input_buffer_offset, b) \<leftarrow> get16 b;
     (reserved, b) \<leftarrow> get16 b;
     (input_buffer_length, b) \<leftarrow> get32 b;
     (additional_information, b) \<leftarrow> get32 b;
     (fl, b) \<leftarrow> get32 b;
     (file_id, b) \<leftarrow> get_file_id b;
     (input_buffer, b) \<leftarrow> get_bytes (unat input_buffer_length) b;
     Some (\<lparr>qiq_structure_size = structure_size, qiq_info_type = info_type,
            qiq_file_information_class = file_information_class,
            qiq_output_buffer_length = output_buffer_length,
            qiq_input_buffer_offset = input_buffer_offset, qiq_reserved = reserved,
            qiq_input_buffer_length = input_buffer_length,
            qiq_additional_information = additional_information, qiq_flags = fl, qiq_file_id = file_id,
            qiq_input_buffer = input_buffer\<rparr>, b) }"

definition put_query_info_request :: "query_info_request \<Rightarrow> bytes" where
  "put_query_info_request m =
     le16 (qiq_structure_size m) @ [qiq_info_type m] @ [qiq_file_information_class m] @
     le32 (qiq_output_buffer_length m) @ le16 (qiq_input_buffer_offset m) @
     le16 (qiq_reserved m) @ le32 (qiq_input_buffer_length m) @
     le32 (qiq_additional_information m) @ le32 (qiq_flags m) @ put_file_id (qiq_file_id m) @
     qiq_input_buffer m"

definition wf_query_info_request :: "query_info_request \<Rightarrow> bool" where
  "wf_query_info_request m \<longleftrightarrow> length (qiq_input_buffer m) = (unat (qiq_input_buffer_length m))"

interpretation query_info_request: codec get_query_info_request put_query_info_request wf_query_info_request
proof
  fix m r assume "wf_query_info_request m"
  then show "get_query_info_request (put_query_info_request m @ r) = Some (m, r)"
    by (simp add: get_query_info_request_def put_query_info_request_def wf_query_info_request_def wire file_id.get_put wf_file_id_def)
next
  fix b m r assume "get_query_info_request b = Some (m, r)"
  then show "wf_query_info_request m" "b = put_query_info_request m @ r"
    by (auto simp: get_query_info_request_def put_query_info_request_def wf_query_info_request_def Option.bind_eq_Some_conv
        dest!: codec_dests file_id.get_canonical )
qed

definition query_info_request_parse :: "bytes \<Rightarrow> query_info_request option" where
  "query_info_request_parse = parse_with get_query_info_request"

record query_info_response =
  qir_structure_size :: u16
  qir_output_buffer_offset :: u16
  qir_output_buffer_length :: u32
  qir_buffer :: bytes

definition get_query_info_response :: "bytes \<Rightarrow> (query_info_response \<times> bytes) option" where
  "get_query_info_response b = do {
     (structure_size, b) \<leftarrow> get16 b;
     (output_buffer_offset, b) \<leftarrow> get16 b;
     (output_buffer_length, b) \<leftarrow> get32 b;
     (buffer, b) \<leftarrow> get_bytes (unat output_buffer_length) b;
     Some (\<lparr>qir_structure_size = structure_size, qir_output_buffer_offset = output_buffer_offset,
            qir_output_buffer_length = output_buffer_length, qir_buffer = buffer\<rparr>, b) }"

definition put_query_info_response :: "query_info_response \<Rightarrow> bytes" where
  "put_query_info_response m =
     le16 (qir_structure_size m) @ le16 (qir_output_buffer_offset m) @
     le32 (qir_output_buffer_length m) @ qir_buffer m"

definition wf_query_info_response :: "query_info_response \<Rightarrow> bool" where
  "wf_query_info_response m \<longleftrightarrow> length (qir_buffer m) = (unat (qir_output_buffer_length m))"

interpretation query_info_response: codec get_query_info_response put_query_info_response wf_query_info_response
proof
  fix m r assume "wf_query_info_response m"
  then show "get_query_info_response (put_query_info_response m @ r) = Some (m, r)"
    by (simp add: get_query_info_response_def put_query_info_response_def wf_query_info_response_def wire)
next
  fix b m r assume "get_query_info_response b = Some (m, r)"
  then show "wf_query_info_response m" "b = put_query_info_response m @ r"
    by (auto simp: get_query_info_response_def put_query_info_response_def wf_query_info_response_def Option.bind_eq_Some_conv
        dest!: codec_dests )
qed

definition query_info_response_parse :: "bytes \<Rightarrow> query_info_response option" where
  "query_info_response_parse = parse_with get_query_info_response"

record set_info_request =
  siq_structure_size :: u16
  siq_info_type :: u8
  siq_file_information_class :: u8
  siq_buffer_length :: u32
  siq_buffer_offset :: u16
  siq_reserved :: u16
  siq_additional_information :: u32
  siq_file_id :: file_id
  siq_buffer :: bytes

definition get_set_info_request :: "bytes \<Rightarrow> (set_info_request \<times> bytes) option" where
  "get_set_info_request b = do {
     (structure_size, b) \<leftarrow> get16 b;
     (info_type, b) \<leftarrow> get8 b;
     (file_information_class, b) \<leftarrow> get8 b;
     (buffer_length, b) \<leftarrow> get32 b;
     (buffer_offset, b) \<leftarrow> get16 b;
     (reserved, b) \<leftarrow> get16 b;
     (additional_information, b) \<leftarrow> get32 b;
     (file_id, b) \<leftarrow> get_file_id b;
     (buffer, b) \<leftarrow> get_bytes (unat buffer_length) b;
     Some (\<lparr>siq_structure_size = structure_size, siq_info_type = info_type,
            siq_file_information_class = file_information_class, siq_buffer_length = buffer_length,
            siq_buffer_offset = buffer_offset, siq_reserved = reserved,
            siq_additional_information = additional_information, siq_file_id = file_id,
            siq_buffer = buffer\<rparr>, b) }"

definition put_set_info_request :: "set_info_request \<Rightarrow> bytes" where
  "put_set_info_request m =
     le16 (siq_structure_size m) @ [siq_info_type m] @ [siq_file_information_class m] @
     le32 (siq_buffer_length m) @ le16 (siq_buffer_offset m) @ le16 (siq_reserved m) @
     le32 (siq_additional_information m) @ put_file_id (siq_file_id m) @ siq_buffer m"

definition wf_set_info_request :: "set_info_request \<Rightarrow> bool" where
  "wf_set_info_request m \<longleftrightarrow> length (siq_buffer m) = (unat (siq_buffer_length m))"

interpretation set_info_request: codec get_set_info_request put_set_info_request wf_set_info_request
proof
  fix m r assume "wf_set_info_request m"
  then show "get_set_info_request (put_set_info_request m @ r) = Some (m, r)"
    by (simp add: get_set_info_request_def put_set_info_request_def wf_set_info_request_def wire file_id.get_put wf_file_id_def)
next
  fix b m r assume "get_set_info_request b = Some (m, r)"
  then show "wf_set_info_request m" "b = put_set_info_request m @ r"
    by (auto simp: get_set_info_request_def put_set_info_request_def wf_set_info_request_def Option.bind_eq_Some_conv
        dest!: codec_dests file_id.get_canonical )
qed

definition set_info_request_parse :: "bytes \<Rightarrow> set_info_request option" where
  "set_info_request_parse = parse_with get_set_info_request"

record set_info_response =
  sir_structure_size :: u16

definition get_set_info_response :: "bytes \<Rightarrow> (set_info_response \<times> bytes) option" where
  "get_set_info_response b = do {
     (structure_size, b) \<leftarrow> get16 b;
     Some (\<lparr>sir_structure_size = structure_size\<rparr>, b) }"

definition put_set_info_response :: "set_info_response \<Rightarrow> bytes" where
  "put_set_info_response m =
     le16 (sir_structure_size m)"

definition wf_set_info_response :: "set_info_response \<Rightarrow> bool" where
  "wf_set_info_response m \<longleftrightarrow> True"

interpretation set_info_response: codec get_set_info_response put_set_info_response wf_set_info_response
proof
  fix m r assume "wf_set_info_response m"
  then show "get_set_info_response (put_set_info_response m @ r) = Some (m, r)"
    by (simp add: get_set_info_response_def put_set_info_response_def wf_set_info_response_def wire)
next
  fix b m r assume "get_set_info_response b = Some (m, r)"
  then show "wf_set_info_response m" "b = put_set_info_response m @ r"
    by (auto simp: get_set_info_response_def put_set_info_response_def wf_set_info_response_def Option.bind_eq_Some_conv
        dest!: codec_dests )
qed

definition set_info_response_parse :: "bytes \<Rightarrow> set_info_response option" where
  "set_info_response_parse = parse_with get_set_info_response"

definition set_info_response_default :: set_info_response where
  "set_info_response_default = \<lparr>sir_structure_size = 2\<rparr>"

record change_notify_request =
  cnq_structure_size :: u16
  cnq_flags :: u16
  cnq_output_buffer_length :: u32
  cnq_file_id :: file_id
  cnq_completion_filter :: u32
  cnq_reserved :: u32

definition get_change_notify_request :: "bytes \<Rightarrow> (change_notify_request \<times> bytes) option" where
  "get_change_notify_request b = do {
     (structure_size, b) \<leftarrow> get16 b;
     (fl, b) \<leftarrow> get16 b;
     (output_buffer_length, b) \<leftarrow> get32 b;
     (file_id, b) \<leftarrow> get_file_id b;
     (completion_filter, b) \<leftarrow> get32 b;
     (reserved, b) \<leftarrow> get32 b;
     Some (\<lparr>cnq_structure_size = structure_size, cnq_flags = fl,
            cnq_output_buffer_length = output_buffer_length, cnq_file_id = file_id,
            cnq_completion_filter = completion_filter, cnq_reserved = reserved\<rparr>, b) }"

definition put_change_notify_request :: "change_notify_request \<Rightarrow> bytes" where
  "put_change_notify_request m =
     le16 (cnq_structure_size m) @ le16 (cnq_flags m) @ le32 (cnq_output_buffer_length m) @
     put_file_id (cnq_file_id m) @ le32 (cnq_completion_filter m) @ le32 (cnq_reserved m)"

definition wf_change_notify_request :: "change_notify_request \<Rightarrow> bool" where
  "wf_change_notify_request m \<longleftrightarrow> True"

interpretation change_notify_request: codec get_change_notify_request put_change_notify_request wf_change_notify_request
proof
  fix m r assume "wf_change_notify_request m"
  then show "get_change_notify_request (put_change_notify_request m @ r) = Some (m, r)"
    by (simp add: get_change_notify_request_def put_change_notify_request_def wf_change_notify_request_def wire file_id.get_put wf_file_id_def)
next
  fix b m r assume "get_change_notify_request b = Some (m, r)"
  then show "wf_change_notify_request m" "b = put_change_notify_request m @ r"
    by (auto simp: get_change_notify_request_def put_change_notify_request_def wf_change_notify_request_def Option.bind_eq_Some_conv
        dest!: codec_dests file_id.get_canonical )
qed

definition change_notify_request_parse :: "bytes \<Rightarrow> change_notify_request option" where
  "change_notify_request_parse = parse_with get_change_notify_request"

record change_notify_response =
  cnr_structure_size :: u16
  cnr_output_buffer_offset :: u16
  cnr_output_buffer_length :: u32
  cnr_buffer :: bytes

definition get_change_notify_response :: "bytes \<Rightarrow> (change_notify_response \<times> bytes) option" where
  "get_change_notify_response b = do {
     (structure_size, b) \<leftarrow> get16 b;
     (output_buffer_offset, b) \<leftarrow> get16 b;
     (output_buffer_length, b) \<leftarrow> get32 b;
     (buffer, b) \<leftarrow> get_bytes (unat output_buffer_length) b;
     Some (\<lparr>cnr_structure_size = structure_size, cnr_output_buffer_offset = output_buffer_offset,
            cnr_output_buffer_length = output_buffer_length, cnr_buffer = buffer\<rparr>, b) }"

definition put_change_notify_response :: "change_notify_response \<Rightarrow> bytes" where
  "put_change_notify_response m =
     le16 (cnr_structure_size m) @ le16 (cnr_output_buffer_offset m) @
     le32 (cnr_output_buffer_length m) @ cnr_buffer m"

definition wf_change_notify_response :: "change_notify_response \<Rightarrow> bool" where
  "wf_change_notify_response m \<longleftrightarrow> length (cnr_buffer m) = (unat (cnr_output_buffer_length m))"

interpretation change_notify_response: codec get_change_notify_response put_change_notify_response wf_change_notify_response
proof
  fix m r assume "wf_change_notify_response m"
  then show "get_change_notify_response (put_change_notify_response m @ r) = Some (m, r)"
    by (simp add: get_change_notify_response_def put_change_notify_response_def wf_change_notify_response_def wire)
next
  fix b m r assume "get_change_notify_response b = Some (m, r)"
  then show "wf_change_notify_response m" "b = put_change_notify_response m @ r"
    by (auto simp: get_change_notify_response_def put_change_notify_response_def wf_change_notify_response_def Option.bind_eq_Some_conv
        dest!: codec_dests )
qed

definition change_notify_response_parse :: "bytes \<Rightarrow> change_notify_response option" where
  "change_notify_response_parse = parse_with get_change_notify_response"

end
