(* ===== verification/Signing.thy ===== *)
theory Signing
  imports Text Codec
begin

text \<open>
  Message signing, key derivation and pre-authentication integrity: \<open>src/src/proto/crypto\<close>
  (\<open>sign.rs\<close>, \<open>kdf.rs\<close>, \<open>preauth.rs\<close>). The primitives come from the crates \<open>hmac\<close>, \<open>sha2\<close>,
  \<open>cmac\<close>, \<open>aes\<close>, \<open>md4\<close>, \<open>md-5\<close> and \<open>rc4\<close>, which are not part of the repository: they are the
  fields of a record that every definition takes, and \<open>crypto_ok\<close> states the one thing the code
  relies on, the length of their results. \<open>to_uppercase\<close> stands for the Unicode case tables behind
  \<open>str::to_uppercase\<close>; nothing is assumed of it. Feeding a \<open>Mac\<close> or a \<open>Digest\<close> in pieces is feeding it
  the concatenation.
\<close>

record crypto_lib =
  hmac_sha256 :: "bytes \<Rightarrow> bytes \<Rightarrow> bytes"
  aes_cmac :: "bytes \<Rightarrow> bytes \<Rightarrow> bytes"
  sha512 :: "bytes \<Rightarrow> bytes"
  md4 :: "bytes \<Rightarrow> bytes"
  hmac_md5 :: "bytes \<Rightarrow> bytes \<Rightarrow> bytes"
  rc4 :: "bytes \<Rightarrow> bytes \<Rightarrow> bytes"
  to_uppercase :: "rstring \<Rightarrow> rstring"

definition crypto_ok :: "crypto_lib \<Rightarrow> bool" where
  "crypto_ok c \<longleftrightarrow>
     (\<forall>k m. length (hmac_sha256 c k m) = 32) \<and> (\<forall>k m. length (aes_cmac c k m) = 16) \<and>
     (\<forall>m. length (sha512 c m) = 64) \<and> (\<forall>m. length (md4 c m) = 16) \<and>
     (\<forall>k m. length (hmac_md5 c k m) = 16) \<and> (\<forall>k m. length (rc4 c k m) = length m)"

text \<open>A concrete instance, for witnesses: checksums of the right lengths.\<close>

definition sample_sum :: "nat \<Rightarrow> bytes \<Rightarrow> bytes" where
  "sample_sum n b = replicate (n - 1) 0 @ [sum_list b]"

definition sample_crypto :: crypto_lib where
  "sample_crypto =
     \<lparr>hmac_sha256 = \<lambda>k m. sum_list (k @ m) # replicate 31 1,
      aes_cmac = \<lambda>k m. sample_sum 16 (k @ m), sha512 = sample_sum 64, md4 = sample_sum 16,
      hmac_md5 = \<lambda>k m. sample_sum 16 (k @ m), rc4 = \<lambda>k m. map (\<lambda>x. x + sum_list k) m,
      to_uppercase = to_ascii_uppercase\<rparr>"

lemma crypto_ok_sample [simp]: "crypto_ok sample_crypto"
  by (simp add: crypto_ok_def sample_crypto_def sample_sum_def)

lemma crypto_lengths:
  assumes "crypto_ok c"
  shows "length (hmac_sha256 c k m) = 32" "length (aes_cmac c k m) = 16"
    "length (sha512 c m) = 64" "length (md4 c m) = 16" "length (hmac_md5 c k m) = 16"
    "length (rc4 c k m) = length m"
  using assms by (simp_all add: crypto_ok_def)

section \<open>Signatures\<close>

datatype signing_algo = HmacSha256 | AesCmac

definition SIG_OFF :: nat where "SIG_OFF = 48"
definition SIG_LEN :: nat where "SIG_LEN = 16"

definition compute_mac_zeroed_signature ::
    "crypto_lib \<Rightarrow> bytes \<Rightarrow> bytes \<Rightarrow> signing_algo \<Rightarrow> bytes" where
  "compute_mac_zeroed_signature c msg key algo =
     (let prefix = take SIG_OFF msg;
          suffix = drop (SIG_OFF + SIG_LEN) msg;
          input = prefix @ replicate SIG_LEN 0 @ suffix
      in case algo of
           HmacSha256 \<Rightarrow> take SIG_LEN (hmac_sha256 c key input)
         | AesCmac \<Rightarrow> take SIG_LEN (aes_cmac c key input))"

definition sign :: "crypto_lib \<Rightarrow> bytes \<Rightarrow> bytes \<Rightarrow> signing_algo \<Rightarrow> proto_error + bytes" where
  "sign c msg key algo =
     (if length msg < 64 then Inl (Crypto ''message too short to sign'')
      else Inr (patch SIG_OFF (compute_mac_zeroed_signature c msg key algo) msg))"

text \<open>The loop that accumulates the differences of two 16-byte arrays.\<close>

definition constant_time_eq :: "bytes \<Rightarrow> bytes \<Rightarrow> bool" where
  "constant_time_eq a b = (foldl (\<lambda>diff i. diff OR (a ! i XOR b ! i)) (0 :: u8) [0..<SIG_LEN] = 0)"

definition verify :: "crypto_lib \<Rightarrow> bytes \<Rightarrow> bytes \<Rightarrow> signing_algo \<Rightarrow> proto_error + unit" where
  "verify c msg key algo =
     (if length msg < 64 then Inl (Crypto ''message too short to verify'')
      else
        let embedded = slice SIG_OFF SIG_LEN msg;
            computed = compute_mac_zeroed_signature c msg key algo
        in if constant_time_eq embedded computed then Inr ()
           else Inl (Crypto ''signature mismatch''))"

section \<open>Key derivation\<close>

definition smb2_kdf :: "crypto_lib \<Rightarrow> bytes \<Rightarrow> bytes \<Rightarrow> bytes \<Rightarrow> bytes" where
  "smb2_kdf c key label ctx =
     take 16 (hmac_sha256 c key ([0, 0, 0, 1] @ label @ [0] @ ctx @ [0, 0, 0, 0x80]))"

definition signing_key_30 :: "crypto_lib \<Rightarrow> bytes \<Rightarrow> bytes" where
  "signing_key_30 c session_key =
     smb2_kdf c session_key (map of_char ''SMB2AESCMAC'' @ [0]) (map of_char ''SmbSign'' @ [0])"

definition signing_key_311 :: "crypto_lib \<Rightarrow> bytes \<Rightarrow> bytes \<Rightarrow> bytes" where
  "signing_key_311 c session_key preauth_hash =
     smb2_kdf c session_key (map of_char ''SMBSigningKey'' @ [0]) preauth_hash"

section \<open>Pre-authentication integrity\<close>

text \<open>\<open>PreauthIntegrity\<close> is the running hash itself.\<close>

type_synonym preauth_integrity = bytes

definition preauth_new :: preauth_integrity where
  "preauth_new = replicate 64 0"

definition preauth_update :: "crypto_lib \<Rightarrow> preauth_integrity \<Rightarrow> bytes \<Rightarrow> preauth_integrity" where
  "preauth_update c h frame = sha512 c (h @ frame)"

section \<open>Properties\<close>

lemma xor_eq_0_iff: "a XOR b = 0 \<longleftrightarrow> a = (b :: u8)"
  by (metis xor.left_neutral xor.right_neutral xor_self_eq xor.assoc)

lemma foldl_or_zero:
  "foldl (\<lambda>d i. d OR f i) (x :: u8) is = 0 \<longleftrightarrow> x = 0 \<and> (\<forall>i \<in> set is. f i = 0)"
  by (induction "is" arbitrary: x) (auto simp: or_eq_0_iff)

lemma constant_time_eq_iff:
  assumes "length a = 16" and "length b = 16"
  shows "constant_time_eq a b \<longleftrightarrow> a = b"
proof -
  have "constant_time_eq a b \<longleftrightarrow> (\<forall>i < 16. a ! i XOR b ! i = 0)"
    by (auto simp: constant_time_eq_def foldl_or_zero SIG_LEN_def)
  also have "\<dots> \<longleftrightarrow> (\<forall>i < 16. a ! i = b ! i)"
    by (simp add: xor_eq_0_iff)
  finally show ?thesis using assms by (auto intro: nth_equalityI)
qed

lemma length_mac [simp]:
  "crypto_ok c \<Longrightarrow> length (compute_mac_zeroed_signature c msg key algo) = 16"
  by (simp add: compute_mac_zeroed_signature_def crypto_lengths SIG_LEN_def Let_def
      split: signing_algo.splits)

lemma verify_iff:
  assumes "crypto_ok c"
  shows "verify c msg key algo = Inr () \<longleftrightarrow>
    64 \<le> length msg \<and> slice SIG_OFF SIG_LEN msg = compute_mac_zeroed_signature c msg key algo"
  using assms
  by (auto simp: verify_def Let_def constant_time_eq_iff SIG_OFF_def SIG_LEN_def)

text \<open>The signature covers everything but the signature field, whatever that field held.\<close>

lemma mac_ignores_signature:
  assumes "length sig = 16" and "64 \<le> length msg"
  shows "compute_mac_zeroed_signature c (patch SIG_OFF sig msg) key algo
    = compute_mac_zeroed_signature c msg key algo"
  using assms by (simp add: compute_mac_zeroed_signature_def patch_def SIG_OFF_def SIG_LEN_def)

lemma length_smb2_kdf [simp]: "crypto_ok c \<Longrightarrow> length (smb2_kdf c key l x) = 16"
  by (simp add: smb2_kdf_def crypto_lengths)

lemma length_signing_keys [simp]:
  "crypto_ok c \<Longrightarrow> length (signing_key_30 c k) = 16"
  "crypto_ok c \<Longrightarrow> length (signing_key_311 c k h) = 16"
  by (simp_all add: signing_key_30_def signing_key_311_def)

lemma length_preauth [simp]:
  "length preauth_new = 64" "crypto_ok c \<Longrightarrow> length (preauth_update c h f) = 64"
  by (simp_all add: preauth_new_def preauth_update_def crypto_lengths)

lemma sign_verifies:
  assumes "crypto_ok c" and "sign c msg key algo = Inr m"
  shows "verify c m key algo = Inr () \<and> length m = length msg \<and>
    take 48 m = take 48 msg \<and> drop 64 m = drop 64 msg"
proof (intro conjI)
  have len: "64 \<le> length msg"
    and m: "m = patch SIG_OFF (compute_mac_zeroed_signature c msg key algo) msg"
    using assms(2) by (auto simp: sign_def split: if_splits)
  let ?mac = "compute_mac_zeroed_signature c msg key algo"
  have mac: "length ?mac = 16" using assms(1) by simp
  show "verify c m key algo = Inr ()"
    using assms(1) len mac
    by (simp add: verify_iff m mac_ignores_signature) (simp add: SIG_OFF_def SIG_LEN_def)
  show "length m = length msg" using len mac by (simp add: m SIG_OFF_def)
  show "take 48 m = take 48 msg" using len mac by (simp add: m patch_def SIG_OFF_def)
  show "drop 64 m = drop 64 msg" using len mac by (simp add: m patch_def SIG_OFF_def)
qed

text \<open>
  C33: Signing then verifying. The MAC of a message is the first 16 bytes of HMAC-SHA-256 or of
  AES-CMAC, as the algorithm says, under the key, over the whole message with bytes 48 to 63
  zeroed. A signed message carries the MAC of the original in those bytes and differs from it
  nowhere else, and it verifies under the same key and algorithm; and any message verifies exactly
  when it has at least the 64 bytes of a header and carries its own MAC there.
\<close>

theorem verify_sign:
  assumes "crypto_ok c" and "sign c msg key algo = Inr m"
  shows "let mac = (\<lambda>x. take 16 ((case algo of HmacSha256 \<Rightarrow> hmac_sha256 c key
        | AesCmac \<Rightarrow> aes_cmac c key) (take 48 x @ replicate 16 0 @ drop 64 x)))
    in verify c m key algo = Inr () \<and> m = take 48 msg @ mac msg @ drop 64 msg \<and>
      length m = length msg \<and>
      (verify c other key algo = Inr () \<longleftrightarrow> 64 \<le> length other \<and> take 16 (drop 48 other) = mac other)"
proof -
  have mac: "compute_mac_zeroed_signature c x key algo = take 16 ((case algo of
      HmacSha256 \<Rightarrow> hmac_sha256 c key | AesCmac \<Rightarrow> aes_cmac c key)
      (take 48 x @ replicate 16 0 @ drop 64 x))" for x
    by (simp add: compute_mac_zeroed_signature_def Let_def SIG_OFF_def SIG_LEN_def split: signing_algo.split)
  have len: "length (compute_mac_zeroed_signature c msg key algo) = 16"
    using assms(1) by (simp add: SIG_LEN_def)
  have "m = take 48 msg @ compute_mac_zeroed_signature c msg key algo @ drop 64 msg"
    using assms(2) len by (auto simp: sign_def patch_def SIG_OFF_def split: if_splits)
  moreover have "verify c other key algo = Inr () \<longleftrightarrow> 64 \<le> length other \<and>
      take 16 (drop 48 other) = compute_mac_zeroed_signature c other key algo"
    using verify_iff [OF assms(1)] by (simp add: SIG_OFF_def SIG_LEN_def slice_def)
  ultimately show ?thesis
    using sign_verifies [OF assms] unfolding Let_def mac by blast
qed

theorem verify_sign_witness:
  "\<exists>m. sign sample_crypto (replicate 70 5) (replicate 16 3) HmacSha256 = Inr m \<and>
     verify sample_crypto m (replicate 16 3) HmacSha256 = Inr () \<and>
     m = replicate 48 5 @ take 16 (hmac_sha256 sample_crypto (replicate 16 3)
       (replicate 48 5 @ replicate 16 0 @ replicate 6 5)) @ replicate 6 5 \<and> m \<noteq> replicate 70 5"
proof -
  obtain m where m: "sign sample_crypto (replicate 70 5) (replicate 16 3) HmacSha256 = Inr m"
    by (simp add: sign_def)
  have "m \<noteq> replicate 70 5"
  proof -
    have "m ! 50 = 1"
      using m by (auto simp: sign_def patch_def SIG_OFF_def SIG_LEN_def sample_crypto_def
          compute_mac_zeroed_signature_def Let_def nth_append nth_Cons')
    then show ?thesis by auto
  qed
  moreover have "verify sample_crypto m (replicate 16 3) HmacSha256 = Inr ()"
    using verify_sign [OF crypto_ok_sample m] unfolding Let_def by blast
  moreover have "m = replicate 48 5 @ take 16 (hmac_sha256 sample_crypto (replicate 16 3)
        (replicate 48 5 @ replicate 16 0 @ replicate 6 5)) @ replicate 6 5"
    using verify_sign [OF crypto_ok_sample m, of "[]"] unfolding Let_def by simp
  ultimately show ?thesis using m by blast
qed

end
