(* ===== verification/Spnego.thy ===== *)
theory Spnego
  imports Codec
begin

text \<open>
  The DER codec for SPNEGO tokens, \<open>src/src/proto/auth/spnego.rs\<close>. Positions are indices into
  the buffer, as in the code. Lengths are 64-bit there; every length that is read has at most
  four bytes and every buffer comes from a frame below 16 MiB, so no sum overflows.
\<close>

definition TAG_SEQUENCE :: u8 where "TAG_SEQUENCE = 0x30"
definition TAG_OBJECT :: u8 where "TAG_OBJECT = 0x06"
definition TAG_OCTET :: u8 where "TAG_OCTET = 0x04"
definition TAG_ENUMERATED :: u8 where "TAG_ENUMERATED = 0x0a"
definition TAG_APP_0 :: u8 where "TAG_APP_0 = 0x60"
definition TAG_CTX_0 :: u8 where "TAG_CTX_0 = 0xa0"
definition TAG_CTX_1 :: u8 where "TAG_CTX_1 = 0xa1"
definition TAG_CTX_2 :: u8 where "TAG_CTX_2 = 0xa2"
definition TAG_CTX_3 :: u8 where "TAG_CTX_3 = 0xa3"

lemmas tag_defs = TAG_SEQUENCE_def TAG_OBJECT_def TAG_OCTET_def TAG_ENUMERATED_def TAG_APP_0_def
  TAG_CTX_0_def TAG_CTX_1_def TAG_CTX_2_def TAG_CTX_3_def

definition OID_SPNEGO :: bytes where "OID_SPNEGO = [0x2b, 0x06, 0x01, 0x05, 0x05, 0x02]"
definition OID_NTLMSSP :: bytes where
  "OID_NTLMSSP = [0x2b, 0x06, 0x01, 0x04, 0x01, 0x82, 0x37, 0x02, 0x02, 0x0a]"

datatype neg_state = AcceptCompleted | AcceptIncomplete | Reject | RequestMic

primrec neg_state_byte :: "neg_state \<Rightarrow> u8" where
  "neg_state_byte AcceptCompleted = 0"
| "neg_state_byte AcceptIncomplete = 1"
| "neg_state_byte Reject = 2"
| "neg_state_byte RequestMic = 3"

definition neg_state_from_byte :: "u8 \<Rightarrow> proto_error + neg_state" where
  "neg_state_from_byte b =
     (if b = 0 then Inr AcceptCompleted else if b = 1 then Inr AcceptIncomplete
      else if b = 2 then Inr Reject else if b = 3 then Inr RequestMic
      else Inl (Auth ''invalid NegState''))"

section \<open>Lengths, tags and values\<close>

text \<open>The loop that fills \<open>tmp\<close> with the bytes of the length, least significant first.\<close>

fun min_le :: "nat \<Rightarrow> bytes" where
  "min_le n = (if n = 0 then [] else of_nat (n mod 256) # min_le (n div 256))"

declare min_le.simps [simp del]

definition der_len :: "nat \<Rightarrow> bytes" where
  "der_len n =
     (if n < 0x80 then [of_nat n]
      else let tmp = min_le n in (0x80 OR of_nat (length tmp)) # rev tmp)"

definition read_len :: "bytes \<Rightarrow> nat \<Rightarrow> proto_error + (nat \<times> nat)" where
  "read_len buf pos =
     (if length buf \<le> pos then Inl (Auth ''DER length truncated'')
      else
        let first = buf ! pos in
        if first < 0x80 then Inr (unat first, pos + 1)
        else
          let nb = unat (first AND 0x7f) in
          if nb = 0 \<or> 4 < nb then Inl (Auth ''DER length form unsupported'')
          else if length buf < pos + 1 + nb then Inl (Auth ''DER length truncated'')
          else Inr (foldl (\<lambda>v b. v * 256 + unat b) 0 (slice (pos + 1) nb buf), pos + 1 + nb))"

definition read_any_tlv :: "bytes \<Rightarrow> nat \<Rightarrow> proto_error + (u8 \<times> bytes \<times> nat)" where
  "read_any_tlv buf pos =
     (if length buf \<le> pos then Inl (Auth ''DER tag truncated'')
      else attempt (read_len buf (pos + 1)) (\<lambda>(len, after_len).
        if length buf < after_len + len then Inl (Auth ''DER content truncated'')
        else Inr (buf ! pos, slice after_len len buf, after_len + len)))"

definition read_tlv :: "bytes \<Rightarrow> nat \<Rightarrow> u8 \<Rightarrow> proto_error + (bytes \<times> nat)" where
  "read_tlv buf pos expected_tag =
     (if length buf \<le> pos then Inl (Auth ''DER tag truncated'')
      else if buf ! pos \<noteq> expected_tag then Inl (Auth ''unexpected DER tag'')
      else attempt (read_len buf (pos + 1)) (\<lambda>(len, after_len).
        if length buf < after_len + len then Inl (Auth ''DER content truncated'')
        else Inr (slice after_len len buf, after_len + len)))"

definition write_tlv :: "u8 \<Rightarrow> bytes \<Rightarrow> bytes" where
  "write_tlv tag content = tag # der_len (length content) @ content"

lemma read_len_advances: "read_len buf pos = Inr (len, nxt) \<Longrightarrow> pos < nxt"
  by (auto simp: read_len_def Let_def split: if_splits)

lemma read_any_tlv_advances: "read_any_tlv buf pos = Inr (tag, content, nxt) \<Longrightarrow> pos < nxt"
  by (auto simp: read_any_tlv_def attempt_eq_Inr split: if_splits dest!: read_len_advances)

lemma read_tlv_advances: "read_tlv buf pos tag = Inr (content, nxt) \<Longrightarrow> pos < nxt"
  by (auto simp: read_tlv_def attempt_eq_Inr split: if_splits dest!: read_len_advances)

section \<open>Tokens\<close>

record neg_token_init =
  init_mech_types :: "bytes list"
  init_mech_token :: "bytes option"

record neg_token_resp =
  resp_neg_state :: "neg_state option"
  resp_supported_mech :: "bytes option"
  resp_response_token :: "bytes option"
  resp_mech_list_mic :: "bytes option"

function read_mech_types :: "bytes \<Rightarrow> nat \<Rightarrow> proto_error + bytes list" where
  "read_mech_types mt_seq p =
     (if length mt_seq \<le> p then Inr []
      else attempt (read_tlv mt_seq p TAG_OBJECT) (\<lambda>(oid, e).
        attempt (read_mech_types mt_seq e) (\<lambda>rest. Inr (oid # rest))))"
  by pat_completeness auto

termination
  by (relation "measure (\<lambda>(mt_seq, p). length mt_seq - p)")
    (auto dest: read_tlv_advances)

function parse_init_fields ::
    "bytes \<Rightarrow> nat \<Rightarrow> neg_token_init \<Rightarrow> proto_error + neg_token_init" where
  "parse_init_fields seq_body pos t =
     (if length seq_body \<le> pos then Inr t
      else attempt (read_any_tlv seq_body pos) (\<lambda>(tag, content, nxt).
        attempt
          (if tag = TAG_CTX_0 then
             attempt (read_tlv content 0 TAG_SEQUENCE) (\<lambda>(mt_seq, _).
               attempt (read_mech_types mt_seq 0) (\<lambda>oids.
                 Inr (t\<lparr>init_mech_types := init_mech_types t @ oids\<rparr>)))
           else if tag = TAG_CTX_2 then
             attempt (read_tlv content 0 TAG_OCTET) (\<lambda>(oct, _).
               Inr (t\<lparr>init_mech_token := Some oct\<rparr>))
           else Inr t)
          (\<lambda>t'. parse_init_fields seq_body nxt t')))"
  by pat_completeness auto

termination
  by (relation "measure (\<lambda>(seq_body, pos, t). length seq_body - pos)")
    (auto dest: read_any_tlv_advances)

definition parse_neg_token_init_body :: "bytes \<Rightarrow> proto_error + neg_token_init" where
  "parse_neg_token_init_body inner =
     attempt (read_tlv inner 0 TAG_SEQUENCE) (\<lambda>(seq_body, _).
       parse_init_fields seq_body 0 \<lparr>init_mech_types = [], init_mech_token = None\<rparr>)"

definition decode_init_token :: "bytes \<Rightarrow> proto_error + neg_token_init" where
  "decode_init_token buf =
     attempt (read_tlv buf 0 TAG_APP_0) (\<lambda>(gss_inner, _).
       attempt (read_tlv gss_inner 0 TAG_OBJECT) (\<lambda>(mech, after_mech).
         if mech \<noteq> OID_SPNEGO then Inl (Auth ''not an SPNEGO token'')
         else attempt (read_tlv gss_inner after_mech TAG_CTX_0) (\<lambda>(init_inner, _).
           parse_neg_token_init_body init_inner)))"

definition resp_default :: neg_token_resp where
  "resp_default = \<lparr>resp_neg_state = None, resp_supported_mech = None,
     resp_response_token = None, resp_mech_list_mic = None\<rparr>"

definition resp_field ::
    "u8 \<Rightarrow> bytes \<Rightarrow> neg_token_resp \<Rightarrow> proto_error + neg_token_resp" where
  "resp_field tag content t =
     (if tag = TAG_CTX_0 then
        attempt (read_tlv content 0 TAG_ENUMERATED) (\<lambda>(en, _).
          if length en \<noteq> 1 then Inl (Auth ''NegState ENUMERATED not 1 byte'')
          else attempt (neg_state_from_byte (en ! 0)) (\<lambda>s. Inr (t\<lparr>resp_neg_state := Some s\<rparr>)))
      else if tag = TAG_CTX_1 then
        attempt (read_tlv content 0 TAG_OBJECT) (\<lambda>(oid, _).
          Inr (t\<lparr>resp_supported_mech := Some oid\<rparr>))
      else if tag = TAG_CTX_2 then
        attempt (read_tlv content 0 TAG_OCTET) (\<lambda>(oct, _).
          Inr (t\<lparr>resp_response_token := Some oct\<rparr>))
      else if tag = TAG_CTX_3 then
        attempt (read_tlv content 0 TAG_OCTET) (\<lambda>(oct, _).
          Inr (t\<lparr>resp_mech_list_mic := Some oct\<rparr>))
      else Inr t)"

function parse_resp_fields ::
    "bytes \<Rightarrow> nat \<Rightarrow> neg_token_resp \<Rightarrow> proto_error + neg_token_resp" where
  "parse_resp_fields seq_body pos t =
     (if length seq_body \<le> pos then Inr t
      else attempt (read_any_tlv seq_body pos) (\<lambda>(tag, content, nxt).
        attempt (resp_field tag content t) (\<lambda>t'. parse_resp_fields seq_body nxt t')))"
  by pat_completeness auto

termination
  by (relation "measure (\<lambda>(seq_body, pos, t). length seq_body - pos)")
    (auto dest: read_any_tlv_advances)

definition decode_resp_token :: "bytes \<Rightarrow> proto_error + neg_token_resp" where
  "decode_resp_token buf =
     attempt (read_tlv buf 0 TAG_CTX_1) (\<lambda>(resp_inner, _).
       attempt (read_tlv resp_inner 0 TAG_SEQUENCE) (\<lambda>(seq_body, _).
         parse_resp_fields seq_body 0 resp_default))"

declare read_mech_types.simps [simp del] parse_init_fields.simps [simp del]
  parse_resp_fields.simps [simp del]

definition encode_init_response :: bytes where
  "encode_init_response =
     (let mech_types_seq = write_tlv TAG_OBJECT OID_NTLMSSP;
          mech_types_outer = write_tlv TAG_SEQUENCE mech_types_seq;
          mech_types_ctx0 = write_tlv TAG_CTX_0 mech_types_outer;
          neg_token_init = write_tlv TAG_SEQUENCE mech_types_ctx0;
          choice_init = write_tlv TAG_CTX_0 neg_token_init;
          gss_inner = write_tlv TAG_OBJECT OID_SPNEGO @ choice_init
      in write_tlv TAG_APP_0 gss_inner)"

definition opt_field :: "u8 \<Rightarrow> u8 \<Rightarrow> bytes option \<Rightarrow> bytes" where
  "opt_field ctx tag v = (case v of None \<Rightarrow> [] | Some x \<Rightarrow> write_tlv ctx (write_tlv tag x))"

definition encode_resp_token ::
    "neg_state \<Rightarrow> bytes option \<Rightarrow> bytes option \<Rightarrow> bytes option \<Rightarrow> bytes" where
  "encode_resp_token state supported_mech response_token mech_list_mic =
     (let sq = write_tlv TAG_CTX_0 (write_tlv TAG_ENUMERATED [neg_state_byte state]) @
               opt_field TAG_CTX_1 TAG_OBJECT supported_mech @
               opt_field TAG_CTX_2 TAG_OCTET response_token @
               opt_field TAG_CTX_3 TAG_OCTET mech_list_mic
      in write_tlv TAG_CTX_1 (write_tlv TAG_SEQUENCE sq))"

section \<open>Round trips\<close>

lemma neg_state_from_to [simp]: "neg_state_from_byte (neg_state_byte s) = Inr s"
  by (cases s) (simp_all add: neg_state_from_byte_def)

lemma foldl_be: "foldl (\<lambda>v b. v * 256 + unat b) 0 (rev bs) = nat_le bs"
  by (induction bs) (auto simp: algebra_simps)

lemma nat_le_min_le: "nat_le (min_le n) = n"
proof (induction n rule: min_le.induct)
  case (1 n)
  show ?case
  proof (cases "n = 0")
    case True
    then show ?thesis by (simp add: min_le.simps)
  next
    case False
    then have "nat_le (min_le n) = n mod 256 + 256 * (n div 256)"
      using 1 by (subst min_le.simps) simp
    then show ?thesis by simp
  qed
qed

lemma length_min_le: "n < 256 ^ k \<Longrightarrow> length (min_le n) \<le> k"
proof (induction k arbitrary: n)
  case 0
  then show ?case by (simp add: min_le.simps)
next
  case (Suc k)
  then have "n div 256 < 256 ^ k" by (simp add: less_mult_imp_div_less mult.commute)
  then show ?case using Suc.IH by (subst min_le.simps) simp
qed

lemma min_le_nonempty: "0 < n \<Longrightarrow> min_le n \<noteq> []"
  by (subst min_le.simps) simp

lemma long_form_bits:
  assumes "0 < k" and "k \<le> 4"
  shows "\<not> (0x80 OR of_nat k :: u8) < 0x80" and "unat ((0x80 OR of_nat k :: u8) AND 0x7f) = k"
proof -
  from assms have "k = 1 \<or> k = 2 \<or> k = 3 \<or> k = 4" by auto
  then show "\<not> (0x80 OR of_nat k :: u8) < 0x80" "unat ((0x80 OR of_nat k :: u8) AND 0x7f) = k"
    by auto
qed

lemma read_len_der_len:
  assumes "n < 2 ^ 32"
  shows "read_len (pre @ der_len n @ r) (length pre) = Inr (n, length pre + length (der_len n))"
proof (cases "n < 0x80")
  case True
  then have "unat (of_nat n :: u8) = n" by (simp add: unat_of_nat take_bit_eq_mod)
  with True show ?thesis
    by (simp add: read_len_def der_len_def nth_append word_less_nat_alt)
next
  case False
  define tmp where "tmp = min_le n"
  have k: "length tmp \<le> 4"
    using length_min_le [of n 4] assms by (simp add: tmp_def)
  have pos: "0 < length tmp" using False min_le_nonempty [of n] by (simp add: tmp_def)
  have val: "nat_le tmp = n" by (simp add: tmp_def nat_le_min_le)
  have sl: "slice (Suc (length pre)) (length tmp) (pre @ x # rev tmp @ r) = rev tmp" for x
    by (simp add: slice_def)
  show ?thesis
    using False k pos long_form_bits [of "length tmp"]
    by (simp add: read_len_def der_len_def Let_def nth_append sl foldl_be val flip: tmp_def)
qed

lemma read_any_tlv_write:
  assumes "length c < 2 ^ 32"
  shows "read_any_tlv (pre @ write_tlv t c @ r) (length pre)
    = Inr (t, c, length pre + length (write_tlv t c))"
proof -
  have "read_len ((pre @ [t]) @ der_len (length c) @ c @ r) (length (pre @ [t]))
      = Inr (length c, length (pre @ [t]) + length (der_len (length c)))"
    by (rule read_len_der_len [OF assms])
  moreover have "slice (length (pre @ [t]) + length (der_len (length c))) (length c)
      ((pre @ t # der_len (length c)) @ c @ r) = c"
    by (rule slice_at_append) simp_all
  ultimately show ?thesis
    by (simp add: read_any_tlv_def write_tlv_def nth_append)
qed

lemma read_tlv_write:
  assumes "length c < 2 ^ 32"
  shows "read_tlv (pre @ write_tlv t c @ r) (length pre) t
    = Inr (c, length pre + length (write_tlv t c))"
proof -
  have "read_tlv b p t = attempt (read_any_tlv b p) (\<lambda>(tag, c, e). Inr (c, e))"
    if "p < length b" "b ! p = t" for b p
    using that by (auto simp: read_tlv_def read_any_tlv_def attempt_def split: sum.splits)
  with read_any_tlv_write [OF assms, of pre t r] show ?thesis
    by (simp add: write_tlv_def nth_append)
qed

lemma read_tlv_write_0:
  "length c < 2 ^ 32 \<Longrightarrow> read_tlv (write_tlv t c) 0 t = Inr (c, length (write_tlv t c))"
  using read_tlv_write [of c "[]" t "[]"] by simp

lemma parse_resp_fields_end [simp]: "parse_resp_fields b (length b) t = Inr t"
  by (subst parse_resp_fields.simps) simp

lemma parse_resp_fields_step:
  assumes "length c < 2 ^ 32"
  shows "parse_resp_fields (pre @ write_tlv tag c @ r) (length pre) t =
    attempt (resp_field tag c t)
      (\<lambda>t'. parse_resp_fields (pre @ write_tlv tag c @ r) (length (pre @ write_tlv tag c)) t')"
  by (subst parse_resp_fields.simps)
    (simp add: read_any_tlv_write [OF assms], simp add: write_tlv_def)

lemma length_write_tlv: "length c < 2 ^ 32 \<Longrightarrow> length (write_tlv t c) \<le> length c + 6"
  using length_min_le [of "length c" 4] by (simp add: write_tlv_def der_len_def Let_def)

definition small :: "bytes option \<Rightarrow> bool" where
  "small v \<longleftrightarrow> (case v of None \<Rightarrow> True | Some x \<Rightarrow> length x < 2 ^ 24)"

lemma small_field:
  assumes "small v" and "v = Some x"
  shows "length x < 2 ^ 32" and "length (write_tlv tag x) < 2 ^ 32"
  using assms length_write_tlv [of x tag] by (simp_all add: small_def)

lemma opt_step:
  assumes "small v" and "v = None \<Longrightarrow> t' = t"
    and "\<And>x. length x < 2 ^ 32 \<Longrightarrow> v = Some x \<Longrightarrow> resp_field ctx (write_tlv tag x) t = Inr t'"
  shows "parse_resp_fields (pre @ opt_field ctx tag v @ r) (length pre) t =
    parse_resp_fields (pre @ opt_field ctx tag v @ r) (length (pre @ opt_field ctx tag v)) t'"
proof (cases v)
  case None
  with assms(2) show ?thesis by (simp add: opt_field_def)
next
  case (Some x)
  note sizes = small_field [OF assms(1) Some]
  with assms(3) [OF sizes(1) Some] Some show ?thesis
    by (simp add: opt_field_def parse_resp_fields_step)
qed

lemma length_opt_field: "small v \<Longrightarrow> length (opt_field ctx tag v) \<le> 2 ^ 24 + 12"
  using length_write_tlv [of "the v" tag] length_write_tlv [of "write_tlv tag (the v)" ctx]
  by (auto simp: opt_field_def small_def split: option.splits)

lemma resp_field_simps:
  "resp_field TAG_CTX_0 (write_tlv TAG_ENUMERATED [neg_state_byte s]) t
     = Inr (t\<lparr>resp_neg_state := Some s\<rparr>)"
  "length x < 2 ^ 32 \<Longrightarrow> resp_field TAG_CTX_1 (write_tlv TAG_OBJECT x) t
     = Inr (t\<lparr>resp_supported_mech := Some x\<rparr>)"
  "length x < 2 ^ 32 \<Longrightarrow> resp_field TAG_CTX_2 (write_tlv TAG_OCTET x) t
     = Inr (t\<lparr>resp_response_token := Some x\<rparr>)"
  "length x < 2 ^ 32 \<Longrightarrow> resp_field TAG_CTX_3 (write_tlv TAG_OCTET x) t
     = Inr (t\<lparr>resp_mech_list_mic := Some x\<rparr>)"
  by (simp_all add: resp_field_def read_tlv_write_0, simp_all add: tag_defs read_tlv_write_0)

text \<open>The fields the server writes, in their order, are read back one after the other.\<close>

definition resp_body :: "neg_state \<Rightarrow> bytes option \<Rightarrow> bytes option \<Rightarrow> bytes option \<Rightarrow> bytes" where
  "resp_body s mech tok mic = write_tlv TAG_CTX_0 (write_tlv TAG_ENUMERATED [neg_state_byte s]) @
     opt_field TAG_CTX_1 TAG_OBJECT mech @ opt_field TAG_CTX_2 TAG_OCTET tok @
     opt_field TAG_CTX_3 TAG_OCTET mic"

lemma length_state_field [simp]:
  "length (write_tlv TAG_ENUMERATED [x]) = 3"
  "length (write_tlv TAG_CTX_0 (write_tlv TAG_ENUMERATED [x])) = 5"
  by (simp_all add: write_tlv_def der_len_def)

lemma length_resp_body:
  assumes "small mech" and "small tok" and "small mic"
  shows "length (resp_body s mech tok mic) < 2 ^ 26"
  using length_opt_field [OF assms(1), of TAG_CTX_1 TAG_OBJECT]
    length_opt_field [OF assms(2), of TAG_CTX_2 TAG_OCTET]
    length_opt_field [OF assms(3), of TAG_CTX_3 TAG_OCTET]
  by (simp add: resp_body_def)

lemma parse_resp_body:
  assumes "small mech" and "small tok" and "small mic"
  shows "parse_resp_fields (resp_body s mech tok mic) 0 resp_default =
    Inr \<lparr>resp_neg_state = Some s, resp_supported_mech = mech, resp_response_token = tok,
         resp_mech_list_mic = mic\<rparr>"
proof -
  let ?A = "write_tlv TAG_CTX_0 (write_tlv TAG_ENUMERATED [neg_state_byte s])"
  let ?B = "opt_field TAG_CTX_1 TAG_OBJECT mech"
  let ?C = "opt_field TAG_CTX_2 TAG_OCTET tok"
  let ?D = "opt_field TAG_CTX_3 TAG_OCTET mic"
  let ?sq = "?A @ ?B @ ?C @ ?D"
  let ?t1 = "resp_default\<lparr>resp_neg_state := Some s\<rparr>"
  let ?t2 = "?t1\<lparr>resp_supported_mech := mech\<rparr>"
  let ?t3 = "?t2\<lparr>resp_response_token := tok\<rparr>"
  let ?t4 = "?t3\<lparr>resp_mech_list_mic := mic\<rparr>"
  have "parse_resp_fields ?sq 0 resp_default = parse_resp_fields ?sq (length ?A) ?t1"
    using parse_resp_fields_step [of _ "[]" TAG_CTX_0 "?B @ ?C @ ?D" resp_default]
    by (simp add: resp_field_simps)
  also have "\<dots> = parse_resp_fields ?sq (length (?A @ ?B)) ?t2"
    using opt_step [OF assms(1), of ?t2 ?t1 TAG_CTX_1 TAG_OBJECT ?A "?C @ ?D"]
    by (simp add: resp_field_simps resp_default_def)
  also have "\<dots> = parse_resp_fields ?sq (length (?A @ ?B @ ?C)) ?t3"
    using opt_step [OF assms(2), of ?t3 ?t2 TAG_CTX_2 TAG_OCTET "?A @ ?B" ?D]
    by (simp add: resp_field_simps resp_default_def)
  also have "\<dots> = parse_resp_fields ?sq (length ?sq) ?t4"
    using opt_step [OF assms(3), of ?t4 ?t3 TAG_CTX_3 TAG_OCTET "?A @ ?B @ ?C" "[]"]
    by (simp add: resp_field_simps resp_default_def)
  finally show ?thesis by (simp only: resp_body_def parse_resp_fields_end) (simp add: resp_default_def)
qed

text \<open>
  SPNEGO answers survive the wire: decoding the token that the server encodes gives back the
  state and every optional field that was passed in, for all fields below 16 MiB (any frame is).
\<close>

theorem decode_encode_resp_token:
  assumes "small mech" and "small tok" and "small mic"
  shows "decode_resp_token (encode_resp_token s mech tok mic) =
    Inr \<lparr>resp_neg_state = Some s, resp_supported_mech = mech, resp_response_token = tok,
         resp_mech_list_mic = mic\<rparr>"
proof -
  let ?b = "resp_body s mech tok mic"
  have b: "length ?b < 2 ^ 32" using length_resp_body [OF assms, of s] by simp
  then have sq: "length (write_tlv TAG_SEQUENCE ?b) < 2 ^ 32"
    using length_resp_body [OF assms, of s] length_write_tlv [of ?b TAG_SEQUENCE] by simp
  have "encode_resp_token s mech tok mic = write_tlv TAG_CTX_1 (write_tlv TAG_SEQUENCE ?b)"
    by (simp add: encode_resp_token_def resp_body_def)
  then show ?thesis
    by (simp add: decode_resp_token_def read_tlv_write_0 [OF sq] read_tlv_write_0 [OF b]
        parse_resp_body [OF assms])
qed

theorem decode_encode_resp_token_witness:
  "decode_resp_token (encode_resp_token AcceptIncomplete (Some OID_NTLMSSP) (Some [1, 2]) None) =
    Inr \<lparr>resp_neg_state = Some AcceptIncomplete, resp_supported_mech = Some OID_NTLMSSP,
         resp_response_token = Some [1, 2], resp_mech_list_mic = None\<rparr>"
  by (rule decode_encode_resp_token) (simp_all add: small_def OID_NTLMSSP_def)

lemma decode_init_response:
  "decode_init_token encode_init_response =
    Inr \<lparr>init_mech_types = [OID_NTLMSSP], init_mech_token = None\<rparr>"
  by code_simp

end
