(* ===== verification/Ntlm.thy ===== *)
theory Ntlm
  imports Signing
begin

text \<open>
  The server side of NTLMv2, \<open>src/src/proto/auth/ntlm.rs\<close>: the three messages and the acceptor
  that drives SESSION_SETUP.
\<close>

definition NTLMSSP_SIGNATURE :: bytes where "NTLMSSP_SIGNATURE = map of_char ''NTLMSSP'' @ [0]"
definition MSG_NEGOTIATE :: u32 where "MSG_NEGOTIATE = 1"
definition MSG_CHALLENGE :: u32 where "MSG_CHALLENGE = 2"
definition MSG_AUTHENTICATE :: u32 where "MSG_AUTHENTICATE = 3"

definition NTLMSSP_NEGOTIATE_UNICODE :: u32 where "NTLMSSP_NEGOTIATE_UNICODE = 0x00000001"
definition NTLMSSP_TARGET_TYPE_SERVER :: u32 where "NTLMSSP_TARGET_TYPE_SERVER = 0x00020000"
definition NTLMSSP_NEGOTIATE_TARGET_INFO :: u32 where "NTLMSSP_NEGOTIATE_TARGET_INFO = 0x00800000"
definition NTLMSSP_NEGOTIATE_KEY_EXCH :: u32 where "NTLMSSP_NEGOTIATE_KEY_EXCH = 0x40000000"

section \<open>Attribute lists\<close>

datatype av_id = Eol | NbComputerName | NbDomainName | DnsComputerName | DnsDomainName | Timestamp

primrec av_id_u16 :: "av_id \<Rightarrow> u16" where
  "av_id_u16 Eol = 0"
| "av_id_u16 NbComputerName = 1"
| "av_id_u16 NbDomainName = 2"
| "av_id_u16 DnsComputerName = 3"
| "av_id_u16 DnsDomainName = 4"
| "av_id_u16 Timestamp = 7"

type_synonym av_pair = "u16 \<times> bytes"

definition av_pair_new :: "av_id \<Rightarrow> bytes \<Rightarrow> av_pair" where
  "av_pair_new i v = (av_id_u16 i, v)"

definition encode_av_pairs :: "av_pair list \<Rightarrow> bytes" where
  "encode_av_pairs pairs =
     concat (map (\<lambda>(i, v). le16 i @ le16 (of_nat (length v)) @ v) pairs) @
     le16 (av_id_u16 Eol) @ le16 0"

function decode_av_from :: "bytes \<Rightarrow> nat \<Rightarrow> proto_error + av_pair list" where
  "decode_av_from buf i =
     (if length buf < i + 4 then Inl (Auth ''av_pair list truncated'')
      else
        let av = de16 (slice i 2 buf); len = unat (de16 (slice (i + 2) 2 buf)); j = i + 4 in
        if av = av_id_u16 Eol then Inr []
        else if length buf < j + len then Inl (Auth ''av_pair value truncated'')
        else attempt (decode_av_from buf (j + len)) (\<lambda>rest. Inr ((av, slice j len buf) # rest)))"
  by pat_completeness auto

termination
  by (relation "measure (\<lambda>(buf, i). length buf - i)") auto

declare decode_av_from.simps [simp del]

definition decode_av_pairs :: "bytes \<Rightarrow> proto_error + av_pair list" where
  "decode_av_pairs buf = decode_av_from buf 0"

section \<open>Keys\<close>

definition nt_hash :: "crypto_lib \<Rightarrow> rstring \<Rightarrow> bytes" where
  "nt_hash c password = md4 c (utf16le password)"

definition ntowf_v2 :: "crypto_lib \<Rightarrow> bytes \<Rightarrow> rstring \<Rightarrow> rstring \<Rightarrow> bytes" where
  "ntowf_v2 c nt_hash_bytes user domain =
     hmac_md5 c nt_hash_bytes (utf16le (to_uppercase c user) @ utf16le domain)"

definition ct_eq_16 :: "bytes \<Rightarrow> bytes \<Rightarrow> bool" where
  "ct_eq_16 a b =
     (if length a \<noteq> length b then False
      else foldl (\<lambda>diff (x, y). diff OR (x XOR y)) (0 :: u8) (zip a b) = 0)"

section \<open>Field descriptors\<close>

record field =
  fld_len :: u16
  fld_offset :: u32

definition read_field :: "bytes \<Rightarrow> nat \<Rightarrow> proto_error + field" where
  "read_field buf at =
     (if length buf < at + 8 then Inl (Auth ''field descriptor truncated'')
      else Inr \<lparr>fld_len = de16 (slice at 2 buf), fld_offset = de32 (slice (at + 4) 4 buf)\<rparr>)"

definition slice_field :: "bytes \<Rightarrow> field \<Rightarrow> proto_error + bytes" where
  "slice_field buf f =
     (let start = unat (fld_offset f); end_pos = start + unat (fld_len f) in
      if length buf < end_pos then Inl (Auth ''field slice out of range'')
      else Inr (slice start (unat (fld_len f)) buf))"

text \<open>A field of length zero is empty wherever its offset points.\<close>

definition field_bytes :: "bytes \<Rightarrow> field \<Rightarrow> proto_error + bytes" where
  "field_bytes buf f = (if fld_len f = 0 then Inr [] else slice_field buf f)"

definition check_signature :: "bytes \<Rightarrow> u32 \<Rightarrow> proto_error + unit" where
  "check_signature buf expected_msg =
     (if length buf < 12 then Inl (Auth ''ntlmssp message too short'')
      else if take 8 buf \<noteq> NTLMSSP_SIGNATURE then Inl (Auth ''ntlmssp signature mismatch'')
      else if de32 (slice 8 4 buf) \<noteq> expected_msg
      then Inl (Auth ''unexpected ntlmssp message type'')
      else Inr ())"

section \<open>Messages\<close>

record ntlm_negotiate =
  neg_flags :: u32
  neg_domain :: bytes
  neg_workstation :: bytes
  neg_raw :: bytes

definition ntlm_negotiate_parse :: "bytes \<Rightarrow> proto_error + ntlm_negotiate" where
  "ntlm_negotiate_parse buf =
     attempt (check_signature buf MSG_NEGOTIATE) (\<lambda>_.
       if length buf < 32 then Inl (Auth ''NEGOTIATE_MESSAGE too short'')
       else attempt (read_field buf 16) (\<lambda>domain_field.
         attempt (read_field buf 24) (\<lambda>ws_field.
           attempt (field_bytes buf domain_field) (\<lambda>domain.
             attempt (field_bytes buf ws_field) (\<lambda>workstation.
               Inr \<lparr>neg_flags = de32 (slice 12 4 buf), neg_domain = domain,
                    neg_workstation = workstation, neg_raw = buf\<rparr>)))))"

record challenge_params =
  cp_server_challenge :: bytes
  cp_target_name :: rstring
  cp_nb_domain_name :: rstring
  cp_nb_computer_name :: rstring
  cp_dns_domain_name :: rstring
  cp_dns_computer_name :: rstring
  cp_timestamp :: u64
  cp_flags :: u32

definition challenge_target_info :: "challenge_params \<Rightarrow> bytes" where
  "challenge_target_info p =
     encode_av_pairs
       [av_pair_new NbDomainName (utf16le (cp_nb_domain_name p)),
        av_pair_new NbComputerName (utf16le (cp_nb_computer_name p)),
        av_pair_new DnsDomainName (utf16le (cp_dns_domain_name p)),
        av_pair_new DnsComputerName (utf16le (cp_dns_computer_name p)),
        av_pair_new Timestamp (le64 (cp_timestamp p))]"

definition build_challenge :: "challenge_params \<Rightarrow> bytes" where
  "build_challenge p =
     (let target_name_utf16 = utf16le (cp_target_name p);
          target_info = challenge_target_info p;
          target_name_offset = 56 :: u32;
          target_info_offset = target_name_offset + of_nat (length target_name_utf16);
          tn_len = of_nat (length target_name_utf16) :: u16;
          ti_len = of_nat (length target_info) :: u16
      in NTLMSSP_SIGNATURE @ le32 MSG_CHALLENGE @
         le16 tn_len @ le16 tn_len @ le32 target_name_offset @
         le32 (cp_flags p) @ cp_server_challenge p @ replicate 8 0 @
         le16 ti_len @ le16 ti_len @ le32 target_info_offset @
         [6, 1, 0, 0x1D, 0, 0, 0, 0x0F] @ target_name_utf16 @ target_info)"

record ntlm_authenticate =
  au_flags :: u32
  au_lm_response :: bytes
  au_nt_response :: bytes
  au_domain :: rstring
  au_user :: rstring
  au_workstation :: rstring
  au_encrypted_random_session_key :: bytes
  au_mic :: "bytes option"
  au_mic_offset :: "nat option"
  au_raw :: bytes

text \<open>The smallest payload offset, starting from \<open>u32::MAX\<close>.\<close>

definition min_payload_offset :: "field list \<Rightarrow> u32" where
  "min_payload_offset fs =
     foldl (\<lambda>min_off f. if 0 < fld_len f \<and> 0 < fld_offset f \<and> fld_offset f < min_off
                          then fld_offset f else min_off) (- 1) fs"

definition ntlm_authenticate_parse :: "bytes \<Rightarrow> proto_error + ntlm_authenticate" where
  "ntlm_authenticate_parse buf =
     attempt (check_signature buf MSG_AUTHENTICATE) (\<lambda>_.
       if length buf < 64 then Inl (Auth ''AUTHENTICATE_MESSAGE too short'')
       else attempt (read_field buf 12) (\<lambda>lm_field.
        attempt (read_field buf 20) (\<lambda>nt_field.
        attempt (read_field buf 28) (\<lambda>domain_field.
        attempt (read_field buf 36) (\<lambda>user_field.
        attempt (read_field buf 44) (\<lambda>ws_field.
        attempt (read_field buf 52) (\<lambda>key_field.
          let min_off = min_payload_offset
                [lm_field, nt_field, domain_field, user_field, ws_field, key_field];
              (mic, mic_offset) =
                (if min_off \<noteq> - 1 \<and> 88 \<le> unat min_off \<and> 88 \<le> length buf
                 then (Some (slice 72 16 buf), Some 72) else (None, None))
          in
          attempt (field_bytes buf lm_field) (\<lambda>lm_response.
          attempt (field_bytes buf nt_field) (\<lambda>nt_response.
          attempt (field_bytes buf domain_field) (\<lambda>domain_bytes.
          attempt (field_bytes buf user_field) (\<lambda>user_bytes.
          attempt (field_bytes buf ws_field) (\<lambda>ws_bytes.
          attempt (field_bytes buf key_field) (\<lambda>key.
            Inr \<lparr>au_flags = de32 (slice 60 4 buf), au_lm_response = lm_response,
                 au_nt_response = nt_response, au_domain = utf16le_to_string domain_bytes,
                 au_user = utf16le_to_string user_bytes,
                 au_workstation = utf16le_to_string ws_bytes,
                 au_encrypted_random_session_key = key, au_mic = mic,
                 au_mic_offset = mic_offset, au_raw = buf\<rparr>)))))))))))))"

section \<open>The acceptor\<close>

datatype identity = Anonymous | User (id_user: rstring) (id_domain: rstring)

record auth_outcome =
  ao_identity :: identity
  ao_session_key :: bytes

record user_creds =
  uc_nt_hash :: bytes

definition user_creds_from_password :: "crypto_lib \<Rightarrow> rstring \<Rightarrow> user_creds" where
  "user_creds_from_password c password = \<lparr>uc_nt_hash = nt_hash c password\<rparr>"

record ntlm_target_info =
  ti_target_name :: rstring
  ti_nb_domain :: rstring
  ti_nb_computer :: rstring
  ti_dns_domain :: rstring
  ti_dns_computer :: rstring

record ntlm_server =
  nt_server_challenge :: bytes
  nt_target :: ntlm_target_info
  nt_timestamp :: u64
  nt_server_flags :: u32
  nt_negotiated_flags :: u32
  nt_negotiate_bytes :: bytes
  nt_challenge_bytes :: bytes

text \<open>The twelve flags that \<open>NtlmServer::new\<close> combines.\<close>

definition NTLM_SERVER_FLAGS :: u32 where
  "NTLM_SERVER_FLAGS =
     NTLMSSP_NEGOTIATE_UNICODE OR 0x00000004 OR 0x00000200 OR 0x00000010 OR 0x00008000 OR
     0x00080000 OR NTLMSSP_TARGET_TYPE_SERVER OR NTLMSSP_NEGOTIATE_TARGET_INFO OR 0x02000000 OR
     0x20000000 OR NTLMSSP_NEGOTIATE_KEY_EXCH OR 0x80000000"

definition ntlm_server_new :: "bytes \<Rightarrow> ntlm_target_info \<Rightarrow> u64 \<Rightarrow> ntlm_server" where
  "ntlm_server_new server_challenge target timestamp =
     \<lparr>nt_server_challenge = server_challenge, nt_target = target, nt_timestamp = timestamp,
      nt_server_flags = NTLM_SERVER_FLAGS, nt_negotiated_flags = NTLM_SERVER_FLAGS,
      nt_negotiate_bytes = [], nt_challenge_bytes = []\<rparr>"

definition step1_negotiate :: "ntlm_server \<Rightarrow> bytes \<Rightarrow> proto_error + ntlm_server" where
  "step1_negotiate s blob =
     attempt (ntlm_negotiate_parse blob) (\<lambda>n.
       Inr (s\<lparr>nt_negotiated_flags := (nt_server_flags s AND neg_flags n) OR
                NTLMSSP_NEGOTIATE_TARGET_INFO OR NTLMSSP_TARGET_TYPE_SERVER OR
                NTLMSSP_NEGOTIATE_UNICODE,
              nt_negotiate_bytes := neg_raw n\<rparr>))"

definition ntlm_challenge :: "ntlm_server \<Rightarrow> bytes \<times> ntlm_server" where
  "ntlm_challenge s =
     (let blob = build_challenge
            \<lparr>cp_server_challenge = nt_server_challenge s,
             cp_target_name = ti_target_name (nt_target s),
             cp_nb_domain_name = ti_nb_domain (nt_target s),
             cp_nb_computer_name = ti_nb_computer (nt_target s),
             cp_dns_domain_name = ti_dns_domain (nt_target s),
             cp_dns_computer_name = ti_dns_computer (nt_target s),
             cp_timestamp = nt_timestamp s, cp_flags = nt_negotiated_flags s\<rparr>
      in (blob, s\<lparr>nt_challenge_bytes := blob\<rparr>))"

definition check_mic ::
    "crypto_lib \<Rightarrow> ntlm_server \<Rightarrow> ntlm_authenticate \<Rightarrow> bytes \<Rightarrow> proto_error + unit" where
  "check_mic c s auth session_key =
     (case (au_mic_offset auth, au_mic auth) of
        (Some mic_off, Some supplied) \<Rightarrow>
          if nt_negotiate_bytes s = [] then Inr ()
          else if length (au_raw auth) < mic_off + 16 then Inl (Auth ''MIC offset out of range'')
          else
            let auth_zeroed = patch mic_off (replicate 16 0) (au_raw auth);
                computed = hmac_md5 c session_key
                  (nt_negotiate_bytes s @ nt_challenge_bytes s @ auth_zeroed)
            in if ct_eq_16 supplied computed then Inr () else Inl (Auth ''MIC mismatch'')
      | _ \<Rightarrow> Inr ())"

definition session_key_of ::
    "crypto_lib \<Rightarrow> ntlm_authenticate \<Rightarrow> bytes \<Rightarrow> proto_error + bytes" where
  "session_key_of c auth key_exchange_key =
     (if au_flags auth AND NTLMSSP_NEGOTIATE_KEY_EXCH \<noteq> 0 \<and>
         au_encrypted_random_session_key auth \<noteq> []
      then if length (au_encrypted_random_session_key auth) \<noteq> 16
           then Inl (Auth ''encrypted session key not 16 bytes'')
           else Inr (rc4 c key_exchange_key (au_encrypted_random_session_key auth))
      else Inr key_exchange_key)"

definition authenticate ::
    "crypto_lib \<Rightarrow> ntlm_server \<Rightarrow> bytes \<Rightarrow> (rstring \<Rightarrow> rstring \<Rightarrow> user_creds option) \<Rightarrow>
     proto_error + auth_outcome" where
  "authenticate c s blob lookup =
     attempt (ntlm_authenticate_parse blob) (\<lambda>auth.
       if au_user auth = [] \<and> au_nt_response auth = []
       then Inr \<lparr>ao_identity = Anonymous, ao_session_key = replicate 16 0\<rparr>
       else case lookup (au_user auth) (au_domain auth) of
         None \<Rightarrow> Inl (Auth ''unknown user'')
       | Some creds \<Rightarrow>
           let response_key_nt = ntowf_v2 c (uc_nt_hash creds) (au_user auth) (au_domain auth) in
           if length (au_nt_response auth) < 16 then Inl (Auth ''NT response too short'')
           else
             let nt_proof_supplied = take 16 (au_nt_response auth);
                 client_challenge = drop 16 (au_nt_response auth);
                 nt_proof_computed =
                   hmac_md5 c response_key_nt (nt_server_challenge s @ client_challenge)
             in if \<not> ct_eq_16 nt_proof_supplied nt_proof_computed
                then Inl (Auth ''NT proof mismatch'')
                else
                  let key_exchange_key = hmac_md5 c response_key_nt nt_proof_computed in
                  attempt (session_key_of c auth key_exchange_key) (\<lambda>session_key.
                    attempt (check_mic c s auth session_key) (\<lambda>_.
                      Inr \<lparr>ao_identity = User (au_user auth) (au_domain auth),
                           ao_session_key = session_key\<rparr>)))"

section \<open>Properties\<close>

lemma foldl_zip_or_zero:
  "foldl (\<lambda>diff (x, y). diff OR (x XOR y)) (d :: u8) ps = 0 \<longleftrightarrow> d = 0 \<and> (\<forall>(x, y) \<in> set ps. x = y)"
  by (induction ps arbitrary: d) (auto simp: or_eq_0_iff xor_eq_0_iff)

lemma zip_all_eq: "length a = length b \<Longrightarrow> (\<forall>(x, y) \<in> set (zip a b). x = y) \<longleftrightarrow> a = b"
  by (induction a b rule: list_induct2) auto

lemma ct_eq_16_iff [simp]: "ct_eq_16 a b \<longleftrightarrow> a = b"
  by (auto simp: ct_eq_16_def foldl_zip_or_zero zip_all_eq)

text \<open>Attribute lists survive encoding, unless an identifier is the terminator's.\<close>

definition wf_av_pair :: "av_pair \<Rightarrow> bool" where
  "wf_av_pair p \<longleftrightarrow> fst p \<noteq> av_id_u16 Eol \<and> length (snd p) < 2 ^ 16"

lemma decode_av_encode:
  assumes "list_all wf_av_pair ps"
  shows "decode_av_from (pre @ encode_av_pairs ps) (length pre) = Inr ps"
  using assms
proof (induction ps arbitrary: pre)
  case Nil
  show ?case
    by (subst decode_av_from.simps) (simp add: encode_av_pairs_def Let_def slice_append_right slice_def)
next
  case (Cons p ps)
  obtain i v where p: "p = (i, v)" by (cases p)
  let ?h = "le16 i @ le16 (of_nat (length v)) @ v"
  have enc: "encode_av_pairs (p # ps) = ?h @ encode_av_pairs ps"
    by (simp add: encode_av_pairs_def p)
  have len: "unat (of_nat (length v) :: u16) = length v"
    using Cons.prems by (simp add: p wf_av_pair_def unat_of_nat take_bit_eq_mod)
  have i: "i \<noteq> av_id_u16 Eol" using Cons.prems by (simp add: p wf_av_pair_def)
  have IH: "decode_av_from ((pre @ ?h) @ encode_av_pairs ps) (length (pre @ ?h)) = Inr ps"
    using Cons.IH [of "pre @ ?h"] Cons.prems by simp
  have "length (pre @ ?h) = length pre + 4 + length v" by simp
  with IH have IH: "decode_av_from (pre @ ?h @ encode_av_pairs ps) (length pre + 4 + length v)
      = Inr ps"
    by (simp only: append_assoc)
  have s1: "slice (length pre) 2 (pre @ ?h @ r) = le16 i"
    and s2: "slice (length pre + 2) 2 (pre @ ?h @ r) = le16 (of_nat (length v))"
    and s3: "slice (length pre + 4) (length v) (pre @ ?h @ r) = v" for r
    by (simp_all add: slice_append_right slice_def)
  show ?case
    unfolding enc
    using i
    by (subst decode_av_from.simps) (simp only: s1 s2 de16_le16 len Let_def s3 IH, simp add: p)
qed

lemma decode_av_pairs_encode: "list_all wf_av_pair ps \<Longrightarrow> decode_av_pairs (encode_av_pairs ps) = Inr ps"
  using decode_av_encode [of ps "[]"] by (simp add: decode_av_pairs_def)

lemma authenticate_known_user:
  "authenticate c s blob lookup = Inr out \<Longrightarrow> ao_identity out = User u d \<Longrightarrow> lookup u d \<noteq> None"
  by (auto simp: authenticate_def attempt_eq_Inr Let_def split: if_splits option.splits)

lemma parse_mic:
  assumes "ntlm_authenticate_parse blob = Inr a"
  shows "au_raw a = blob" "au_mic a \<noteq> None \<Longrightarrow> au_mic a = Some (slice 72 16 blob) \<and>
    au_mic_offset a = Some 72 \<and> 88 \<le> length blob"
  using assms by (auto simp: ntlm_authenticate_parse_def attempt_eq_Inr Let_def split: if_splits)

lemma check_mic_ok:
  assumes "check_mic c s a k = Inr ()" and "ntlm_authenticate_parse blob = Inr a"
    and "au_mic a \<noteq> None" and "nt_negotiate_bytes s \<noteq> []"
  shows "take 16 (drop 72 blob) = hmac_md5 c k (nt_negotiate_bytes s @ nt_challenge_bytes s @
    take 72 blob @ replicate 16 0 @ drop 88 blob)"
  using assms parse_mic [OF assms(2)]
  by (auto simp: check_mic_def Let_def patch_def slice_def split: if_splits)

text \<open>
  C23: A logon as a user is granted only to a client that knows the user's NT hash: whenever the
  acceptor returns a user identity, the user is in the table and the first 16 bytes of the NT
  response are the keyed MAC, under the key derived from the user's hash, of this acceptor's own
  challenge followed by the rest of the response. The session key is derived from that MAC, or is
  the client's key decrypted with it. When the message has room for a MIC (no payload before byte
  88) and the acceptor holds the NEGOTIATE message, the 16 bytes at offset 72 are the MAC of the
  three messages, under the session key and with those bytes zeroed. Without the bytes of a
  NEGOTIATE message the code does not look at the MIC.
\<close>

theorem authenticate_sound:
  assumes "authenticate c s blob lookup = Inr \<lparr>ao_identity = User u d, ao_session_key = k\<rparr>"
  shows "\<exists>a creds. ntlm_authenticate_parse blob = Inr a \<and> au_user a = u \<and> au_domain a = d \<and>
    lookup u d = Some creds \<and> 16 \<le> length (au_nt_response a) \<and>
    take 16 (au_nt_response a) = hmac_md5 c (ntowf_v2 c (uc_nt_hash creds) u d)
      (nt_server_challenge s @ drop 16 (au_nt_response a)) \<and>
    (let kek = hmac_md5 c (ntowf_v2 c (uc_nt_hash creds) u d) (take 16 (au_nt_response a)) in
      k = (if au_flags a AND NTLMSSP_NEGOTIATE_KEY_EXCH \<noteq> 0 \<and>
              au_encrypted_random_session_key a \<noteq> []
           then rc4 c kek (au_encrypted_random_session_key a) else kek)) \<and>
    (au_mic a \<noteq> None \<and> nt_negotiate_bytes s \<noteq> [] \<longrightarrow>
      take 16 (drop 72 blob) = hmac_md5 c k (nt_negotiate_bytes s @ nt_challenge_bytes s @
        take 72 blob @ replicate 16 0 @ drop 88 blob))"
proof -
  obtain a creds where a: "ntlm_authenticate_parse blob = Inr a" "check_mic c s a k = Inr ()"
    and rest: "au_user a = u" "au_domain a = d" "lookup u d = Some creds"
      "16 \<le> length (au_nt_response a)" "take 16 (au_nt_response a) = hmac_md5 c
        (ntowf_v2 c (uc_nt_hash creds) u d) (nt_server_challenge s @ drop 16 (au_nt_response a))"
      "session_key_of c a (hmac_md5 c (ntowf_v2 c (uc_nt_hash creds) u d)
        (take 16 (au_nt_response a))) = Inr k"
    using assms
    by (auto simp: authenticate_def attempt_eq_Inr Let_def not_less split: if_splits option.splits)
  from rest(6) have "k = (let kek = hmac_md5 c (ntowf_v2 c (uc_nt_hash creds) u d)
      (take 16 (au_nt_response a)) in
      if au_flags a AND NTLMSSP_NEGOTIATE_KEY_EXCH \<noteq> 0 \<and> au_encrypted_random_session_key a \<noteq> []
      then rc4 c kek (au_encrypted_random_session_key a) else kek)"
    by (auto simp: session_key_of_def Let_def split: if_splits)
  with a rest check_mic_ok [OF a(2,1)] show ?thesis
    unfolding Let_def by blast
qed

definition sample_acceptor :: ntlm_server where
  "sample_acceptor = ntlm_server_new (replicate 8 0)
     \<lparr>ti_target_name = [83], ti_nb_domain = [83], ti_nb_computer = [83], ti_dns_domain = [],
      ti_dns_computer = []\<rparr> 0"

definition sample_authenticate_blob :: bytes where
  "sample_authenticate_blob = NTLMSSP_SIGNATURE @ [3, 0, 0, 0] @
     replicate 8 0 @ [16, 0, 16, 0, 66, 0, 0, 0] @ replicate 8 0 @ [2, 0, 2, 0, 64, 0, 0, 0] @
     replicate 8 0 @ replicate 8 0 @ replicate 4 0 @ [117, 0] @ replicate 15 0 @ [85]"
lemma sample_blob_bytes: "sample_authenticate_blob = [78, 84, 76, 77, 83, 83, 80, 0, 3, 0, 0, 0] @
  [0,0,0,0,0,0,0,0, 16, 0, 16, 0, 66, 0, 0, 0,0,0,0,0,0,0,0,0,2, 0, 2, 0, 64, 0, 0, 0,
  0,0,0,0,0,0,0,0,0,0,0,0,0,0,0,0,0,0,0,0,117,0,0,0,0,0,0,0,0,0,0,0,0,0,0,0,0,85]"
  by (simp add: sample_authenticate_blob_def NTLMSSP_SIGNATURE_def numeral_eq_Suc)

lemma sample_parse: "ntlm_authenticate_parse sample_authenticate_blob = Inr
  \<lparr>au_flags = 0, au_lm_response = [], au_nt_response = replicate 15 0 @ [85], au_domain = [],
   au_user = [117], au_workstation = [], au_encrypted_random_session_key = [], au_mic = None,
   au_mic_offset = None, au_raw = sample_authenticate_blob\<rparr>"
  by (simp add: ntlm_authenticate_parse_def check_signature_def read_field_def slice_def
      field_bytes_def slice_field_def min_payload_offset_def de16_def de32_def
      MSG_AUTHENTICATE_def NTLMSSP_SIGNATURE_def sample_blob_bytes
      utf16le_to_string_def)
    (simp add: from_utf16_lossy_def is_surrogate_def, simp add: numeral_eq_Suc)
lemma le_nat_2: "le_nat 2 x = [of_nat (x mod 256), of_nat (x div 256 mod 256)]"
  by (simp add: numeral_2_eq_2)

lemma sample_hmac_md5: "hmac_md5 sample_crypto k m = replicate 15 0 @ [sum_list k + sum_list m]"
  by (simp add: sample_crypto_def sample_sum_def)

lemma sample_ntowf: "ntowf_v2 sample_crypto (replicate 16 0) [117] [] = replicate 15 0 @ [85]"
  by (simp add: ntowf_v2_def sample_hmac_md5 sum_list_replicate)
    (simp add: sample_crypto_def to_ascii_uppercase_def ascii_upper_def utf16le_def
      encode_utf16_def encode_char_def le16_def le_nat_2)

lemma sample_authenticate_by:
  "lookup [117] [] = Some \<lparr>uc_nt_hash = replicate 16 0\<rparr> \<Longrightarrow>
    nt_server_challenge acceptor = replicate 8 0 \<Longrightarrow>
    authenticate sample_crypto acceptor sample_authenticate_blob lookup
     = Inr \<lparr>ao_identity = User [117] [], ao_session_key = replicate 15 0 @ [170]\<rparr>"
  by (simp add: authenticate_def sample_parse sample_ntowf Let_def sample_hmac_md5 sum_list_replicate
      session_key_of_def check_mic_def)

lemma sample_challenge [simp]: "nt_server_challenge sample_acceptor = replicate 8 0"
  by (simp add: sample_acceptor_def ntlm_server_new_def)

lemma sample_authenticate:
  "authenticate sample_crypto sample_acceptor sample_authenticate_blob
     (\<lambda>u d. Some \<lparr>uc_nt_hash = replicate 16 0\<rparr>)
   = Inr \<lparr>ao_identity = User [117] [], ao_session_key = replicate 15 0 @ [170]\<rparr>"
  by (rule sample_authenticate_by) simp_all

text \<open>The same message with a MIC, to an acceptor that holds the messages before it.\<close>

definition sample_mic_acceptor :: ntlm_server where
  "sample_mic_acceptor = sample_acceptor\<lparr>nt_negotiate_bytes := [1], nt_challenge_bytes := [2]\<rparr>"

definition sample_mic_blob :: bytes where
  "sample_mic_blob = [78, 84, 76, 77, 83, 83, 80, 0, 3, 0, 0, 0] @
    [0,0,0,0,0,0,0,0, 16, 0, 16, 0, 90, 0, 0, 0, 0,0,0,0,0,0,0,0, 2, 0, 2, 0, 88, 0, 0, 0,
     0,0,0,0,0,0,0,0, 0,0,0,0,0,0,0,0, 0,0,0,0, 0,0,0,0,0,0,0,0,
     0,0,0,0,0,0,0,0,0,0,0,0,0,0,0,129,
     117, 0, 0,0,0,0,0,0,0,0,0,0,0,0,0,0,0,85]"

lemma sample_mic_parse: "ntlm_authenticate_parse sample_mic_blob = Inr
  \<lparr>au_flags = 0, au_lm_response = [], au_nt_response = replicate 15 0 @ [85], au_domain = [],
   au_user = [117], au_workstation = [], au_encrypted_random_session_key = [],
   au_mic = Some (replicate 15 0 @ [129]), au_mic_offset = Some 72, au_raw = sample_mic_blob\<rparr>"
  by (simp add: ntlm_authenticate_parse_def check_signature_def read_field_def slice_def
      field_bytes_def slice_field_def min_payload_offset_def de16_def de32_def
      MSG_AUTHENTICATE_def NTLMSSP_SIGNATURE_def sample_mic_blob_def utf16le_to_string_def)
    (simp add: from_utf16_lossy_def is_surrogate_def, simp add: numeral_eq_Suc)

lemma sample_mic_authenticate:
  "authenticate sample_crypto sample_mic_acceptor sample_mic_blob
     (\<lambda>u d. Some \<lparr>uc_nt_hash = replicate 16 0\<rparr>)
   = Inr \<lparr>ao_identity = User [117] [], ao_session_key = replicate 15 0 @ [170]\<rparr>"
  by (simp add: authenticate_def sample_mic_parse sample_ntowf Let_def sample_hmac_md5
      sum_list_replicate session_key_of_def check_mic_def sample_mic_acceptor_def)
    (simp add: sample_mic_blob_def patch_def sum_list_replicate)

theorem authenticate_sound_witness:
  "\<exists>a. ntlm_authenticate_parse sample_mic_blob = Inr a \<and> au_user a = [117] \<and>
    au_mic a \<noteq> None \<and>
    take 16 (au_nt_response a) = hmac_md5 sample_crypto
      (ntowf_v2 sample_crypto (replicate 16 0) [117] [])
      (replicate 8 0 @ drop 16 (au_nt_response a)) \<and>
    take 16 (drop 72 sample_mic_blob) = hmac_md5 sample_crypto (replicate 15 0 @ [170])
      ([1] @ [2] @ take 72 sample_mic_blob @ replicate 16 0 @ drop 88 sample_mic_blob)"
proof -
  have acceptor: "nt_negotiate_bytes sample_mic_acceptor = [1]"
      "nt_challenge_bytes sample_mic_acceptor = [2]"
      "nt_server_challenge sample_mic_acceptor = replicate 8 0"
    by (simp_all add: sample_mic_acceptor_def)
  have "\<exists>a. ntlm_authenticate_parse sample_mic_blob = Inr a \<and> au_mic a \<noteq> None"
    by (simp add: sample_mic_parse)
  with authenticate_sound [OF sample_mic_authenticate, unfolded acceptor Let_def] show ?thesis
    by auto
qed

lemma authenticate_anonymous:
  assumes "authenticate c s blob lookup = Inr out" and "ao_identity out = Anonymous"
  shows "ao_session_key out = replicate 16 0"
  using assms
  by (auto simp: authenticate_def attempt_eq_Inr Let_def split: if_splits option.splits)

text \<open>
  The names and the attribute list of the challenge are where its field descriptors say, when
  they fit the 16-bit length fields.
\<close>

lemma read_field_append:
  "length pre = n \<Longrightarrow> read_field (pre @ le16 l @ le16 l' @ le32 off @ r) n
     = Inr \<lparr>fld_len = l, fld_offset = off\<rparr>"
  by (simp add: read_field_def slice_append_right slice_def)

lemma challenge_fields:
  assumes "length (cp_server_challenge p) = 8"
    and "length (utf16le (cp_target_name p)) < 2 ^ 16" and "length (challenge_target_info p) < 2 ^ 16"
  shows "\<exists>f. read_field (build_challenge p) 12 = Inr f \<and>
      slice_field (build_challenge p) f = Inr (utf16le (cp_target_name p))"
    and "\<exists>f. read_field (build_challenge p) 40 = Inr f \<and>
      slice_field (build_challenge p) f = Inr (challenge_target_info p)"
proof -
  let ?tn = "utf16le (cp_target_name p)" and ?ti = "challenge_target_info p"
  let ?l = "of_nat (length ?tn) :: u16" and ?k = "of_nat (length ?ti) :: u16"
  let ?o = "56 + of_nat (length ?tn) :: u32"
  let ?A = "NTLMSSP_SIGNATURE @ le32 MSG_CHALLENGE"
  let ?M = "le32 (cp_flags p) @ cp_server_challenge p @ replicate 8 0"
  let ?V = "[6, 1, 0, 0x1D, 0, 0, 0, 0x0F] :: bytes"
  let ?D = "le16 ?l @ le16 ?l @ le32 56" and ?E = "le16 ?k @ le16 ?k @ le32 ?o"
  have eq: "build_challenge p = ?A @ ?D @ ?M @ ?E @ ?V @ ?tn @ ?ti"
    by (simp add: build_challenge_def Let_def)
  have sig: "length NTLMSSP_SIGNATURE = 8" by (simp add: NTLMSSP_SIGNATURE_def)
  have l: "unat ?l = length ?tn" and k: "unat ?k = length ?ti"
    using assms by (simp_all add: unat_of_nat take_bit_eq_mod)
  have o: "unat ?o = 56 + length ?tn"
    using assms(2) by (simp add: unat_of_nat take_bit_eq_mod unat_word_ariths)
  have "read_field (build_challenge p) 12 = Inr \<lparr>fld_len = ?l, fld_offset = 56\<rparr>"
    using read_field_append [of ?A 12 ?l ?l 56 "?M @ ?E @ ?V @ ?tn @ ?ti"] sig by (simp add: eq)
  moreover have "slice 56 (length ?tn) (build_challenge p) = ?tn"
    using slice_at_append [of "?A @ ?D @ ?M @ ?E @ ?V" 56 ?tn "length ?tn" ?ti] sig assms(1)
    by (simp add: eq)
  ultimately show "\<exists>f. read_field (build_challenge p) 12 = Inr f \<and>
      slice_field (build_challenge p) f = Inr ?tn"
    using l sig assms(1) by (simp add: slice_field_def Let_def) (simp add: eq)
  have "read_field (build_challenge p) 40 = Inr \<lparr>fld_len = ?k, fld_offset = ?o\<rparr>"
    using read_field_append [of "?A @ ?D @ ?M" 40 ?k ?k ?o "?V @ ?tn @ ?ti"] sig assms(1)
    by (simp add: eq)
  moreover have "slice (56 + length ?tn) (length ?ti) (build_challenge p) = ?ti"
    using slice_at_append [of "?A @ ?D @ ?M @ ?E @ ?V @ ?tn" "56 + length ?tn" ?ti "length ?ti" "[]"]
      sig assms(1)
    by (simp add: eq)
  ultimately show "\<exists>f. read_field (build_challenge p) 40 = Inr f \<and>
      slice_field (build_challenge p) f = Inr ?ti"
    using k o sig assms(1) by (simp add: slice_field_def Let_def) (simp add: eq)
qed

end
