(* ===== verification/Status.thy ===== *)
theory Status
  imports Prelude
begin

text \<open>
  NTSTATUS codes (\<open>src/src/ntstatus.rs\<close>), the public error type of the server
  (\<open>src/src/error.rs\<close>) and the mapping between them. The payload of \<open>Io\<close> is the operating
  system's error, which no code of the server inspects after it was classified.
\<close>

definition STATUS_SUCCESS :: u32 where "STATUS_SUCCESS = 0"
definition STATUS_NO_MORE_FILES :: u32 where "STATUS_NO_MORE_FILES = 0x80000006"
definition STATUS_INVALID_INFO_CLASS :: u32 where "STATUS_INVALID_INFO_CLASS = 0xC0000003"
definition STATUS_INFO_LENGTH_MISMATCH :: u32 where "STATUS_INFO_LENGTH_MISMATCH = 0xC0000004"
definition STATUS_INVALID_PARAMETER :: u32 where "STATUS_INVALID_PARAMETER = 0xC000000D"
definition STATUS_OBJECT_NAME_NOT_FOUND :: u32 where "STATUS_OBJECT_NAME_NOT_FOUND = 0xC000000F"
definition STATUS_END_OF_FILE :: u32 where "STATUS_END_OF_FILE = 0xC0000011"
definition STATUS_MORE_PROCESSING_REQUIRED :: u32 where
  "STATUS_MORE_PROCESSING_REQUIRED = 0xC0000016"
definition STATUS_ACCESS_DENIED :: u32 where "STATUS_ACCESS_DENIED = 0xC0000022"
definition STATUS_OBJECT_NAME_INVALID :: u32 where "STATUS_OBJECT_NAME_INVALID = 0xC0000033"
definition STATUS_OBJECT_NAME_COLLISION :: u32 where "STATUS_OBJECT_NAME_COLLISION = 0xC0000035"
definition STATUS_OBJECT_PATH_NOT_FOUND :: u32 where "STATUS_OBJECT_PATH_NOT_FOUND = 0xC000003A"
definition STATUS_SHARING_VIOLATION :: u32 where "STATUS_SHARING_VIOLATION = 0xC0000043"
definition STATUS_NO_EAS_ON_FILE :: u32 where "STATUS_NO_EAS_ON_FILE = 0xC0000052"
definition STATUS_LOGON_FAILURE :: u32 where "STATUS_LOGON_FAILURE = 0xC000006D"
definition STATUS_UNEXPECTED_IO_ERROR :: u32 where "STATUS_UNEXPECTED_IO_ERROR = 0xC000009C"
definition STATUS_FILE_IS_A_DIRECTORY :: u32 where "STATUS_FILE_IS_A_DIRECTORY = 0xC00000BA"
definition STATUS_NOT_SUPPORTED :: u32 where "STATUS_NOT_SUPPORTED = 0xC00000BB"
definition STATUS_NETWORK_NAME_DELETED :: u32 where "STATUS_NETWORK_NAME_DELETED = 0xC00000C9"
definition STATUS_BAD_NETWORK_NAME :: u32 where "STATUS_BAD_NETWORK_NAME = 0xC00000CC"
definition STATUS_DIRECTORY_NOT_EMPTY :: u32 where "STATUS_DIRECTORY_NOT_EMPTY = 0xC0000101"
definition STATUS_NOT_A_DIRECTORY :: u32 where "STATUS_NOT_A_DIRECTORY = 0xC0000103"
definition STATUS_FILE_CLOSED :: u32 where "STATUS_FILE_CLOSED = 0xC0000128"
definition STATUS_USER_SESSION_DELETED :: u32 where "STATUS_USER_SESSION_DELETED = 0xC000015C"
definition STATUS_FS_DRIVER_REQUIRED :: u32 where "STATUS_FS_DRIVER_REQUIRED = 0xC000019C"

lemmas status_defs =
  STATUS_SUCCESS_def STATUS_NO_MORE_FILES_def STATUS_INVALID_INFO_CLASS_def
  STATUS_INFO_LENGTH_MISMATCH_def STATUS_INVALID_PARAMETER_def STATUS_OBJECT_NAME_NOT_FOUND_def
  STATUS_END_OF_FILE_def STATUS_MORE_PROCESSING_REQUIRED_def STATUS_ACCESS_DENIED_def
  STATUS_OBJECT_NAME_INVALID_def STATUS_OBJECT_NAME_COLLISION_def STATUS_OBJECT_PATH_NOT_FOUND_def
  STATUS_SHARING_VIOLATION_def STATUS_NO_EAS_ON_FILE_def STATUS_LOGON_FAILURE_def
  STATUS_UNEXPECTED_IO_ERROR_def STATUS_FILE_IS_A_DIRECTORY_def STATUS_NOT_SUPPORTED_def
  STATUS_NETWORK_NAME_DELETED_def STATUS_BAD_NETWORK_NAME_def STATUS_DIRECTORY_NOT_EMPTY_def
  STATUS_NOT_A_DIRECTORY_def STATUS_FILE_CLOSED_def STATUS_USER_SESSION_DELETED_def
  STATUS_FS_DRIVER_REQUIRED_def

datatype smb_error =
    NotFound | PathNotFound | AccessDenied | Exists | NotEmpty | IsDirectory | NotADirectory
  | NameInvalid | Sharing | NotSupported | Io

fun to_nt_status :: "smb_error \<Rightarrow> u32" where
  "to_nt_status NotFound = STATUS_OBJECT_NAME_NOT_FOUND"
| "to_nt_status PathNotFound = STATUS_OBJECT_PATH_NOT_FOUND"
| "to_nt_status AccessDenied = STATUS_ACCESS_DENIED"
| "to_nt_status Exists = STATUS_OBJECT_NAME_COLLISION"
| "to_nt_status NotEmpty = STATUS_DIRECTORY_NOT_EMPTY"
| "to_nt_status IsDirectory = STATUS_FILE_IS_A_DIRECTORY"
| "to_nt_status NotADirectory = STATUS_NOT_A_DIRECTORY"
| "to_nt_status NameInvalid = STATUS_OBJECT_NAME_INVALID"
| "to_nt_status Sharing = STATUS_SHARING_VIOLATION"
| "to_nt_status NotSupported = STATUS_NOT_SUPPORTED"
| "to_nt_status Io = STATUS_UNEXPECTED_IO_ERROR"

lemma to_nt_status_error: "0xC0000000 \<le> to_nt_status e"
  by (cases e) (simp_all add: status_defs)

lemma to_nt_status_not_success [simp]: "to_nt_status e \<noteq> STATUS_SUCCESS"
  by (cases e) (simp_all add: status_defs)

lemma to_nt_status_inj: "to_nt_status a = to_nt_status b \<longleftrightarrow> a = b"
  by (cases a; cases b) (simp_all add: status_defs)

end
