(* ===== verification/Path.thy ===== *)
theory Path
  imports Text Status
begin

text \<open>
  Validated share paths, \<open>src/src/path.rs\<close>: parsing from UTF-16, the checks it makes, and the
  guarantee the backends rely on.
\<close>

section \<open>Model\<close>

record smb_path =
  components :: "rstring list"
  stream :: "rstring option"

definition root_path :: smb_path where
  "root_path = \<lparr>components = [], stream = None\<rparr>"

definition is_sep :: "nat \<Rightarrow> bool" where
  "is_sep c \<longleftrightarrow> c = 92 \<or> c = 47"

text \<open>\<open>s.strip_prefix('\\').or_else(|| s.strip_prefix('/')).unwrap_or(s)\<close>.\<close>

definition strip_leading :: "rstring \<Rightarrow> rstring" where
  "strip_leading s = (case s of [] \<Rightarrow> [] | c # r \<Rightarrow> if is_sep c then r else s)"

definition forbidden_char :: "nat \<Rightarrow> bool" where
  "forbidden_char c \<longleftrightarrow> c = 0 \<or> (1 \<le> c \<and> c \<le> 0x1F) \<or> c \<in> {60, 62, 34, 124, 63, 42}"

text \<open>\<open>str::split\<close> on the separators: one part more than there are separators.\<close>

fun split_seps :: "rstring \<Rightarrow> rstring list" where
  "split_seps [] = [[]]"
| "split_seps (c # s) =
     (if is_sep c then [] # split_seps s
      else (case split_seps s of [] \<Rightarrow> [[c]] | p # ps \<Rightarrow> (c # p) # ps))"

text \<open>\<open>str::split_once(ch)\<close>.\<close>

fun split_once :: "nat \<Rightarrow> rstring \<Rightarrow> (rstring \<times> rstring) option" where
  "split_once ch [] = None"
| "split_once ch (c # s) =
     (if c = ch then Some ([], s)
      else (case split_once ch s of None \<Rightarrow> None | Some (a, b) \<Rightarrow> Some (c # a, b)))"

text \<open>\<open>str::rsplit_once(ch)\<close>: at the last occurrence.\<close>

definition rsplit_once :: "nat \<Rightarrow> rstring \<Rightarrow> (rstring \<times> rstring) option" where
  "rsplit_once ch s =
     (case split_once ch (rev s) of None \<Rightarrow> None | Some (a, b) \<Rightarrow> Some (rev b, rev a))"

definition split_stream_selector :: "rstring \<Rightarrow> smb_error + (rstring \<times> rstring option)" where
  "split_stream_selector lst =
     (case split_once 58 lst of
        None \<Rightarrow> Inr (lst, None)
      | Some (name, rest) \<Rightarrow>
          let (strm, ty) = (case split_once 58 rest of
                              Some (s, ty) \<Rightarrow> (s, Some ty) | None \<Rightarrow> (rest, None))
          in if (case ty of Some t \<Rightarrow> \<not> eq_ignore_ascii_case t (lit ''$DATA'') | None \<Rightarrow> False)
             then Inl NameInvalid
             else if strm = [] then Inr (name, None) else Inr (name, Some strm))"

definition matches_com_or_lpt :: "rstring \<Rightarrow> bool" where
  "matches_com_or_lpt s \<longleftrightarrow>
     (let b = as_bytes s in
        length b = 4 \<and> 49 \<le> unat (b ! 3) \<and> unat (b ! 3) \<le> 57 \<and>
        (take 3 b = map of_char ''COM'' \<or> take 3 b = map of_char ''LPT''))"

definition is_reserved_dos_name :: "rstring \<Rightarrow> bool" where
  "is_reserved_dos_name s =
     (let stem = (case rsplit_once 46 s of Some (stem, _) \<Rightarrow> stem | None \<Rightarrow> s);
          upper = to_ascii_uppercase stem
      in upper \<in> {lit ''CON'', lit ''PRN'', lit ''AUX'', lit ''NUL''} \<or> matches_com_or_lpt upper)"

text \<open>The loop over all parts but the last.\<close>

fun collect_parts :: "rstring list \<Rightarrow> smb_error + rstring list" where
  "collect_parts [] = Inr []"
| "collect_parts (raw # rest) =
     (if raw = [] then Inl NameInvalid
      else if raw = lit ''.'' then collect_parts rest
      else if raw = lit ''..'' then Inl NameInvalid
      else if is_reserved_dos_name raw then Inl NameInvalid
      else (case collect_parts rest of Inl e \<Rightarrow> Inl e | Inr cs \<Rightarrow> Inr (raw # cs)))"

definition parse_components :: "rstring \<Rightarrow> smb_error + smb_path" where
  "parse_components s =
     (let trimmed = strip_leading s in
      if trimmed = [] then Inr root_path
      else if list_ex forbidden_char trimmed then Inl NameInvalid
      else
        let parts = split_seps trimmed; raw_parts = butlast parts; last_part = last parts in
        if list_ex (\<lambda>raw. 58 \<in> set raw) raw_parts then Inl NameInvalid
        else (case split_stream_selector last_part of
            Inl e \<Rightarrow> Inl e
          | Inr (last_name, strm) \<Rightarrow>
              (case collect_parts raw_parts of
                 Inl e \<Rightarrow> Inl e
               | Inr cs \<Rightarrow>
                   if last_name = [] then Inl NameInvalid
                   else if last_name = lit ''.'' then
                     if strm \<noteq> None then Inl NameInvalid
                     else Inr \<lparr>components = cs, stream = strm\<rparr>
                   else if last_name = lit ''..'' then Inl NameInvalid
                   else if is_reserved_dos_name last_name then Inl NameInvalid
                   else Inr \<lparr>components = cs @ [last_name], stream = strm\<rparr>)))"

definition path_from_utf16 :: "u16 list \<Rightarrow> smb_error + smb_path" where
  "path_from_utf16 units =
     (case from_utf16 units of None \<Rightarrow> Inl NameInvalid | Some s \<Rightarrow> parse_components s)"

definition is_root :: "smb_path \<Rightarrow> bool" where
  "is_root p \<longleftrightarrow> components p = []"

definition parent :: "smb_path \<Rightarrow> smb_path option" where
  "parent p =
     (if is_root p then None
      else Some \<lparr>components = butlast (components p), stream = None\<rparr>)"

definition file_name :: "smb_path \<Rightarrow> rstring option" where
  "file_name p = (if components p = [] then None else Some (last (components p)))"

definition path_join :: "smb_path \<Rightarrow> rstring \<Rightarrow> smb_error + smb_path" where
  "path_join p lst =
     (case parse_components lst of
        Inl e \<Rightarrow> Inl e
      | Inr extra \<Rightarrow> Inr \<lparr>components = components p @ components extra, stream = stream extra\<rparr>)"

fun join_backslash :: "rstring list \<Rightarrow> rstring" where
  "join_backslash [] = []"
| "join_backslash [c] = c"
| "join_backslash (c # d # cs) = c @ 92 # join_backslash (d # cs)"

definition display_backslash :: "smb_path \<Rightarrow> rstring" where
  "display_backslash p = join_backslash (components p)"

definition path_display :: "smb_path \<Rightarrow> rstring" where
  "path_display p = (if is_root p then [92] else display_backslash p)"

section \<open>The guarantee\<close>

definition plain_char :: "nat \<Rightarrow> bool" where
  "plain_char c \<longleftrightarrow> \<not> is_sep c \<and> \<not> forbidden_char c \<and> c \<noteq> 58"

definition valid_component :: "rstring \<Rightarrow> bool" where
  "valid_component c \<longleftrightarrow> c \<noteq> [] \<and> c \<noteq> lit ''.'' \<and> c \<noteq> lit ''..'' \<and>
     \<not> is_reserved_dos_name c \<and> list_all plain_char c"

definition valid_path :: "smb_path \<Rightarrow> bool" where
  "valid_path p \<longleftrightarrow> list_all valid_component (components p) \<and>
     (case stream p of None \<Rightarrow> True
      | Some s \<Rightarrow> s \<noteq> [] \<and> components p \<noteq> [] \<and> list_all plain_char s)"

lemma split_seps_nonempty [simp]: "split_seps s \<noteq> []"
  by (induction s) (auto split: list.splits)

lemma split_seps_chars:
  "p \<in> set (split_seps s) \<Longrightarrow> c \<in> set p \<Longrightarrow> c \<in> set s \<and> \<not> is_sep c"
proof (induction s arbitrary: p)
  case (Cons x s)
  obtain q qs where "split_seps s = q # qs" by (cases "split_seps s") auto
  with Cons.prems Cons.IH [of q] Cons.IH [of p] show ?case
    by (auto simp del: split_paired_All split: if_splits)
qed simp

lemma split_seps_no_sep: "\<forall>c \<in> set p. \<not> is_sep c \<Longrightarrow> split_seps p = [p]"
  by (induction p) auto

lemma split_seps_append:
  "\<forall>c \<in> set p. \<not> is_sep c \<Longrightarrow> is_sep x \<Longrightarrow> split_seps (p @ x # s) = p # split_seps s"
  by (induction p) auto

lemma split_seps_join:
  "cs \<noteq> [] \<Longrightarrow> \<forall>c \<in> set cs. \<forall>x \<in> set c. \<not> is_sep x \<Longrightarrow> split_seps (join_backslash cs) = cs"
proof (induction cs rule: join_backslash.induct)
  case (3 c d cs)
  have "is_sep 92" by (simp add: is_sep_def)
  with 3 split_seps_append [of c 92 "join_backslash (d # cs)"] show ?case by simp
qed (auto simp: split_seps_no_sep)

lemma split_once_SomeD:
  "split_once ch s = Some (a, b) \<Longrightarrow> s = a @ ch # b \<and> ch \<notin> set a"
  by (induction s arbitrary: a) (auto split: if_splits option.splits)

lemma split_once_None: "split_once ch s = None \<longleftrightarrow> ch \<notin> set s"
  by (induction s) (auto split: option.splits)

lemma split_stream_selector_chars:
  assumes "split_stream_selector l = Inr (name, strm)"
  shows "set name \<subseteq> set l \<and> 58 \<notin> set name \<and>
    (case strm of None \<Rightarrow> True | Some s \<Rightarrow> s \<noteq> [] \<and> set s \<subseteq> set l \<and> 58 \<notin> set s)"
  using assms
  by (auto simp: split_stream_selector_def Let_def split_once_None
      split: option.splits if_splits prod.splits dest!: split_once_SomeD)

lemma split_stream_selector_plain: "58 \<notin> set l \<Longrightarrow> split_stream_selector l = Inr (l, None)"
  by (simp add: split_stream_selector_def split_once_None [THEN iffD2])

lemma collect_parts_valid:
  "collect_parts ps = Inr cs \<Longrightarrow> \<forall>p \<in> set ps. list_all plain_char p \<Longrightarrow> list_all valid_component cs"
  by (induction ps arbitrary: cs)
    (auto simp: valid_component_def split: if_splits sum.splits)

lemma collect_parts_id: "list_all valid_component cs \<Longrightarrow> collect_parts cs = Inr cs"
  by (induction cs) (auto simp: valid_component_def)

lemma strip_leading_set: "set (strip_leading s) \<subseteq> set s"
  by (auto simp: strip_leading_def split: list.splits if_splits)

lemma parse_components_valid:
  assumes "parse_components s = Inr p"
  shows "valid_path p"
proof (cases "strip_leading s = []")
  case True
  with assms show ?thesis by (auto simp: parse_components_def root_path_def valid_path_def)
next
  case False
  let ?parts = "split_seps (strip_leading s)"
  from assms False have ok: "\<not> list_ex forbidden_char (strip_leading s)"
      and colon: "\<not> list_ex (\<lambda>raw. 58 \<in> set raw) (butlast ?parts)"
    by (auto simp: parse_components_def Let_def split: if_splits)
  have chars: "c \<notin> Collect forbidden_char \<and> \<not> is_sep c" if "q \<in> set ?parts" "c \<in> set q" for q c
    using split_seps_chars [OF that] ok by (auto simp: list_ex_iff)
  have raw: "list_all plain_char q" if "q \<in> set (butlast ?parts)" for q
    using that chars colon in_set_butlastD [OF that]
    by (auto simp: plain_char_def list_all_iff list_ex_iff)
  obtain name strm cs where sel: "split_stream_selector (last ?parts) = Inr (name, strm)"
      and cs: "collect_parts (butlast ?parts) = Inr cs"
    using assms False ok colon
    by (auto simp: parse_components_def Let_def split: sum.splits prod.splits)
  have cs_valid: "list_all valid_component cs"
    using collect_parts_valid [OF cs] raw by blast
  have sub: "list_all plain_char x" if "set x \<subseteq> set (last ?parts)" "58 \<notin> set x" for x
    using that chars [of "last ?parts"] by (auto simp: plain_char_def list_all_iff)
  note sel_chars = split_stream_selector_chars [OF sel]
  have name: "list_all plain_char name" using sel_chars sub by blast
  have strm: "case strm of None \<Rightarrow> True | Some s \<Rightarrow> s \<noteq> [] \<and> list_all plain_char s"
    using sel_chars sub by (auto split: option.splits)
  have p: "p = (if name = lit ''.'' then \<lparr>components = cs, stream = strm\<rparr>
      else \<lparr>components = cs @ [name], stream = strm\<rparr>)"
    and n: "name \<noteq> []" "name = lit ''.'' \<Longrightarrow> strm = None" "name \<noteq> lit ''..''"
      "name \<noteq> lit ''.'' \<Longrightarrow> \<not> is_reserved_dos_name name"
    using assms False ok colon sel cs
    by (simp_all add: parse_components_def Let_def lit_def split: if_split_asm)
  show ?thesis
  proof (cases "name = lit ''.''")
    case True
    with n(2) p cs_valid show ?thesis by (simp add: valid_path_def)
  next
    case nd: False
    with n name have "valid_component name" by (simp add: valid_component_def)
    with nd p cs_valid strm show ?thesis by (simp add: valid_path_def split: option.splits)
  qed
qed

lemma decoded_path_valid: "path_from_utf16 units = Inr p \<Longrightarrow> valid_path p"
  by (auto simp: path_from_utf16_def dest: parse_components_valid split: option.splits)

text \<open>
  C24: Whatever UTF-16 name a client sends, a path that the parser accepts is safe for a backend:
  no component is empty, \<open>.\<close>, \<open>..\<close> or a reserved DOS device name, and no component and no stream
  name holds a separator, a control or wildcard character or a colon; a stream has a host file.
\<close>

theorem path_from_utf16_valid:
  assumes "path_from_utf16 units = Inr p"
  shows "valid_path p"
  using assms by (rule decoded_path_valid)

theorem path_from_utf16_valid_witness:
  "valid_path \<lparr>components = [lit ''d'', lit ''f''], stream = Some (lit ''s'')\<rparr>"
proof -
  let ?s = "lit (''d'' @ [CHR 0x5C] @ ''f:s'')"
  have "from_utf16 (encode_utf16 ?s) = Some ?s"
    by (rule from_utf16_encode) (simp add: lit_def is_scalar_def)
  moreover have "parse_components ?s
      = Inr \<lparr>components = [lit ''d'', lit ''f''], stream = Some (lit ''s'')\<rparr>"
    by code_simp
  ultimately have "path_from_utf16 (encode_utf16 ?s)
      = Inr \<lparr>components = [lit ''d'', lit ''f''], stream = Some (lit ''s'')\<rparr>"
    by (simp add: path_from_utf16_def)
  then show ?thesis by (rule path_from_utf16_valid)
qed

text \<open>
  Printing a valid path without a stream selector and parsing the text again gives the same
  path; in particular the parser accepts every path whose components satisfy the documented rules.
\<close>

theorem display_backslash_parse:
  assumes "valid_path p" and "stream p = None"
  shows "parse_components (display_backslash p) = Inr p"
proof (cases "components p = []")
  case True
  with assms show ?thesis
    by (simp add: parse_components_def display_backslash_def strip_leading_def root_path_def)
next
  case False
  define cs where "cs = components p"
  have comp: "valid_component c" if "c \<in> set cs" for c
    using that assms(1) by (auto simp: valid_path_def cs_def list_all_iff)
  have plain: "plain_char x" if "c \<in> set cs" "x \<in> set c" for c x
    using comp [OF that(1)] that(2) by (auto simp: valid_component_def list_all_iff)
  have join_chars: "x \<in> set (join_backslash ds) \<Longrightarrow> x = 92 \<or> (\<exists>c \<in> set ds. x \<in> set c)" for ds x
    by (induction ds rule: join_backslash.induct) auto
  obtain c0 r where c0: "cs = c0 # r" using False unfolding cs_def by (meson list.exhaust)
  with comp have "c0 \<noteq> []" by (auto simp: valid_component_def)
  with c0 obtain x xs where first: "join_backslash cs = x # xs" "x \<in> set c0"
    by (cases r; cases c0) auto
  with plain [of c0 x] c0 have "\<not> is_sep x" by (auto simp: plain_char_def)
  with first have strip: "strip_leading (join_backslash cs) = join_backslash cs"
    by (simp add: strip_leading_def)
  have ok: "\<not> list_ex forbidden_char (join_backslash cs)"
    using plain join_chars by (fastforce simp: list_ex_iff plain_char_def forbidden_char_def)
  have split: "split_seps (join_backslash cs) = cs"
    using c0 plain by (intro split_seps_join) (auto simp: plain_char_def)
  have colon: "\<not> list_ex (\<lambda>raw. 58 \<in> set raw) (butlast cs)"
    using plain by (fastforce simp: list_ex_iff plain_char_def dest: in_set_butlastD)
  have last: "last cs \<in> set cs" using c0 by simp
  with plain have "58 \<notin> set (last cs)" by (auto simp: plain_char_def)
  then have sel: "split_stream_selector (last cs) = Inr (last cs, None)"
    by (rule split_stream_selector_plain)
  have "list_all valid_component (butlast cs)"
    using comp by (auto simp: list_all_iff dest: in_set_butlastD)
  then have "collect_parts (butlast cs) = Inr (butlast cs)" by (rule collect_parts_id)
  moreover have "p = \<lparr>components = butlast cs @ [last cs], stream = None\<rparr>"
    using assms(2) c0 by (simp add: cs_def)
  moreover have "join_backslash cs \<noteq> []" using first by simp
  ultimately have "parse_components (join_backslash cs) = Inr p"
    using comp [OF last]
    by (simp add: parse_components_def Let_def strip ok split colon sel valid_component_def)
  then show ?thesis by (simp add: display_backslash_def cs_def)
qed

theorem display_backslash_parse_witness:
  "parse_components (display_backslash \<lparr>components = [lit ''d'', lit ''f''], stream = None\<rparr>)
     = Inr \<lparr>components = [lit ''d'', lit ''f''], stream = None\<rparr>"
proof -
  have "valid_path \<lparr>components = [lit ''d'', lit ''f''], stream = None\<rparr>"
    by code_simp
  from display_backslash_parse [OF this] show ?thesis by simp
qed

lemma parent_valid: "valid_path p \<Longrightarrow> parent p = Some q \<Longrightarrow> valid_path q"
  by (auto simp: parent_def valid_path_def list_all_iff split: if_split_asm
      dest!: in_set_butlastD)

lemma path_join_valid: "valid_path p \<Longrightarrow> path_join p l = Inr q \<Longrightarrow> valid_path q"
  by (auto simp: path_join_def valid_path_def split: sum.splits option.splits
      dest!: parse_components_valid)

end
