(* ===== verification/Backend.thy ===== *)
theory Backend
  imports Path
begin

text \<open>
  The storage interface, \<open>src/src/backend.rs\<close>. The trait objects \<open>dyn ShareBackend\<close> and
  \<open>dyn Handle\<close> are records of functions over a world of type \<open>'w\<close>, whatever state the backend
  keeps; every call returns a result and the next world. The contract that the handlers rely on
  is the locale \<open>share_backend\<close>.
\<close>

datatype open_intent =
    IntentOpen | IntentCreate | IntentOpenOrCreate | IntentOverwriteOrCreate | IntentTruncate

record open_options =
  oo_read :: bool
  oo_write :: bool
  oo_intent :: open_intent
  oo_directory :: bool
  oo_non_directory :: bool
  oo_delete_on_close :: bool

definition open_options_default :: open_options where
  "open_options_default =
     \<lparr>oo_read = True, oo_write = False, oo_intent = IntentOpen, oo_directory = False,
      oo_non_directory = False, oo_delete_on_close = False\<rparr>"

record file_info =
  fi_name :: rstring
  fi_end_of_file :: u64
  fi_allocation_size :: u64
  fi_creation_time :: u64
  fi_last_access_time :: u64
  fi_last_write_time :: u64
  fi_change_time :: u64
  fi_is_directory :: bool
  fi_file_index :: u64

definition fi_attributes :: "file_info \<Rightarrow> u32" where
  "fi_attributes i = (if fi_is_directory i then 0x00000010 else 0x00000080)"

type_synonym dir_entry = file_info

record file_times =
  ft_creation_time :: "u64 option"
  ft_last_access_time :: "u64 option"
  ft_last_write_time :: "u64 option"
  ft_change_time :: "u64 option"

definition file_times_all :: "system_time \<Rightarrow> file_times" where
  "file_times_all t =
     (let ft = system_time_to_filetime t in
      \<lparr>ft_creation_time = Some ft, ft_last_access_time = Some ft, ft_last_write_time = Some ft,
       ft_change_time = Some ft\<rparr>)"

record backend_capabilities =
  bc_is_read_only :: bool
  bc_case_sensitive :: bool
  bc_supports_named_streams :: bool

type_synonym ('w, 'a) io = "'w \<Rightarrow> (smb_error + 'a) \<times> 'w"

record 'w handle =
  h_read :: "u64 \<Rightarrow> u32 \<Rightarrow> ('w, bytes) io"
  h_write :: "u64 \<Rightarrow> bytes \<Rightarrow> ('w, u32) io"
  h_flush :: "('w, unit) io"
  h_stat :: "('w, file_info) io"
  h_set_times :: "file_times \<Rightarrow> ('w, unit) io"
  h_truncate :: "u64 \<Rightarrow> ('w, unit) io"
  h_list_dir :: "rstring option \<Rightarrow> ('w, dir_entry list) io"
  h_close :: "('w, unit) io"

record 'w backend =
  be_open :: "smb_path \<Rightarrow> open_options \<Rightarrow> ('w, 'w handle) io"
  be_unlink :: "smb_path \<Rightarrow> ('w, unit) io"
  be_rename :: "smb_path \<Rightarrow> smb_path \<Rightarrow> bool \<Rightarrow> ('w, unit) io"
  be_capabilities :: backend_capabilities

text \<open>The backend of the synthetic \<open>IPC$\<close> share.\<close>

definition not_supported_backend :: "'w backend" where
  "not_supported_backend =
     \<lparr>be_open = (\<lambda>_ _ w. (Inl NotSupported, w)), be_unlink = (\<lambda>_ w. (Inl NotSupported, w)),
      be_rename = (\<lambda>_ _ _ w. (Inl NotSupported, w)),
      be_capabilities = \<lparr>bc_is_read_only = True, bc_case_sensitive = False,
                         bc_supports_named_streams = False\<rparr>\<rparr>"

section \<open>The contract\<close>

text \<open>A handle of a backend: one that some open of an accepted path returned.\<close>

definition opened_by :: "'w backend \<Rightarrow> 'w handle \<Rightarrow> bool" where
  "opened_by b h \<longleftrightarrow> (\<exists>p opts w w'. valid_path p \<and> be_open b p opts w = (Inr h, w'))"

lemma opened_byI: "valid_path p \<Longrightarrow> be_open b p opts w = (Inr h, w') \<Longrightarrow> opened_by b h"
  unfolding opened_by_def by blast

text \<open>
  What the trait documentation promises and the handlers rely on: a read returns at most the
  bytes asked for, a write reports at most the bytes given, and neither asking for metadata nor
  reading nor closing changes the stored data. \<open>view\<close> is the stored data, whatever the backend
  takes it to be (access times, say, need not be part of it).
\<close>

locale share_backend =
  fixes b :: "'w backend"
    and view :: "'w \<Rightarrow> 'v"
  assumes read_bound: "opened_by b h \<Longrightarrow> h_read h off len w = (Inr bs, w') \<Longrightarrow> length bs \<le> unat len"
    and write_bound: "opened_by b h \<Longrightarrow> h_write h off dat w = (Inr n, w') \<Longrightarrow> unat n \<le> length dat"
    and read_view: "opened_by b h \<Longrightarrow> view (snd (h_read h off len w)) = view w"
    and stat_view: "opened_by b h \<Longrightarrow> view (snd (h_stat h w)) = view w"
    and close_view: "opened_by b h \<Longrightarrow> view (snd (h_close h w)) = view w"
begin

lemma read_length: "opened_by b h \<Longrightarrow> h_read h off len w = (Inr bs, w') \<Longrightarrow> length bs < 2 ^ 32"
  using read_bound [of h off len w bs w'] unsigned_less [of len, where ?'a = nat] by simp

text \<open>Closing handles, however many, keeps the stored data.\<close>

lemma closes_view:
  "\<forall>h \<in> set hs. opened_by b h \<Longrightarrow> view (foldl (\<lambda>w h. snd (h_close h w)) w hs) = view w"
  by (induction hs arbitrary: w) (simp_all add: close_view)

end

lemma not_supported_opens_nothing [simp]: "\<not> opened_by not_supported_backend h"
  by (simp add: opened_by_def not_supported_backend_def)

interpretation not_supported: share_backend not_supported_backend "\<lambda>w. w"
  by unfold_locales simp_all

end
