(* ===== verification/Share.thy ===== *)
theory Share
  imports Backend
begin

text \<open>
  Access levels and shares: \<open>Access\<close> and \<open>Share\<close> of \<open>src/src/builder.rs\<close>, \<open>ShareMode\<close>,
  \<open>ShareAcl\<close> and \<open>ShareBindings\<close> of \<open>src/src/server.rs\<close>. A share's access list is behind a lock
  of its own in the code; here it is a part of the binding, and the operations that change it
  replace the binding in the server's table.
\<close>

datatype access = ReadOnlyAccess | ReadWriteAccess

definition allows_write :: "access \<Rightarrow> bool" where
  "allows_write a \<longleftrightarrow> a = ReadWriteAccess"

definition clamp_to :: "access \<Rightarrow> access \<Rightarrow> access" where
  "clamp_to a cap =
     (case (a, cap) of (ReadWriteAccess, ReadWriteAccess) \<Rightarrow> ReadWriteAccess
      | _ \<Rightarrow> ReadOnlyAccess)"

text \<open>Reading is below writing; \<open>clamp_to\<close> is the meet of the order.\<close>

instantiation access :: linorder
begin

definition less_eq_access :: "access \<Rightarrow> access \<Rightarrow> bool" where
  "less_eq_access a b \<longleftrightarrow> a = ReadOnlyAccess \<or> b = ReadWriteAccess"

definition less_access :: "access \<Rightarrow> access \<Rightarrow> bool" where
  "less_access a b \<longleftrightarrow> a = ReadOnlyAccess \<and> b = ReadWriteAccess"

instance
proof
  fix x y z :: access
  show "x < y \<longleftrightarrow> x \<le> y \<and> \<not> y \<le> x"
    by (cases x; cases y) (simp_all add: less_eq_access_def less_access_def)
  show "x \<le> x" by (cases x) (simp_all add: less_eq_access_def)
  show "x \<le> y \<Longrightarrow> y \<le> z \<Longrightarrow> x \<le> z"
    by (cases x; cases y; cases z) (simp_all add: less_eq_access_def)
  show "x \<le> y \<Longrightarrow> y \<le> x \<Longrightarrow> x = y"
    by (cases x; cases y) (simp_all add: less_eq_access_def)
  show "x \<le> y \<or> y \<le> x" by (cases x; cases y) (simp_all add: less_eq_access_def)
qed

end

lemma clamp_to_min: "clamp_to a cap = min a cap"
  by (cases a; cases cap) (simp_all add: clamp_to_def min_def less_eq_access_def)

lemma clamp_to_read [simp]: "clamp_to a ReadOnlyAccess = ReadOnlyAccess"
  by (cases a) (simp_all add: clamp_to_def)

lemma allows_write_simps [simp]: "allows_write ReadWriteAccess" "\<not> allows_write ReadOnlyAccess"
  by (simp_all add: allows_write_def)

lemma not_allows_write [simp]: "\<not> allows_write a \<longleftrightarrow> a = ReadOnlyAccess"
  by (cases a) simp_all

datatype share_mode = Public | PublicReadOnly | AuthenticatedOnly

definition is_public_mode :: "share_mode \<Rightarrow> bool" where
  "is_public_mode m \<longleftrightarrow> m = Public \<or> m = PublicReadOnly"

type_synonym share_users = "(rstring, access) table"

record 'w share_bindings =
  sb_name :: rstring
  sb_backend :: "'w backend"
  sb_mode :: share_mode
  sb_users :: share_users
  sb_is_ipc :: bool

definition share_bindings_new ::
    "rstring \<Rightarrow> 'w backend \<Rightarrow> share_mode \<Rightarrow> share_users \<Rightarrow> bool \<Rightarrow> 'w share_bindings" where
  "share_bindings_new name b mode users is_ipc =
     \<lparr>sb_name = name, sb_backend = b, sb_mode = mode, sb_users = users, sb_is_ipc = is_ipc\<rparr>"

definition ipc_share :: "'w share_bindings" where
  "ipc_share = share_bindings_new (lit ''IPC$'') not_supported_backend PublicReadOnly [] True"

section \<open>Share definitions\<close>

record 'w share =
  sh_name :: rstring
  sh_backend :: "'w backend"
  sh_mode :: share_mode
  sh_users :: share_users

definition share_new :: "rstring \<Rightarrow> 'w backend \<Rightarrow> 'w share" where
  "share_new name b =
     \<lparr>sh_name = name, sh_backend = b, sh_mode = AuthenticatedOnly, sh_users = []\<rparr>"

definition share_public :: "'w share \<Rightarrow> 'w share" where
  "share_public s = s\<lparr>sh_mode := Public\<rparr>"

definition share_public_read_only :: "'w share \<Rightarrow> 'w share" where
  "share_public_read_only s = s\<lparr>sh_mode := PublicReadOnly\<rparr>"

definition share_user :: "rstring \<Rightarrow> access \<Rightarrow> 'w share \<Rightarrow> 'w share" where
  "share_user name a s = s\<lparr>sh_users := tbl_insert name a (sh_users s)\<rparr>"

end
