(* ===== verification/Conn_State.thy ===== *)
theory Conn_State
  imports Share Ntlm Header Messages_Session Messages_File
begin

text \<open>
  Connections, sessions, tree connects and opens: \<open>src/src/conn/state.rs\<close>. The tables of
  reference-counted, locked objects are nested association lists; a handler that holds a
  reference to an object of a table reads and writes the entry of the table. The counters are
  the \<open>AtomicU64\<close> and \<open>AtomicU32\<close> of the code and wrap around like them.
\<close>

record dir_cursor =
  dc_entries :: "dir_entry list"
  dc_next :: nat
  dc_pattern :: "rstring option"

record 'w open_file =
  open_file_id :: file_id
  open_handle :: "'w handle option"
  open_granted_access :: access
  open_last_path :: smb_path
  open_is_directory :: bool
  open_delete_on_close :: bool
  open_search_state :: "dir_cursor option"

definition open_new ::
    "file_id \<Rightarrow> 'w handle \<Rightarrow> access \<Rightarrow> smb_path \<Rightarrow> bool \<Rightarrow> bool \<Rightarrow> 'w open_file" where
  "open_new fid h granted last_path is_directory delete_on_close =
     \<lparr>open_file_id = fid, open_handle = Some h, open_granted_access = granted,
      open_last_path = last_path, open_is_directory = is_directory,
      open_delete_on_close = delete_on_close, open_search_state = None\<rparr>"

record 'w tree_connect =
  tree_id :: u32
  tree_share :: "'w share_bindings"
  tree_granted_access :: access
  tree_opens :: "(file_id, 'w open_file) table"
  tree_next_volatile :: u64

definition tree_connect_new :: "u32 \<Rightarrow> 'w share_bindings \<Rightarrow> access \<Rightarrow> 'w tree_connect" where
  "tree_connect_new i share granted =
     \<lparr>tree_id = i, tree_share = share, tree_granted_access = granted, tree_opens = [],
      tree_next_volatile = 1\<rparr>"

definition alloc_file_id :: "'w tree_connect \<Rightarrow> file_id \<times> 'w tree_connect" where
  "alloc_file_id t =
     (let v = tree_next_volatile t
      in (\<lparr>fid_persistent = v, fid_volatile = v\<rparr>, t\<lparr>tree_next_volatile := v + 1\<rparr>))"

record 'w session =
  sess_id :: u64
  sess_identity :: identity
  sess_base_key :: bytes
  sess_signing_key :: bytes
  sess_signing_required :: bool
  sess_trees :: "(u32, 'w tree_connect) table"
  sess_preauth_snapshot :: "bytes option"
  sess_next_tree_id :: u32

definition session_new ::
    "u64 \<Rightarrow> identity \<Rightarrow> bytes \<Rightarrow> bytes \<Rightarrow> bool \<Rightarrow> bytes option \<Rightarrow> 'w session" where
  "session_new i who base_key sign_key signing_required snapshot =
     \<lparr>sess_id = i, sess_identity = who, sess_base_key = base_key, sess_signing_key = sign_key,
      sess_signing_required = signing_required, sess_trees = [],
      sess_preauth_snapshot = snapshot, sess_next_tree_id = 1\<rparr>"

definition alloc_tree_id :: "'w session \<Rightarrow> u32 \<times> 'w session" where
  "alloc_tree_id s = (sess_next_tree_id s, s\<lparr>sess_next_tree_id := sess_next_tree_id s + 1\<rparr>)"

definition sess_is_anonymous :: "'w session \<Rightarrow> bool" where
  "sess_is_anonymous s \<longleftrightarrow> sess_identity s = Anonymous"

record 'w connection =
  conn_id :: u64
  conn_server_guid :: bytes
  conn_client_guid :: bytes
  conn_dialect :: "dialect option"
  conn_signing_algo :: signing_algo
  conn_preauth :: preauth_integrity
  conn_max_read_size :: u32
  conn_max_write_size :: u32
  conn_sessions :: "(u64, 'w session) table"
  conn_pending_auths :: "(u64, ntlm_server \<times> bool) table"
  conn_session_preauth :: "(u64, preauth_integrity) table"
  conn_next_session_id :: u64

definition connection_new :: "u64 \<Rightarrow> bytes \<Rightarrow> u32 \<Rightarrow> u32 \<Rightarrow> 'w connection" where
  "connection_new i guid max_read max_write =
     \<lparr>conn_id = i, conn_server_guid = guid, conn_client_guid = replicate 16 0,
      conn_dialect = None, conn_signing_algo = HmacSha256, conn_preauth = preauth_new,
      conn_max_read_size = max_read, conn_max_write_size = max_write, conn_sessions = [],
      conn_pending_auths = [], conn_session_preauth = [], conn_next_session_id = 1\<rparr>"

definition alloc_session_id :: "'w connection \<Rightarrow> u64 \<times> 'w connection" where
  "alloc_session_id c =
     (conn_next_session_id c, c\<lparr>conn_next_session_id := conn_next_session_id c + 1\<rparr>)"

section \<open>Closing\<close>

text \<open>\<open>close_tree_state\<close>: the opens are drained and their handles closed, errors ignored.\<close>

fun close_opens :: "(file_id \<times> 'w open_file) list \<Rightarrow> 'w \<Rightarrow> 'w" where
  "close_opens [] w = w"
| "close_opens ((_, op) # ops) w =
     (case open_handle op of
        None \<Rightarrow> close_opens ops w
      | Some h \<Rightarrow> close_opens ops (snd (h_close h w)))"

definition close_tree_state :: "'w tree_connect \<Rightarrow> 'w \<Rightarrow> 'w" where
  "close_tree_state t w = close_opens (tree_opens t) w"

fun close_trees :: "(u32 \<times> 'w tree_connect) list \<Rightarrow> 'w \<Rightarrow> 'w" where
  "close_trees [] w = w"
| "close_trees ((_, t) # ts) w = close_trees ts (close_tree_state t w)"

definition close_session_state :: "'w session \<Rightarrow> 'w \<Rightarrow> 'w" where
  "close_session_state s w = close_trees (sess_trees s) w"

definition remove_tree_from_session ::
    "'w session \<Rightarrow> u32 \<Rightarrow> 'w \<Rightarrow> bool \<times> 'w session \<times> 'w" where
  "remove_tree_from_session s tid w =
     (case tbl_get (sess_trees s) tid of
        None \<Rightarrow> (False, s, w)
      | Some t \<Rightarrow>
          (True, s\<lparr>sess_trees := tbl_remove tid (sess_trees s)\<rparr>, close_tree_state t w))"

definition close_session :: "u64 \<Rightarrow> 'w connection \<Rightarrow> 'w \<Rightarrow> bool \<times> 'w connection \<times> 'w" where
  "close_session sid c w =
     (case tbl_get (conn_sessions c) sid of
        None \<Rightarrow> (False, c, w)
      | Some s \<Rightarrow>
          (True, c\<lparr>conn_sessions := tbl_remove sid (conn_sessions c)\<rparr>, close_session_state s w))"

definition close_tree :: "u64 \<Rightarrow> u32 \<Rightarrow> 'w connection \<Rightarrow> 'w \<Rightarrow> bool \<times> 'w connection \<times> 'w" where
  "close_tree sid tid c w =
     (case tbl_get (conn_sessions c) sid of
        None \<Rightarrow> (False, c, w)
      | Some s \<Rightarrow>
          (let (removed, s', w') = remove_tree_from_session s tid w
           in (removed, c\<lparr>conn_sessions := tbl_insert sid s' (conn_sessions c)\<rparr>, w')))"

fun close_sessions :: "u64 list \<Rightarrow> 'w connection \<Rightarrow> 'w \<Rightarrow> nat \<times> 'w connection \<times> 'w" where
  "close_sessions [] c w = (0, c, w)"
| "close_sessions (sid # sids) c w =
     (let (closed, c1, w1) = close_session sid c w;
          (n, c2, w2) = close_sessions sids c1 w1
      in ((if closed then n + 1 else n), c2, w2))"

definition is_user :: "rstring \<Rightarrow> identity \<Rightarrow> bool" where
  "is_user user who = (case who of User u _ \<Rightarrow> u = user | Anonymous \<Rightarrow> False)"

definition close_sessions_for_user ::
    "rstring \<Rightarrow> 'w connection \<Rightarrow> 'w \<Rightarrow> nat \<times> 'w connection \<times> 'w" where
  "close_sessions_for_user user c w =
     close_sessions
       (map fst (filter (\<lambda>(_, s). is_user user (sess_identity s)) (conn_sessions c))) c w"

fun remove_trees :: "u32 list \<Rightarrow> 'w session \<Rightarrow> 'w \<Rightarrow> nat \<times> 'w session \<times> 'w" where
  "remove_trees [] s w = (0, s, w)"
| "remove_trees (tid # tids) s w =
     (let (removed, s1, w1) = remove_tree_from_session s tid w;
          (n, s2, w2) = remove_trees tids s1 w1
      in ((if removed then n + 1 else n), s2, w2))"

fun close_matching_in ::
    "('w session \<Rightarrow> 'w tree_connect \<Rightarrow> bool) \<Rightarrow> (u64 \<times> 'w session) list \<Rightarrow> 'w \<Rightarrow>
     nat \<times> (u64 \<times> 'w session) list \<times> 'w" where
  "close_matching_in matches [] w = (0, [], w)"
| "close_matching_in matches ((sid, s) # rest) w =
     (let tree_ids = map fst (filter (\<lambda>(_, t). matches s t) (sess_trees s));
          (n, s1, w1) = remove_trees tree_ids s w;
          (m, rest1, w2) = close_matching_in matches rest w1
      in (n + m, (sid, s1) # rest1, w2))"

definition close_matching_trees ::
    "('w session \<Rightarrow> 'w tree_connect \<Rightarrow> bool) \<Rightarrow> 'w connection \<Rightarrow> 'w \<Rightarrow> nat \<times> 'w connection \<times> 'w" where
  "close_matching_trees matches c w =
     (let (n, sessions, w') = close_matching_in matches (conn_sessions c) w
      in (n, c\<lparr>conn_sessions := sessions\<rparr>, w'))"

definition close_trees_for_share ::
    "rstring \<Rightarrow> 'w connection \<Rightarrow> 'w \<Rightarrow> nat \<times> 'w connection \<times> 'w" where
  "close_trees_for_share share_name =
     close_matching_trees (\<lambda>_ t. eq_ignore_ascii_case (sb_name (tree_share t)) share_name)"

definition close_trees_for_user_share ::
    "rstring \<Rightarrow> rstring \<Rightarrow> 'w connection \<Rightarrow> 'w \<Rightarrow> nat \<times> 'w connection \<times> 'w" where
  "close_trees_for_user_share user share_name =
     close_matching_trees (\<lambda>s t. is_user user (sess_identity s) \<and>
       eq_ignore_ascii_case (sb_name (tree_share t)) share_name)"

section \<open>Well-formed connections\<close>

text \<open>
  Every object is stored under its own identifier, no open has more access than its tree, no tree
  more than its backend allows, every handle comes from the backend of the tree's share, opened by
  a path that the path parser accepted, and the path an open is recorded under is such a path.
\<close>

definition open_ok :: "'w backend \<Rightarrow> access \<Rightarrow> file_id \<Rightarrow> 'w open_file \<Rightarrow> bool" where
  "open_ok b granted fid op \<longleftrightarrow> open_file_id op = fid \<and> open_granted_access op \<le> granted \<and>
     valid_path (open_last_path op) \<and>
     (case open_handle op of None \<Rightarrow> True | Some h \<Rightarrow> opened_by b h)"

definition read_only_share :: "'w share_bindings \<Rightarrow> bool" where
  "read_only_share sb \<longleftrightarrow> bc_is_read_only (be_capabilities (sb_backend sb))"

definition tree_ok :: "u32 \<Rightarrow> 'w tree_connect \<Rightarrow> bool" where
  "tree_ok tid t \<longleftrightarrow> tree_id t = tid \<and>
     (read_only_share (tree_share t) \<longrightarrow> tree_granted_access t = ReadOnlyAccess) \<and>
     tbl_all (open_ok (sb_backend (tree_share t)) (tree_granted_access t)) (tree_opens t)"

definition session_ok :: "u64 \<Rightarrow> 'w session \<Rightarrow> bool" where
  "session_ok sid s \<longleftrightarrow> sess_id s = sid \<and> tbl_all tree_ok (sess_trees s)"

definition conn_ok :: "'w connection \<Rightarrow> bool" where
  "conn_ok c \<longleftrightarrow> tbl_all session_ok (conn_sessions c) \<and> tbl_ok (conn_pending_auths c) \<and>
     tbl_ok (conn_session_preauth c)"

lemma conn_ok_new [simp, intro]: "conn_ok (connection_new i g r w)"
  by (simp add: conn_ok_def connection_new_def)

lemma session_ok_new [simp, intro]: "session_ok i (session_new i who k sk req snap)"
  by (simp add: session_ok_def session_new_def)

lemma conn_ok_sessions:
  "conn_ok c \<Longrightarrow> tbl_get (conn_sessions c) sid = Some s \<Longrightarrow> session_ok sid s"
  by (auto simp: conn_ok_def dest: tbl_all_get)

lemma session_ok_trees:
  "session_ok sid s \<Longrightarrow> tbl_get (sess_trees s) tid = Some t \<Longrightarrow> tree_ok tid t"
  by (auto simp: session_ok_def dest: tbl_all_get)

lemma tree_ok_opens:
  "tree_ok tid t \<Longrightarrow> tbl_get (tree_opens t) fid = Some op \<Longrightarrow>
    open_ok (sb_backend (tree_share t)) (tree_granted_access t) fid op"
  by (auto simp: tree_ok_def dest: tbl_all_get)

lemma conn_ok_put_session:
  "conn_ok c \<Longrightarrow> session_ok sid s \<Longrightarrow>
    conn_ok (c\<lparr>conn_sessions := tbl_insert sid s (conn_sessions c)\<rparr>)"
  by (auto simp: conn_ok_def)

lemma session_ok_put_tree:
  "session_ok sid s \<Longrightarrow> tree_ok tid t \<Longrightarrow>
    session_ok sid (s\<lparr>sess_trees := tbl_insert tid t (sess_trees s)\<rparr>)"
  by (auto simp: session_ok_def)

lemma tree_ok_put_open:
  "tree_ok tid t \<Longrightarrow> open_ok (sb_backend (tree_share t)) (tree_granted_access t) fid op \<Longrightarrow>
    tree_ok tid (t\<lparr>tree_opens := tbl_insert fid op (tree_opens t)\<rparr>)"
  by (auto simp: tree_ok_def)

lemma tree_ok_remove_open:
  "tree_ok tid t \<Longrightarrow> tree_ok tid (t\<lparr>tree_opens := tbl_remove fid (tree_opens t)\<rparr>)"
  by (auto simp: tree_ok_def)

lemmas conn_ok_intros = conn_ok_put_session session_ok_put_tree tree_ok_put_open
  tree_ok_remove_open

section \<open>What closing does\<close>

text \<open>Every handle under an object is closed, once, in table order.\<close>

definition run_closes :: "'w handle list \<Rightarrow> 'w \<Rightarrow> 'w" where
  "run_closes hs w = foldl (\<lambda>w h. snd (h_close h w)) w hs"

definition tree_handles :: "'w tree_connect \<Rightarrow> 'w handle list" where
  "tree_handles t = List.map_filter (\<lambda>(_, op). open_handle op) (tree_opens t)"

definition session_handles :: "'w session \<Rightarrow> 'w handle list" where
  "session_handles s = concat (map (\<lambda>(_, t). tree_handles t) (sess_trees s))"

lemma run_closes_append [simp]: "run_closes (xs @ ys) w = run_closes ys (run_closes xs w)"
  by (simp add: run_closes_def)

lemma run_closes_Nil [simp]: "run_closes [] w = w"
  by (simp add: run_closes_def)

lemma close_opens_run:
  "close_opens ops w = run_closes (List.map_filter (\<lambda>(_, op). open_handle op) ops) w"
  by (induction ops w rule: close_opens.induct)
    (auto simp: run_closes_def List.map_filter_simps split: option.splits)

lemma close_tree_state_run: "close_tree_state t w = run_closes (tree_handles t) w"
  by (simp add: close_tree_state_def tree_handles_def close_opens_run)

lemma close_trees_run:
  "close_trees ts w = run_closes (concat (map (\<lambda>(_, t). tree_handles t) ts)) w"
  by (induction ts w rule: close_trees.induct) (simp_all add: close_tree_state_run)

lemma close_session_state_run: "close_session_state s w = run_closes (session_handles s) w"
  by (simp add: close_session_state_def session_handles_def close_trees_run)

lemma close_session_ok: "conn_ok c \<Longrightarrow> close_session sid c w = (r, c', w') \<Longrightarrow> conn_ok c'"
  by (auto simp: close_session_def conn_ok_def split: option.splits)

lemma close_session_gone:
  "close_session sid c w = (r, c', w') \<Longrightarrow>
    tbl_get (conn_sessions c') k = (if k = sid then None else tbl_get (conn_sessions c) k)"
  by (auto simp: close_session_def split: option.splits)

lemma remove_tree_session_ok:
  "session_ok sid s \<Longrightarrow> remove_tree_from_session s tid w = (r, s', w') \<Longrightarrow> session_ok sid s'"
  by (auto simp: remove_tree_from_session_def session_ok_def split: option.splits)

lemma close_tree_ok: "conn_ok c \<Longrightarrow> close_tree sid tid c w = (r, c', w') \<Longrightarrow> conn_ok c'"
  by (auto simp: close_tree_def split: option.splits prod.splits
      intro!: conn_ok_put_session dest: remove_tree_session_ok conn_ok_sessions)

text \<open>The bulk operations: what is left is what did not match.\<close>

lemma remove_tree_trees:
  assumes "remove_tree_from_session s tid w = (r, s', w')"
  shows "s' = s\<lparr>sess_trees := filter (\<lambda>(t, _). t \<noteq> tid) (sess_trees s)\<rparr>"
proof (cases "tbl_get (sess_trees s) tid")
  case None
  then have "filter (\<lambda>(t, _). t \<noteq> tid) (sess_trees s) = sess_trees s"
    by (intro filter_True) (force simp: tbl_get_None_iff)
  with None assms show ?thesis by (simp add: remove_tree_from_session_def)
next
  case (Some t)
  then show ?thesis
    using assms
    by (auto simp: remove_tree_from_session_def tbl_remove_def AList.delete_eq case_prod_unfold
        eq_commute [of tid])
qed

lemma remove_trees_filter:
  "remove_trees tids s w = (n, s', w') \<Longrightarrow>
    s' = s\<lparr>sess_trees := filter (\<lambda>(tid, _). tid \<notin> set tids) (sess_trees s)\<rparr>"
proof (induction tids s w arbitrary: n s' w' rule: remove_trees.induct)
  case (1 s w)
  then show ?case by simp
next
  case (2 tid tids s w)
  obtain r s1 w1 where r: "remove_tree_from_session s tid w = (r, s1, w1)"
    by (metis prod_cases3)
  obtain m s2 w2 where m: "remove_trees tids s1 w1 = (m, s2, w2)" by (metis prod_cases3)
  have s2: "s2 = s1\<lparr>sess_trees := filter (\<lambda>(tid, _). tid \<notin> set tids) (sess_trees s1)\<rparr>"
    using "2.IH" [OF r [symmetric] refl refl m] .
  with remove_tree_trees [OF r] r m "2.prems" show ?case
    by (simp add: case_prod_unfold conj_commute Let_def)
qed

lemma filter_matching:
  assumes "tbl_ok ts"
  shows "filter (\<lambda>(tid, _). tid \<notin> fst ` set (filter (\<lambda>(_, t). P t) ts)) ts
    = filter (\<lambda>(_, t). \<not> P t) ts"
proof (rule filter_cong [OF refl])
  fix x assume x: "x \<in> set ts"
  obtain tid t where xt: "x = (tid, t)" by (cases x)
  have "t' = t" if "(tid, t') \<in> set ts" for t'
    using tbl_in_get [OF assms that] tbl_in_get [OF assms, of tid t] x xt by simp
  then have "(\<exists>t'. (tid, t') \<in> set ts \<and> P t') \<longleftrightarrow> P t" using x xt by blast
  moreover have "tid \<in> fst ` set (filter (\<lambda>(_, t). P t) ts) \<longleftrightarrow> (\<exists>t'. (tid, t') \<in> set ts \<and> P t')"
    by force
  ultimately show "(case x of (tid, _) \<Rightarrow> tid \<notin> fst ` set (filter (\<lambda>(_, t). P t) ts))
      \<longleftrightarrow> (case x of (_, t) \<Rightarrow> \<not> P t)"
    by (simp add: xt)
qed

definition keep_trees ::
    "('w session \<Rightarrow> 'w tree_connect \<Rightarrow> bool) \<Rightarrow> 'w session \<Rightarrow> 'w session" where
  "keep_trees matches s = s\<lparr>sess_trees := filter (\<lambda>(_, t). \<not> matches s t) (sess_trees s)\<rparr>"

lemma close_matching_in_keep:
  "close_matching_in matches ss w = (n, ss', w') \<Longrightarrow>
    list_all (\<lambda>(sid, s). session_ok sid s) ss \<Longrightarrow>
    ss' = map (\<lambda>(sid, s). (sid, keep_trees matches s)) ss"
proof (induction matches ss w arbitrary: n ss' w' rule: close_matching_in.induct)
  case (1 matches w)
  then show ?case by simp
next
  case (2 matches sid s rest w)
  let ?ids = "map fst (filter (\<lambda>(_, t). matches s t) (sess_trees s))"
  obtain k s1 w1 where k: "remove_trees ?ids s w = (k, s1, w1)" by (metis prod_cases3)
  obtain m r1 w2 where m: "close_matching_in matches rest w1 = (m, r1, w2)" by (metis prod_cases3)
  have "r1 = map (\<lambda>(sid, s). (sid, keep_trees matches s)) rest"
    using "2.IH" [OF refl k [symmetric] refl refl m] "2.prems"(2) by simp
  moreover have "s1 = keep_trees matches s"
    using remove_trees_filter [OF k] "2.prems"(2) filter_matching [of "sess_trees s" "matches s"]
    by (auto simp: keep_trees_def session_ok_def dest: tbl_all_ok)
  ultimately show ?case using k m "2.prems"(1) by simp
qed

lemma close_matching_sessions:
  assumes "conn_ok c" and "close_matching_trees matches c w = (n, c', w')"
  shows "conn_sessions c' = map (\<lambda>(sid, s). (sid, keep_trees matches s)) (conn_sessions c)"
    and "c' = c\<lparr>conn_sessions := conn_sessions c'\<rparr>"
  using assms close_matching_in_keep [of matches "conn_sessions c" w]
  by (auto simp: close_matching_trees_def conn_ok_def tbl_all_def split: prod.splits)

lemma tbl_get_map_val: "tbl_get (map (\<lambda>(k, v). (k, f v)) m) k = map_option f (tbl_get m k)"
  by (simp add: tbl_get_def map_of_map)

lemma tbl_ok_map_val [simp]: "tbl_ok (map (\<lambda>(k, v). (k, f v)) m) \<longleftrightarrow> tbl_ok m"
  by (simp add: tbl_ok_def comp_def case_prod_unfold)

lemma keep_trees_ok: "session_ok sid s \<Longrightarrow> session_ok sid (keep_trees matches s)"
  by (auto simp: session_ok_def keep_trees_def tbl_all_def tbl_ok_def list_all_iff
      intro: distinct_map_filter)

lemma close_matching_ok:
  assumes "conn_ok c" and "close_matching_trees matches c w = (n, c', w')"
  shows "conn_ok c'"
proof -
  have "tbl_all session_ok (conn_sessions c')"
    using assms(1) close_matching_sessions(1) [OF assms]
    by (auto simp: conn_ok_def tbl_all_iff tbl_get_map_val intro: keep_trees_ok)
  then show ?thesis
    using assms(1) close_matching_sessions(2) [OF assms]
    by (metis conn_ok_def connection.select_convs(10,11) connection.surjective
        connection.update_convs(9))
qed

lemma close_matching_none:
  assumes "conn_ok c" and "close_matching_trees matches c w = (n, c', w')"
    and "tbl_get (conn_sessions c') sid = Some s" and "tbl_get (sess_trees s) tid = Some t"
  shows "\<exists>s0. tbl_get (conn_sessions c) sid = Some s0 \<and> s = keep_trees matches s0 \<and>
    (tid, t) \<in> set (sess_trees s0) \<and> \<not> matches s0 t"
proof -
  obtain s0 where s0: "tbl_get (conn_sessions c) sid = Some s0" "s = keep_trees matches s0"
    using assms(3) close_matching_sessions(1) [OF assms(1,2)] by (auto simp: tbl_get_map_val)
  moreover have "(tid, t) \<in> set (sess_trees s)" using assms(4) by (rule tbl_get_in)
  ultimately show ?thesis by (auto simp: keep_trees_def)
qed

lemma close_sessions_spec:
  "close_sessions sids c w = (n, c', w') \<Longrightarrow>
    tbl_get (conn_sessions c') k = (if k \<in> set sids then None else tbl_get (conn_sessions c) k)
    \<and> (conn_ok c \<longrightarrow> conn_ok c')"
proof (induction sids c w arbitrary: n c' w' rule: close_sessions.induct)
  case (2 sid sids c w)
  obtain r c1 w1 where r: "close_session sid c w = (r, c1, w1)" by (metis prod_cases3)
  obtain m c2 w2 where m: "close_sessions sids c1 w1 = (m, c2, w2)" by (metis prod_cases3)
  have "tbl_get (conn_sessions c2) k
      = (if k \<in> set sids then None else tbl_get (conn_sessions c1) k) \<and> (conn_ok c1 \<longrightarrow> conn_ok c2)"
    using "2.IH" [OF r [symmetric] refl refl m] .
  moreover have "c' = c2" using r m "2.prems" by simp
  ultimately show ?case
    using close_session_gone [OF r] close_session_ok [OF _ r] by auto
qed simp

lemma close_sessions_for_user_gone:
  assumes "conn_ok c" and "close_sessions_for_user user c w = (n, c', w')"
  shows "conn_ok c'"
    and "tbl_get (conn_sessions c') sid = (case tbl_get (conn_sessions c) sid of
      None \<Rightarrow> None | Some s \<Rightarrow> if is_user user (sess_identity s) then None else Some s)"
proof -
  note spec = close_sessions_spec [OF assms(2) [unfolded close_sessions_for_user_def]]
  show "conn_ok c'" using spec assms(1) by blast
  have "sid \<in> fst ` set (filter (\<lambda>(_, s). is_user user (sess_identity s)) (conn_sessions c)) \<longleftrightarrow>
      (\<exists>s. tbl_get (conn_sessions c) sid = Some s \<and> is_user user (sess_identity s))"
    using assms(1) by (force simp: conn_ok_def image_iff dest: tbl_all_ok tbl_get_in tbl_in_get)
  then show "tbl_get (conn_sessions c') sid = (case tbl_get (conn_sessions c) sid of
      None \<Rightarrow> None | Some s \<Rightarrow> if is_user user (sess_identity s) then None else Some s)"
    using spec [of sid] by (auto split: option.splits)
qed

end
