(* ===== verification/Server.thy ===== *)
theory Server
  imports Conn_State
begin

text \<open>
  The server state and its run-time configuration: \<open>src/src/server.rs\<close>, the builder
  \<open>src/src/builder.rs\<close> and the connection table of \<open>src/src/conn/mod.rs\<close>. What the code takes
  from its environment is part of the server record: the crypto primitives, the random source
  (the \<open>n\<close>-th draw of so many bytes) and the clock (its \<open>n\<close>-th reading).
\<close>

type_synonym socket_addr = "bytes \<times> u16"

record server_config =
  cfg_listen_addr :: socket_addr
  cfg_netbios_name :: rstring
  cfg_max_read_size :: u32
  cfg_max_write_size :: u32
  cfg_server_guid :: bytes

record 'w server =
  srv_config :: server_config
  srv_users :: "(rstring, user_creds) table"
  srv_shares :: "(rstring, 'w share_bindings) table"
  srv_start_filetime :: u64
  srv_shutting_down :: bool
  srv_trace_armed :: bool
  srv_crypto :: crypto_lib
  srv_random :: "nat \<Rightarrow> nat \<Rightarrow> bytes"
  srv_clock :: "nat \<Rightarrow> u64"

section \<open>The share table\<close>

definition shares_new :: "'w share_bindings list \<Rightarrow> (rstring, 'w share_bindings) table" where
  "shares_new shares =
     foldl (\<lambda>by_name s. tbl_insert (to_ascii_lowercase (sb_name s)) s by_name) [] shares"

definition shares_find ::
    "(rstring, 'w share_bindings) table \<Rightarrow> rstring \<Rightarrow> 'w share_bindings option" where
  "shares_find by_name name = tbl_get by_name (to_ascii_lowercase name)"

datatype config_error =
    UnknownUser rstring | UnknownShare rstring | DuplicateShare rstring
  | PublicMixedWithUsers rstring | ReservedUserName rstring | EmptyUserName
  | ReservedShareName rstring

definition shares_insert ::
    "'w share_bindings \<Rightarrow> (rstring, 'w share_bindings) table \<Rightarrow>
     config_error + (rstring, 'w share_bindings) table" where
  "shares_insert s by_name =
     (let key = to_ascii_lowercase (sb_name s) in
      case tbl_get by_name key of
        Some _ \<Rightarrow> Inl (DuplicateShare (sb_name s))
      | None \<Rightarrow> Inr (tbl_insert key s by_name))"

definition shares_remove ::
    "rstring \<Rightarrow> (rstring, 'w share_bindings) table \<Rightarrow>
     'w share_bindings option \<times> (rstring, 'w share_bindings) table" where
  "shares_remove name by_name =
     (let key = to_ascii_lowercase name in (tbl_get by_name key, tbl_remove key by_name))"

definition find_share :: "'w server \<Rightarrow> rstring \<Rightarrow> 'w share_bindings option" where
  "find_share srv name = shares_find (srv_shares srv) name"

definition lookup_user :: "'w server \<Rightarrow> rstring \<Rightarrow> user_creds option" where
  "lookup_user srv name = tbl_get (srv_users srv) name"

definition anonymous_allowed :: "'w server \<Rightarrow> bool" where
  "anonymous_allowed srv = list_ex (\<lambda>(_, s). is_public_mode (sb_mode s)) (srv_shares srv)"

section \<open>The system\<close>

text \<open>
  \<open>ServerState\<close> with its \<open>ActiveConnections\<close>: the live connections are the entries whose weak
  reference can be upgraded. The world is what the backends keep.
\<close>

record 'w system =
  sys_server :: "'w server"
  sys_conns :: "(u64, 'w connection) table"
  sys_next_conn :: u64
  sys_world :: 'w

definition accept_connection :: "'w system \<Rightarrow> u64 \<times> 'w system" where
  "accept_connection sys =
     (let i = sys_next_conn sys;
          cfg = srv_config (sys_server sys);
          c = connection_new i (cfg_server_guid cfg) (cfg_max_read_size cfg) (cfg_max_write_size cfg)
      in (i, sys\<lparr>sys_next_conn := i + 1, sys_conns := tbl_insert i c (sys_conns sys)\<rparr>))"

definition unregister_connection :: "u64 \<Rightarrow> 'w system \<Rightarrow> 'w system" where
  "unregister_connection i sys = sys\<lparr>sys_conns := tbl_remove i (sys_conns sys)\<rparr>"

text \<open>\<open>for conn in active_connections.live() { conn.close_...().await; }\<close>.\<close>

fun for_conns ::
    "('w connection \<Rightarrow> 'w \<Rightarrow> nat \<times> 'w connection \<times> 'w) \<Rightarrow> (u64 \<times> 'w connection) list \<Rightarrow> 'w \<Rightarrow>
     (u64 \<times> 'w connection) list \<times> 'w" where
  "for_conns f [] w = ([], w)"
| "for_conns f ((i, c) # rest) w =
     (let (_, c1, w1) = f c w; (rest1, w2) = for_conns f rest w1 in ((i, c1) # rest1, w2))"

definition on_live ::
    "('w connection \<Rightarrow> 'w \<Rightarrow> nat \<times> 'w connection \<times> 'w) \<Rightarrow> 'w system \<Rightarrow> 'w system" where
  "on_live f sys =
     (let (conns, w) = for_conns f (sys_conns sys) (sys_world sys)
      in sys\<lparr>sys_conns := conns, sys_world := w\<rparr>)"

definition set_server :: "('w server \<Rightarrow> 'w server) \<Rightarrow> 'w system \<Rightarrow> 'w system" where
  "set_server f sys = sys\<lparr>sys_server := f (sys_server sys)\<rparr>"

section \<open>Configuration at run time\<close>

definition validate_user_name :: "rstring \<Rightarrow> config_error + unit" where
  "validate_user_name name =
     (if name = [] then Inl EmptyUserName
      else if eq_ignore_ascii_case name (lit ''anonymous'') then Inl (ReservedUserName name)
      else Inr ())"

definition validate_share_name :: "rstring \<Rightarrow> config_error + unit" where
  "validate_share_name name =
     (if eq_ignore_ascii_case name (lit ''IPC$'') then Inl (ReservedShareName name) else Inr ())"

definition config_add_user ::
    "rstring \<Rightarrow> rstring \<Rightarrow> 'w system \<Rightarrow> (config_error + unit) \<times> 'w system" where
  "config_add_user name password sys =
     (case validate_user_name name of
        Inl e \<Rightarrow> (Inl e, sys)
      | Inr _ \<Rightarrow>
          (Inr (), set_server (\<lambda>srv. srv\<lparr>srv_users := tbl_insert name
             (user_creds_from_password (srv_crypto srv) password) (srv_users srv)\<rparr>) sys))"

definition drop_acl_user :: "rstring \<Rightarrow> 'w share_bindings \<Rightarrow> 'w share_bindings" where
  "drop_acl_user name s = s\<lparr>sb_users := tbl_remove name (sb_users s)\<rparr>"

definition config_remove_user ::
    "rstring \<Rightarrow> 'w system \<Rightarrow> (config_error + unit) \<times> 'w system" where
  "config_remove_user name sys =
     (case validate_user_name name of
        Inl e \<Rightarrow> (Inl e, sys)
      | Inr _ \<Rightarrow>
          (case tbl_get (srv_users (sys_server sys)) name of
             None \<Rightarrow> (Inl (UnknownUser name), sys)
           | Some _ \<Rightarrow>
               (Inr (), on_live (close_sessions_for_user name)
                  (set_server (\<lambda>srv. srv\<lparr>srv_users := tbl_remove name (srv_users srv),
                     srv_shares := map (\<lambda>(k, s). (k, drop_acl_user name s)) (srv_shares srv)\<rparr>)
                   sys))))"

definition config_add_share :: "'w share \<Rightarrow> 'w system \<Rightarrow> (config_error + unit) \<times> 'w system" where
  "config_add_share share sys =
     (case validate_share_name (sh_name share) of
        Inl e \<Rightarrow> (Inl e, sys)
      | Inr _ \<Rightarrow>
          if is_public_mode (sh_mode share) \<and> sh_users share \<noteq> []
          then (Inl (PublicMixedWithUsers (sh_name share)), sys)
          else case List.find (\<lambda>u. tbl_get (srv_users (sys_server sys)) u = None)
                      (map fst (sh_users share)) of
            Some u \<Rightarrow> (Inl (UnknownUser u), sys)
          | None \<Rightarrow>
              (case shares_insert (share_bindings_new (sh_name share) (sh_backend share)
                      (sh_mode share) (sh_users share) False) (srv_shares (sys_server sys)) of
                 Inl e \<Rightarrow> (Inl e, sys)
               | Inr shares \<Rightarrow> (Inr (), set_server (\<lambda>srv. srv\<lparr>srv_shares := shares\<rparr>) sys)))"

definition config_remove_share ::
    "rstring \<Rightarrow> 'w system \<Rightarrow> (config_error + unit) \<times> 'w system" where
  "config_remove_share name sys =
     (case validate_share_name name of
        Inl e \<Rightarrow> (Inl e, sys)
      | Inr _ \<Rightarrow>
          (case shares_remove name (srv_shares (sys_server sys)) of
             (None, _) \<Rightarrow> (Inl (UnknownShare name), sys)
           | (Some _, shares) \<Rightarrow>
               (Inr (), on_live (close_trees_for_share name)
                  (set_server (\<lambda>srv. srv\<lparr>srv_shares := shares\<rparr>) sys))))"

definition put_share :: "'w share_bindings \<Rightarrow> 'w server \<Rightarrow> 'w server" where
  "put_share s srv =
     srv\<lparr>srv_shares := tbl_insert (to_ascii_lowercase (sb_name s)) s (srv_shares srv)\<rparr>"

definition config_grant_share_user ::
    "rstring \<Rightarrow> rstring \<Rightarrow> access \<Rightarrow> 'w system \<Rightarrow> (config_error + unit) \<times> 'w system" where
  "config_grant_share_user share_name user a sys =
     (case validate_user_name user of
        Inl e \<Rightarrow> (Inl e, sys)
      | Inr _ \<Rightarrow>
     (case validate_share_name share_name of
        Inl e \<Rightarrow> (Inl e, sys)
      | Inr _ \<Rightarrow>
          if tbl_get (srv_users (sys_server sys)) user = None then (Inl (UnknownUser user), sys)
          else case find_share (sys_server sys) share_name of
            None \<Rightarrow> (Inl (UnknownShare share_name), sys)
          | Some s \<Rightarrow>
              if is_public_mode (sb_mode s) then (Inl (PublicMixedWithUsers (sb_name s)), sys)
              else (Inr (), set_server
                (put_share (s\<lparr>sb_users := tbl_insert user a (sb_users s)\<rparr>)) sys)))"

definition config_revoke_share_user ::
    "rstring \<Rightarrow> rstring \<Rightarrow> 'w system \<Rightarrow> (config_error + unit) \<times> 'w system" where
  "config_revoke_share_user share_name user sys =
     (case validate_user_name user of
        Inl e \<Rightarrow> (Inl e, sys)
      | Inr _ \<Rightarrow>
     (case validate_share_name share_name of
        Inl e \<Rightarrow> (Inl e, sys)
      | Inr _ \<Rightarrow>
          (case find_share (sys_server sys) share_name of
             None \<Rightarrow> (Inl (UnknownShare share_name), sys)
           | Some s \<Rightarrow>
               (Inr (), on_live (close_trees_for_user_share user share_name)
                  (set_server (put_share (drop_acl_user user s)) sys)))))"

definition config_set_share_mode ::
    "rstring \<Rightarrow> share_mode \<Rightarrow> 'w system \<Rightarrow> (config_error + unit) \<times> 'w system" where
  "config_set_share_mode share_name mode sys =
     (case validate_share_name share_name of
        Inl e \<Rightarrow> (Inl e, sys)
      | Inr _ \<Rightarrow>
          (case find_share (sys_server sys) share_name of
             None \<Rightarrow> (Inl (UnknownShare share_name), sys)
           | Some s \<Rightarrow>
               if is_public_mode mode \<and> sb_users s \<noteq> []
               then (Inl (PublicMixedWithUsers (sb_name s)), sys)
               else if sb_mode s = mode then (Inr (), sys)
               else (Inr (), on_live (close_trees_for_share share_name)
                      (set_server (put_share (s\<lparr>sb_mode := mode\<rparr>)) sys))))"

text \<open>The operations of \<open>ConfigHandle\<close>, as data.\<close>

datatype 'w config_op =
    AddUser rstring rstring | RemoveUser rstring | AddShare "'w share" | RemoveShare rstring
  | GrantShareUser rstring rstring access | RevokeShareUser rstring rstring
  | SetShareMode rstring share_mode

fun run_config_op :: "'w config_op \<Rightarrow> 'w system \<Rightarrow> (config_error + unit) \<times> 'w system" where
  "run_config_op (AddUser n p) = config_add_user n p"
| "run_config_op (RemoveUser n) = config_remove_user n"
| "run_config_op (AddShare s) = config_add_share s"
| "run_config_op (RemoveShare n) = config_remove_share n"
| "run_config_op (GrantShareUser s u a) = config_grant_share_user s u a"
| "run_config_op (RevokeShareUser s u) = config_revoke_share_user s u"
| "run_config_op (SetShareMode s m) = config_set_share_mode s m"

definition request_shutdown :: "'w system \<Rightarrow> 'w system" where
  "request_shutdown = set_server (\<lambda>srv. srv\<lparr>srv_shutting_down := True\<rparr>)"

section \<open>The builder\<close>

datatype build_error =
    MissingListenAddr | BDuplicateShare rstring | BPublicMixedWithUsers rstring
  | DoublePublic rstring | BUnknownUser rstring rstring | DuplicateUser rstring
  | BReservedUserName rstring | BEmptyUserName

record 'w builder =
  bd_listen_addr :: "socket_addr option"
  bd_users :: "(rstring, rstring) table"
  bd_user_order :: "rstring list"
  bd_shares :: "'w share list"
  bd_netbios_name :: "rstring option"
  bd_max_read_size :: u32
  bd_max_write_size :: u32
  bd_server_guid :: "bytes option"
  bd_trace_sink :: bool

definition builder_new :: "'w builder" where
  "builder_new =
     \<lparr>bd_listen_addr = None, bd_users = [], bd_user_order = [], bd_shares = [],
      bd_netbios_name = None, bd_max_read_size = 1024 * 1024, bd_max_write_size = 1024 * 1024,
      bd_server_guid = None, bd_trace_sink = False\<rparr>"

definition builder_listen :: "socket_addr \<Rightarrow> 'w builder \<Rightarrow> 'w builder" where
  "builder_listen addr b = b\<lparr>bd_listen_addr := Some addr\<rparr>"

definition builder_user :: "rstring \<Rightarrow> rstring \<Rightarrow> 'w builder \<Rightarrow> 'w builder" where
  "builder_user n password b =
     (let b = (if tbl_get (bd_users b) n = None then b\<lparr>bd_user_order := bd_user_order b @ [n]\<rparr> else b)
      in b\<lparr>bd_users := tbl_insert n password (bd_users b)\<rparr>)"

definition builder_share :: "'w share \<Rightarrow> 'w builder \<Rightarrow> 'w builder" where
  "builder_share s b = b\<lparr>bd_shares := bd_shares b @ [s]\<rparr>"

definition builder_netbios_name :: "rstring \<Rightarrow> 'w builder \<Rightarrow> 'w builder" where
  "builder_netbios_name n b = b\<lparr>bd_netbios_name := Some n\<rparr>"

definition builder_max_read_size :: "u32 \<Rightarrow> 'w builder \<Rightarrow> 'w builder" where
  "builder_max_read_size n b = b\<lparr>bd_max_read_size := n\<rparr>"

definition builder_max_write_size :: "u32 \<Rightarrow> 'w builder \<Rightarrow> 'w builder" where
  "builder_max_write_size n b = b\<lparr>bd_max_write_size := n\<rparr>"

definition builder_server_guid :: "bytes \<Rightarrow> 'w builder \<Rightarrow> 'w builder" where
  "builder_server_guid guid b = b\<lparr>bd_server_guid := Some guid\<rparr>"

definition builder_trace_sink :: "'w builder \<Rightarrow> 'w builder" where
  "builder_trace_sink b = b\<lparr>bd_trace_sink := True\<rparr>"

text \<open>A chain of builder calls, as data.\<close>

datatype 'w builder_call =
    CallListen socket_addr | CallUser rstring rstring | CallShare "'w share"
  | CallNetbiosName rstring | CallMaxReadSize u32 | CallMaxWriteSize u32
  | CallServerGuid bytes | CallTraceSink

fun run_builder_call :: "'w builder_call \<Rightarrow> 'w builder \<Rightarrow> 'w builder" where
  "run_builder_call (CallListen a) = builder_listen a"
| "run_builder_call (CallUser n p) = builder_user n p"
| "run_builder_call (CallShare s) = builder_share s"
| "run_builder_call (CallNetbiosName n) = builder_netbios_name n"
| "run_builder_call (CallMaxReadSize n) = builder_max_read_size n"
| "run_builder_call (CallMaxWriteSize n) = builder_max_write_size n"
| "run_builder_call (CallServerGuid g) = builder_server_guid g"
| "run_builder_call CallTraceSink = builder_trace_sink"

definition builder_of :: "'w builder_call list \<Rightarrow> 'w builder" where
  "builder_of calls = foldl (\<lambda>b call. run_builder_call call b) builder_new calls"

text \<open>The two loops that validate the users and the shares; \<open>seen\<close> holds lower-case names.\<close>

fun validate_builder_users :: "rstring list \<Rightarrow> build_error + unit" where
  "validate_builder_users [] = Inr ()"
| "validate_builder_users (name # names) =
     (if name = [] then Inl BEmptyUserName
      else if eq_ignore_ascii_case name (lit ''anonymous'') then Inl (BReservedUserName name)
      else validate_builder_users names)"

fun validate_builder_shares ::
    "(rstring, rstring) table \<Rightarrow> rstring list \<Rightarrow> 'w share list \<Rightarrow> build_error + unit" where
  "validate_builder_shares users seen [] = Inr ()"
| "validate_builder_shares users seen (s # ss) =
     (if to_ascii_lowercase (sh_name s) \<in> set seen then Inl (BDuplicateShare (sh_name s))
      else if is_public_mode (sh_mode s) \<and> sh_users s \<noteq> []
      then Inl (BPublicMixedWithUsers (sh_name s))
      else case List.find (\<lambda>u. tbl_get users u = None) (map fst (sh_users s)) of
        Some u \<Rightarrow> Inl (BUnknownUser (sh_name s) u)
      | None \<Rightarrow> validate_builder_shares users (to_ascii_lowercase (sh_name s) # seen) ss)"

record environment =
  env_hostname :: "rstring option"
  env_new_guid :: bytes
  env_crypto :: crypto_lib
  env_random :: "nat \<Rightarrow> nat \<Rightarrow> bytes"
  env_clock :: "nat \<Rightarrow> u64"
  env_start_time :: u64

definition build :: "environment \<Rightarrow> 'w builder \<Rightarrow> build_error + 'w server" where
  "build env b =
     attempt (validate_builder_users (bd_user_order b)) (\<lambda>_.
       attempt (validate_builder_shares (bd_users b) [] (bd_shares b)) (\<lambda>_.
         case bd_listen_addr b of
           None \<Rightarrow> Inl MissingListenAddr
         | Some listen \<Rightarrow>
             let netbios = (case bd_netbios_name b of
                   Some n \<Rightarrow> n
                 | None \<Rightarrow> (case env_hostname env of
                     Some h \<Rightarrow> if h \<noteq> [] then h else lit ''SMBSERVER''
                   | None \<Rightarrow> lit ''SMBSERVER''));
                 bindings = map (\<lambda>s. share_bindings_new (sh_name s) (sh_backend s) (sh_mode s)
                   (sh_users s) False) (bd_shares b);
                 user_table = foldl (\<lambda>t name. tbl_insert name (user_creds_from_password
                   (env_crypto env) (the (tbl_get (bd_users b) name))) t) [] (bd_user_order b);
                 guid = (case bd_server_guid b of Some g \<Rightarrow> g | None \<Rightarrow> env_new_guid env)
             in Inr \<lparr>srv_config = \<lparr>cfg_listen_addr = listen, cfg_netbios_name = netbios,
                       cfg_max_read_size = bd_max_read_size b,
                       cfg_max_write_size = bd_max_write_size b, cfg_server_guid = guid\<rparr>,
                     srv_users = user_table, srv_shares = shares_new bindings,
                     srv_start_filetime = env_start_time env, srv_shutting_down = False,
                     srv_trace_armed = bd_trace_sink b, srv_crypto = env_crypto env,
                     srv_random = env_random env, srv_clock = env_clock env\<rparr>))"

section \<open>The configuration invariant\<close>

text \<open>
  Shares are filed under their lower-case name, only known users are on an access list, a public
  share has none, and no user has an empty or a reserved name.
\<close>

definition share_ok :: "(rstring, user_creds) table \<Rightarrow> rstring \<Rightarrow> 'w share_bindings \<Rightarrow> bool" where
  "share_ok users key s \<longleftrightarrow> key = to_ascii_lowercase (sb_name s) \<and>
     (is_public_mode (sb_mode s) \<longrightarrow> sb_users s = []) \<and>
     tbl_all (\<lambda>u _. tbl_get users u \<noteq> None) (sb_users s)"

definition valid_user_name :: "rstring \<Rightarrow> bool" where
  "valid_user_name n \<longleftrightarrow> n \<noteq> [] \<and> \<not> eq_ignore_ascii_case n (lit ''anonymous'')"

definition config_ok :: "'w server \<Rightarrow> bool" where
  "config_ok srv \<longleftrightarrow> tbl_all (\<lambda>n _. valid_user_name n) (srv_users srv) \<and>
     tbl_all (share_ok (srv_users srv)) (srv_shares srv)"

definition system_ok :: "'w system \<Rightarrow> bool" where
  "system_ok sys \<longleftrightarrow> config_ok (sys_server sys) \<and> tbl_all (\<lambda>_ c. conn_ok c) (sys_conns sys)"

text \<open>A share that comes in from the embedding program: its user map is a map.\<close>

definition share_def_ok :: "'w share \<Rightarrow> bool" where
  "share_def_ok s \<longleftrightarrow> tbl_ok (sh_users s)"

definition config_op_ok :: "'w config_op \<Rightarrow> bool" where
  "config_op_ok oper \<longleftrightarrow> (case oper of AddShare s \<Rightarrow> share_def_ok s | _ \<Rightarrow> True)"

lemma validate_user_name_iff: "validate_user_name n = Inr u \<longleftrightarrow> valid_user_name n"
  by (auto simp: validate_user_name_def valid_user_name_def split: if_splits)

lemma for_conns_keys: "for_conns f cs w = (cs', w') \<Longrightarrow> map fst cs' = map fst cs"
  by (induction f cs w arbitrary: cs' w' rule: for_conns.induct) (auto split: prod.splits)

text \<open>Every connection that is left is the result of \<open>f\<close> on the connection it was.\<close>

lemma for_conns_in:
  "for_conns f cs w = (cs', w') \<Longrightarrow> (i, c') \<in> set cs' \<Longrightarrow>
    \<exists>c w1 r w2. (i, c) \<in> set cs \<and> f c w1 = (r, c', w2)"
proof (induction cs arbitrary: w cs' w')
  case (Cons ic rest)
  obtain j c where ic: "ic = (j, c)" by (cases ic)
  obtain r c1 w1 where f: "f c w = (r, c1, w1)" by (cases "f c w") auto
  obtain rest1 w2 where r: "for_conns f rest w1 = (rest1, w2)" by fastforce
  show ?case
  proof (cases "(i, c') \<in> set rest1")
    case True
    then show ?thesis using Cons.IH [OF r] by auto
  next
    case False
    then have "i = j \<and> c' = c1" using Cons.prems by (auto simp: ic f r)
    then show ?thesis using f by (auto simp: ic)
  qed
qed simp

lemma on_live_server [simp]: "sys_server (on_live f sys) = sys_server sys"
  "sys_next_conn (on_live f sys) = sys_next_conn sys"
  by (simp_all add: on_live_def split: prod.splits)

lemma on_live_get:
  assumes "tbl_ok (sys_conns sys)" and "tbl_get (sys_conns (on_live f sys)) i = Some c'"
  shows "\<exists>c w1 r w2. tbl_get (sys_conns sys) i = Some c \<and> f c w1 = (r, c', w2)"
proof -
  obtain cs w where f: "for_conns f (sys_conns sys) (sys_world sys) = (cs, w)" by fastforce
  then have "(i, c') \<in> set cs" using assms(2) by (simp add: on_live_def tbl_get_in)
  from for_conns_in [OF f this] assms(1) show ?thesis by (blast intro: tbl_in_get)
qed

lemma on_live_conns_ok:
  assumes "tbl_all (\<lambda>_. conn_ok) (sys_conns sys)"
    and "\<And>c w r c' w'. conn_ok c \<Longrightarrow> f c w = (r, c', w') \<Longrightarrow> conn_ok c'"
  shows "tbl_all (\<lambda>_. conn_ok) (sys_conns (on_live f sys))"
proof -
  have "tbl_ok (sys_conns (on_live f sys))"
    using assms(1) for_conns_keys [of f "sys_conns sys" "sys_world sys"]
    by (auto simp: on_live_def tbl_all_def tbl_ok_def split: prod.splits)
  moreover have "conn_ok c'" if "tbl_get (sys_conns (on_live f sys)) i = Some c'" for i c'
    using on_live_get [OF tbl_all_ok [OF assms(1)] that] assms by (blast dest: tbl_all_get)
  ultimately show ?thesis by (simp add: tbl_all_iff)
qed

lemma set_server_simps [simp]:
  "sys_server (set_server f sys) = f (sys_server sys)"
  "sys_conns (set_server f sys) = sys_conns sys"
  "sys_world (set_server f sys) = sys_world sys"
  "sys_next_conn (set_server f sys) = sys_next_conn sys"
  by (simp_all add: set_server_def)

lemma system_ok_live:
  "system_ok sys \<Longrightarrow> config_ok (f (sys_server sys)) \<Longrightarrow>
    (\<And>c w r c' w'. conn_ok c \<Longrightarrow> g c w = (r, c', w') \<Longrightarrow> conn_ok c') \<Longrightarrow>
    system_ok (on_live g (set_server f sys))"
  unfolding system_ok_def by (auto intro!: on_live_conns_ok)

lemma system_ok_set_server:
  "system_ok sys \<Longrightarrow> config_ok (f (sys_server sys)) \<Longrightarrow> system_ok (set_server f sys)"
  by (simp add: system_ok_def)

lemma close_trees_for_share_ok:
  "conn_ok c \<Longrightarrow> close_trees_for_share n c w = (r, c', w') \<Longrightarrow> conn_ok c'"
  unfolding close_trees_for_share_def by (rule close_matching_ok)

lemma close_trees_for_user_share_ok:
  "conn_ok c \<Longrightarrow> close_trees_for_user_share u n c w = (r, c', w') \<Longrightarrow> conn_ok c'"
  unfolding close_trees_for_user_share_def by (rule close_matching_ok)

lemmas live_closes_ok = close_trees_for_share_ok close_trees_for_user_share_ok
  close_sessions_for_user_gone(1)

section \<open>Every operation keeps the invariant\<close>

lemma share_ok_users_mono:
  "share_ok us k s \<Longrightarrow> (\<And>u. tbl_get us u \<noteq> None \<Longrightarrow> tbl_get us' u \<noteq> None) \<Longrightarrow> share_ok us' k s"
  unfolding share_ok_def by (auto elim!: tbl_all_mono)

lemma config_ok_insert_share:
  "config_ok srv \<Longrightarrow> share_ok (srv_users srv) (to_ascii_lowercase (sb_name s)) s \<Longrightarrow>
    config_ok (put_share s srv)"
  by (auto simp: config_ok_def put_share_def)

lemma config_ok_share:
  "config_ok srv \<Longrightarrow> find_share srv n = Some s \<Longrightarrow>
    share_ok (srv_users srv) (to_ascii_lowercase n) s \<and>
    to_ascii_lowercase (sb_name s) = to_ascii_lowercase n"
  by (auto simp: config_ok_def find_share_def shares_find_def share_ok_def dest: tbl_all_get)

lemma share_ok_acl:
  "share_ok us k s \<Longrightarrow> tbl_all (\<lambda>u _. tbl_get us u \<noteq> None) us' \<Longrightarrow>
    (is_public_mode (sb_mode s) \<Longrightarrow> us' = []) \<Longrightarrow> share_ok us k (s\<lparr>sb_users := us'\<rparr>)"
  by (simp add: share_ok_def)

lemma tbl_remove_Nil [simp]: "tbl_remove k [] = []"
  by (simp add: tbl_remove_def)

lemma share_ok_drop: "share_ok us k s \<Longrightarrow> share_ok us k (drop_acl_user u s)"
  by (auto simp: share_ok_def drop_acl_user_def)

lemma sb_name_drop [simp]: "sb_name (drop_acl_user u s) = sb_name s"
  by (simp add: drop_acl_user_def)

lemma config_ok_remove_user:
  fixes srv :: "'w server"
  assumes "config_ok srv"
  shows "config_ok (srv\<lparr>srv_users := tbl_remove n (srv_users srv),
    srv_shares := map (\<lambda>(k, s). (k, drop_acl_user n s)) (srv_shares srv)\<rparr>)"
proof -
  have "share_ok (tbl_remove n (srv_users srv)) k (drop_acl_user n s)"
    if "share_ok (srv_users srv) k s" for k and s :: "'w share_bindings"
    using that by (auto simp: share_ok_def drop_acl_user_def tbl_all_iff split: if_splits)
  then show ?thesis using assms by (auto simp: config_ok_def tbl_all_iff tbl_get_map_val)
qed

lemma share_ok_insert_user: "share_ok us k s \<Longrightarrow> share_ok (tbl_insert n c us) k s"
  by (rule share_ok_users_mono) auto

lemma config_ok_insert_user:
  "config_ok srv \<Longrightarrow> valid_user_name n \<Longrightarrow>
    config_ok (srv\<lparr>srv_users := tbl_insert n c (srv_users srv)\<rparr>)"
  by (auto simp: config_ok_def tbl_all_iff share_ok_insert_user)

lemma find_None_tbl:
  "List.find (\<lambda>u. tbl_get us u = None) (map fst m) = None \<Longrightarrow> tbl_ok m \<Longrightarrow>
    tbl_all (\<lambda>u _. tbl_get us u \<noteq> None) m"
  by (force simp: find_None_iff tbl_all_def list_all_iff)

lemma validate_share_name_cases:
  "validate_share_name n = Inr u \<longleftrightarrow> \<not> eq_ignore_ascii_case n (lit ''IPC$'')"
  by (auto simp: validate_share_name_def)

text \<open>Each operation either fails and changes nothing, or does all of its work.\<close>

lemma config_add_user_cases:
  assumes "config_add_user n p sys = (r, sys')"
  obtains (error) e where "r = Inl e" "sys' = sys"
  | (success) "r = Inr ()" "valid_user_name n"
      "sys' = set_server (\<lambda>srv. srv\<lparr>srv_users := tbl_insert n
         (user_creds_from_password (srv_crypto srv) p) (srv_users srv)\<rparr>) sys"
  using assms by (cases r) (auto simp: config_add_user_def validate_user_name_iff split: sum.splits)

lemma config_remove_user_cases:
  assumes "config_remove_user n sys = (r, sys')"
  obtains (error) e where "r = Inl e" "sys' = sys"
  | (success) "r = Inr ()" "sys' = on_live (close_sessions_for_user n)
      (set_server (\<lambda>srv. srv\<lparr>srv_users := tbl_remove n (srv_users srv),
         srv_shares := map (\<lambda>(k, s). (k, drop_acl_user n s)) (srv_shares srv)\<rparr>) sys)"
  using assms by (cases r) (auto simp: config_remove_user_def split: sum.splits option.splits)

lemma config_add_share_cases:
  assumes "config_add_share s sys = (r, sys')"
  obtains (error) e where "r = Inl e" "sys' = sys"
  | (success) "r = Inr ()" "is_public_mode (sh_mode s) \<Longrightarrow> sh_users s = []"
      "List.find (\<lambda>u. tbl_get (srv_users (sys_server sys)) u = None)
         (map fst (sh_users s)) = None"
      "find_share (sys_server sys) (sh_name s) = None"
      "sys' = set_server (put_share (share_bindings_new (sh_name s) (sh_backend s) (sh_mode s)
         (sh_users s) False)) sys"
proof (cases r)
  case (Inl e)
  with assms show ?thesis
    by (auto simp: config_add_share_def intro: error split: sum.splits if_splits option.splits)
next
  case (Inr u)
  with assms show ?thesis
    by (intro success) (auto simp: config_add_share_def shares_insert_def find_share_def
        shares_find_def share_bindings_new_def put_share_def set_server_def Let_def
        split: sum.splits if_splits option.splits)
qed

lemma config_remove_share_cases:
  assumes "config_remove_share n sys = (r, sys')"
  obtains (error) e where "r = Inl e" "sys' = sys"
  | (success) "r = Inr ()" "sys' = on_live (close_trees_for_share n) (set_server (\<lambda>srv.
      srv\<lparr>srv_shares := tbl_remove (to_ascii_lowercase n) (srv_shares srv)\<rparr>) sys)"
  using assms
  by (cases r) (auto simp: config_remove_share_def shares_remove_def Let_def set_server_def
      split: sum.splits option.splits)

lemma config_grant_cases:
  assumes "config_grant_share_user n u a sys = (r, sys')"
  obtains (error) e where "r = Inl e" "sys' = sys"
  | (success) s where "r = Inr ()" "find_share (sys_server sys) n = Some s"
      "\<not> is_public_mode (sb_mode s)" "tbl_get (srv_users (sys_server sys)) u \<noteq> None"
      "sys' = set_server (put_share (s\<lparr>sb_users := tbl_insert u a (sb_users s)\<rparr>)) sys"
  using assms
  by (cases r) (auto simp: config_grant_share_user_def split: sum.splits option.splits if_splits)

lemma config_revoke_cases:
  assumes "config_revoke_share_user n u sys = (r, sys')"
  obtains (error) e where "r = Inl e" "sys' = sys"
  | (success) s where "r = Inr ()" "find_share (sys_server sys) n = Some s"
      "sys' = on_live (close_trees_for_user_share u n)
         (set_server (put_share (drop_acl_user u s)) sys)"
  using assms
  by (cases r) (auto simp: config_revoke_share_user_def split: sum.splits option.splits)

lemma config_set_mode_cases:
  assumes "config_set_share_mode n m sys = (r, sys')"
  obtains (error) e where "r = Inl e" "sys' = sys"
  | (same) s where "r = Inr ()" "find_share (sys_server sys) n = Some s" "sb_mode s = m"
      "sys' = sys"
  | (success) s where "r = Inr ()" "find_share (sys_server sys) n = Some s" "sb_mode s \<noteq> m"
      "is_public_mode m \<Longrightarrow> sb_users s = []"
      "sys' = on_live (close_trees_for_share n) (set_server (put_share (s\<lparr>sb_mode := m\<rparr>)) sys)"
  using assms
  by (cases r) (auto simp: config_set_share_mode_def split: sum.splits option.splits if_splits)

lemma find_share_ok:
  "system_ok sys \<Longrightarrow> find_share (sys_server sys) n = Some s \<Longrightarrow>
    share_ok (srv_users (sys_server sys)) (to_ascii_lowercase (sb_name s)) s"
  by (metis config_ok_share system_ok_def)

lemma run_config_op_ok:
  assumes ok: "system_ok sys" "config_op_ok oper" and run: "run_config_op oper sys = (r, sys')"
  shows "system_ok sys'"
proof (cases oper)
  case (AddUser n p)
  have "config_add_user n p sys = (r, sys')" using run AddUser by simp
  then show ?thesis
  proof (cases rule: config_add_user_cases)
    case success
    with ok show ?thesis by (simp add: system_ok_def config_ok_insert_user)
  qed (use ok in simp)
next
  case (RemoveUser n)
  have "config_remove_user n sys = (r, sys')" using run RemoveUser by simp
  then show ?thesis
  proof (cases rule: config_remove_user_cases)
    case success
    show ?thesis
      unfolding success(2)
      by (rule system_ok_live [OF ok(1) config_ok_remove_user]) (use ok in \<open>auto simp: system_ok_def
          dest: live_closes_ok\<close>)
  qed (use ok in simp)
next
  case (AddShare s)
  have "config_add_share s sys = (r, sys')" using run AddShare by simp
  then show ?thesis
  proof (cases rule: config_add_share_cases)
    case success
    have "tbl_all (\<lambda>u _. tbl_get (srv_users (sys_server sys)) u \<noteq> None) (sh_users s)"
      using find_None_tbl [OF success(3)] ok(2) AddShare
      by (simp add: config_op_ok_def share_def_ok_def)
    then show ?thesis
      using success ok(1)
      by (auto simp: share_ok_def share_bindings_new_def system_ok_def
          intro!: config_ok_insert_share)
  qed (use ok in simp)
next
  case (RemoveShare n)
  have "config_remove_share n sys = (r, sys')" using run RemoveShare by simp
  then show ?thesis
  proof (cases rule: config_remove_share_cases)
    case success
    show ?thesis
      unfolding success(2)
      by (rule system_ok_live [OF ok(1)]) (use ok in \<open>auto simp: system_ok_def config_ok_def
          dest: live_closes_ok\<close>)
  qed (use ok in simp)
next
  case (GrantShareUser n u a)
  have "config_grant_share_user n u a sys = (r, sys')" using run GrantShareUser by simp
  then show ?thesis
  proof (cases rule: config_grant_cases)
    case (success s)
    with find_share_ok [OF ok(1) success(2)] ok(1) show ?thesis
      by (auto simp: system_ok_def share_ok_def intro!: config_ok_insert_share tbl_all_insert)
  qed (use ok in simp)
next
  case (RevokeShareUser n u)
  have "config_revoke_share_user n u sys = (r, sys')" using run RevokeShareUser by simp
  then show ?thesis
  proof (cases rule: config_revoke_cases)
    case (success s)
    show ?thesis
      unfolding success(3)
      by (rule system_ok_live [OF ok(1) config_ok_insert_share])
        (use ok share_ok_drop [OF find_share_ok [OF ok(1) success(2)]] in \<open>auto simp: system_ok_def
          dest: live_closes_ok\<close>)
  qed (use ok in simp)
next
  case (SetShareMode n m)
  have "config_set_share_mode n m sys = (r, sys')" using run SetShareMode by simp
  then show ?thesis
  proof (cases rule: config_set_mode_cases)
    case (success s)
    show ?thesis
      unfolding success(5)
      by (rule system_ok_live [OF ok(1) config_ok_insert_share])
        (use ok success(4) find_share_ok [OF ok(1) success(2)] in \<open>auto simp: system_ok_def
          share_ok_def dest: live_closes_ok\<close>)
  qed (use ok in simp_all)
qed

lemma run_config_op_error:
  assumes "run_config_op oper sys = (Inl e, sys')"
  shows "sys' = sys"
  using assms
  by (cases oper) (auto elim: config_add_user_cases config_remove_user_cases
      config_add_share_cases config_remove_share_cases config_grant_cases config_revoke_cases
      config_set_mode_cases)

section \<open>Properties\<close>

fun run_config_ops :: "'w config_op list \<Rightarrow> 'w system \<Rightarrow> 'w system" where
  "run_config_ops [] sys = sys"
| "run_config_ops (oper # opers) sys = run_config_ops opers (snd (run_config_op oper sys))"

text \<open>
  C31: the configuration of a running server stays consistent. Whatever sequence of
  \<open>ConfigHandle\<close> operations is run, shares stay filed under their lower-case names, access lists
  name known users only, public shares have none, no user has an empty or reserved name, and
  every connection stays well formed; and an operation that fails leaves the system as it was.
\<close>

theorem config_ops_consistent:
  assumes "system_ok sys" and "list_all config_op_ok opers"
  shows "system_ok (run_config_ops opers sys) \<and>
    (case run_config_op oper sys of (Inl _, sys') \<Rightarrow> sys' = sys | (Inr _, _) \<Rightarrow> True)"
proof
  show "system_ok (run_config_ops opers sys)"
    using assms
  proof (induction opers arbitrary: sys)
    case (Cons x xs)
    then show ?case using run_config_op_ok [of sys x] by (cases "run_config_op x sys") auto
  qed simp
  show "case run_config_op oper sys of (Inl _, sys') \<Rightarrow> sys' = sys | (Inr _, _) \<Rightarrow> True"
    using run_config_op_error [of oper sys] by (auto split: prod.splits sum.splits)
qed

text \<open>
  C10: removing a user ends everything the user has. After a successful \<open>remove_user\<close> the name
  has no credentials, is on no share's access list, and no connection keeps a session of that
  user; every other session is still there, unchanged.
\<close>

theorem remove_user_ends_access:
  assumes "system_ok sys" and "config_remove_user name sys = (Inr (), sys')"
    and "tbl_get (sys_conns sys') i = Some c'"
  shows "lookup_user (sys_server sys') name = None \<and>
    (case find_share (sys_server sys') share of None \<Rightarrow> True
     | Some s \<Rightarrow> tbl_get (sb_users s) name = None) \<and>
    (\<exists>c. tbl_get (sys_conns sys) i = Some c \<and>
      tbl_get (conn_sessions c') sid = (case tbl_get (conn_sessions c) sid of None \<Rightarrow> None
        | Some s \<Rightarrow> if is_user name (sess_identity s) then None else Some s))"
  using assms(2)
proof (cases rule: config_remove_user_cases)
  case success
  obtain c w1 r w2 where c: "tbl_get (sys_conns sys) i = Some c"
      "close_sessions_for_user name c w1 = (r, c', w2)"
    using on_live_get [OF _ assms(3) [unfolded success(2)]] assms(1)
    by (auto simp: system_ok_def tbl_all_ok)
  have "conn_ok c" using assms(1) c(1) by (auto simp: system_ok_def dest: tbl_all_get)
  from close_sessions_for_user_gone(2) [OF this c(2)] c(1) show ?thesis
    by (auto simp: success(2) lookup_user_def find_share_def shares_find_def tbl_get_map_val
        drop_acl_user_def split: option.splits)
qed simp

text \<open>
  Revoking a user's access to a share, or changing the mode of a share, or removing it,
  disconnects the trees that were connected under the old rules: afterwards no connection has a
  tree on that share (for a revoke: in a session of that user).
\<close>

theorem access_changes_close_trees:
  assumes "system_ok sys"
    and "run_config_op oper sys = (Inr (), sys')"
    and "tbl_get (sys_conns sys') i = Some c" and "tbl_get (conn_sessions c) sid = Some s"
    and "tbl_get (sess_trees s) tid = Some t"
  shows "case oper of
      RemoveShare n \<Rightarrow> \<not> eq_ignore_ascii_case (sb_name (tree_share t)) n
    | RevokeShareUser n u \<Rightarrow>
        \<not> (is_user u (sess_identity s) \<and> eq_ignore_ascii_case (sb_name (tree_share t)) n)
    | SetShareMode n m \<Rightarrow> sys' = sys \<or> \<not> eq_ignore_ascii_case (sb_name (tree_share t)) n
    | _ \<Rightarrow> True"
proof -
  have closed: "\<not> P s t"
    if sys': "sys' = on_live (close_matching_trees P) (set_server f sys)"
      and P: "\<And>s0. P (keep_trees P s0) = P s0" for P f
  proof -
    obtain c0 w1 r w2 where c0: "tbl_get (sys_conns sys) i = Some c0"
        "close_matching_trees P c0 w1 = (r, c, w2)"
      using on_live_get [OF _ assms(3) [unfolded sys']] assms(1)
      by (auto simp: system_ok_def tbl_all_ok)
    have "conn_ok c0" using assms(1) c0(1) by (auto simp: system_ok_def dest: tbl_all_get)
    from close_matching_none [OF this c0(2) assms(4,5)] P show ?thesis by metis
  qed
  note closed' = closed [where P = "\<lambda>_ t. eq_ignore_ascii_case (sb_name (tree_share t)) n" for n]
    closed [where P = "\<lambda>s t. is_user u (sess_identity s) \<and>
      eq_ignore_ascii_case (sb_name (tree_share t)) n" for n u]
  show ?thesis
    using assms(2) closed'
    by (cases oper)
      (auto simp: close_trees_for_share_def close_trees_for_user_share_def keep_trees_def
        elim!: config_remove_share_cases config_revoke_cases config_set_mode_cases)
qed

section \<open>What the builder builds\<close>

definition builder_ok :: "'w builder \<Rightarrow> bool" where
  "builder_ok b \<longleftrightarrow> (\<forall>n. n \<in> set (bd_user_order b) \<longleftrightarrow> tbl_get (bd_users b) n \<noteq> None) \<and>
     list_all share_def_ok (bd_shares b)"

definition builder_call_ok :: "'w builder_call \<Rightarrow> bool" where
  "builder_call_ok call \<longleftrightarrow> (case call of CallShare s \<Rightarrow> share_def_ok s | _ \<Rightarrow> True)"

lemmas builder_call_defs = builder_listen_def builder_user_def builder_share_def
  builder_netbios_name_def builder_max_read_size_def builder_max_write_size_def
  builder_server_guid_def builder_trace_sink_def

lemma run_builder_call_ok:
  "builder_ok b \<Longrightarrow> builder_call_ok call \<Longrightarrow> builder_ok (run_builder_call call b)"
  by (cases call) (auto simp: builder_ok_def builder_call_ok_def builder_call_defs Let_def)

lemma builder_of_ok: "list_all builder_call_ok calls \<Longrightarrow> builder_ok (builder_of calls)"
proof (induction calls rule: rev_induct)
  case Nil
  show ?case by (simp add: builder_of_def builder_ok_def builder_new_def)
next
  case (snoc call calls)
  then show ?case by (simp add: builder_of_def run_builder_call_ok)
qed

lemma validate_builder_users_iff:
  "validate_builder_users ns = Inr u \<longleftrightarrow> list_all valid_user_name ns"
  by (induction ns) (auto simp: valid_user_name_def)

definition share_valid :: "(rstring, rstring) table \<Rightarrow> 'w share \<Rightarrow> bool" where
  "share_valid users s \<longleftrightarrow> (is_public_mode (sh_mode s) \<longrightarrow> sh_users s = []) \<and>
     (\<forall>u \<in> fst ` set (sh_users s). tbl_get users u \<noteq> None)"

lemma validate_builder_shares_iff:
  "validate_builder_shares users seen ss = Inr u \<longleftrightarrow>
    distinct (map (to_ascii_lowercase \<circ> sh_name) ss) \<and>
    set seen \<inter> set (map (to_ascii_lowercase \<circ> sh_name) ss) = {} \<and>
    list_all (share_valid users) ss"
  by (induction users seen ss rule: validate_builder_shares.induct)
    (auto simp: share_valid_def find_None_iff find_Some_iff split: option.splits
      dest: nth_mem)

definition binding_of :: "'w share \<Rightarrow> 'w share_bindings" where
  "binding_of s = share_bindings_new (sh_name s) (sh_backend s) (sh_mode s) (sh_users s) False"

lemma sb_name_binding_of [simp]: "sb_name (binding_of s) = sh_name s"
  by (simp add: binding_of_def share_bindings_new_def)

lemma foldl_insert_get:
  "distinct (map f xs) \<Longrightarrow>
    tbl_get (foldl (\<lambda>t x. tbl_insert (f x) (g x) t) t0 xs) k =
      (case List.find (\<lambda>x. f x = k) xs of Some x \<Rightarrow> Some (g x) | None \<Rightarrow> tbl_get t0 k)"
proof (induction xs arbitrary: t0)
  case (Cons x xs)
  have "List.find (\<lambda>x. f x = k) xs = None" if "f x = k"
    using that Cons.prems by (auto simp: find_None_iff) (metis imageI)
  with Cons show ?case by (auto split: option.splits)
qed simp

lemma foldl_insert_ok:
  "tbl_ok t0 \<Longrightarrow> tbl_ok (foldl (\<lambda>t x. tbl_insert (f x) (g x) t) t0 xs)"
  by (induction xs arbitrary: t0) auto

lemma shares_new_get:
  assumes "distinct (map (to_ascii_lowercase \<circ> sh_name) ss)"
  shows "tbl_get (shares_new (map binding_of ss)) k = map_option binding_of
    (List.find (\<lambda>s. to_ascii_lowercase (sh_name s) = k) ss)"
proof -
  have "shares_new (map binding_of ss)
      = foldl (\<lambda>t s. tbl_insert (to_ascii_lowercase (sh_name s)) (binding_of s) t) [] ss"
    by (simp add: shares_new_def foldl_map)
  then show ?thesis
    using foldl_insert_get [of "to_ascii_lowercase \<circ> sh_name" ss binding_of "[]" k] assms
    by (simp split: option.splits)
qed

lemma tbl_ok_shares_new: "tbl_ok (shares_new ss)"
  by (simp add: shares_new_def foldl_insert_ok)

lemma find_SomeD: "List.find P xs = Some x \<Longrightarrow> x \<in> set xs \<and> P x"
  by (auto simp: find_Some_iff)

lemma build_users_get:
  "tbl_get (foldl (\<lambda>t name. tbl_insert name (g name) t) t0 names) k =
    (if k \<in> set names then Some (g k) else tbl_get t0 k)"
  by (induction names arbitrary: t0) auto

lemma build_cases:
  assumes "build env b = Inr srv"
  shows "list_all valid_user_name (bd_user_order b)"
    and "distinct (map (to_ascii_lowercase \<circ> sh_name) (bd_shares b))"
    and "list_all (share_valid (bd_users b)) (bd_shares b)"
    and "srv_shares srv = shares_new (map binding_of (bd_shares b))"
    and "srv_users srv = foldl (\<lambda>t name. tbl_insert name (user_creds_from_password
           (env_crypto env) (the (tbl_get (bd_users b) name))) t) [] (bd_user_order b)"
    and "bd_listen_addr b = Some (cfg_listen_addr (srv_config srv))"
    and "srv_crypto srv = env_crypto env"
  using assms
  by (auto simp: build_def attempt_eq_Inr validate_builder_users_iff validate_builder_shares_iff
      binding_of_def [abs_def] Let_def split: option.splits)

text \<open>What the tables of a built server answer.\<close>

lemma build_tables:
  fixes calls :: "'w builder_call list"
  assumes "list_all builder_call_ok calls" and "build env (builder_of calls) = Inr srv"
  shows "tbl_get (srv_users srv) n = map_option (user_creds_from_password (env_crypto env))
      (tbl_get (bd_users (builder_of calls)) n)"
    and "find_share srv m = map_option binding_of (List.find
      (\<lambda>s. to_ascii_lowercase (sh_name s) = to_ascii_lowercase m) (bd_shares (builder_of calls)))"
proof -
  note b = build_cases [OF assms(2)]
  show "tbl_get (srv_users srv) n = map_option (user_creds_from_password (env_crypto env))
      (tbl_get (bd_users (builder_of calls)) n)"
    using builder_of_ok [OF assms(1)] by (auto simp: b(5) build_users_get builder_ok_def)
  show "find_share srv m = map_option binding_of (List.find
      (\<lambda>s. to_ascii_lowercase (sh_name s) = to_ascii_lowercase m) (bd_shares (builder_of calls)))"
    using shares_new_get [OF b(2)] by (simp add: find_share_def shares_find_def b(4))
qed

lemma build_config_ok:
  fixes calls :: "'w builder_call list"
  assumes "list_all builder_call_ok calls" and "build env (builder_of calls) = Inr srv"
  shows "config_ok srv"
proof -
  let ?b = "builder_of calls"
  note b = build_cases [OF assms(2)] and users = build_tables(1) [OF assms]
  have ok: "builder_ok ?b" using assms(1) by (rule builder_of_ok)
  have "share_ok (srv_users srv) k s" if get: "tbl_get (srv_shares srv) k = Some s"
    for k and s :: "'w share_bindings"
  proof -
    obtain t where t: "t \<in> set (bd_shares ?b)" "k = to_ascii_lowercase (sh_name t)"
        "s = binding_of t"
      using get by (auto simp: b(4) shares_new_get [OF b(2)] dest: find_SomeD)
    have "share_valid (bd_users ?b) t" "tbl_ok (sh_users t)"
      using t(1) b(3) ok by (auto simp: list_all_iff builder_ok_def share_def_ok_def)
    with users show ?thesis
      by (force simp: t(2,3) share_ok_def binding_of_def share_bindings_new_def share_valid_def
          tbl_all_def list_all_iff)
  qed
  moreover have "tbl_ok (srv_users srv)" "tbl_ok (srv_shares srv)"
    by (simp_all add: b(4,5) tbl_ok_shares_new foldl_insert_ok)
  moreover have "valid_user_name n" if "tbl_get (srv_users srv) n = Some c" for n c
    using that b(1) by (auto simp: b(5) build_users_get list_all_iff split: if_splits)
  ultimately show ?thesis by (simp add: config_ok_def tbl_all_iff)
qed

text \<open>
  C35: a server that the builder accepts starts with a consistent configuration: its invariant
  holds, exactly the registered users have credentials, and every declared share, and nothing
  else, is found under its name whatever the case.
\<close>

theorem build_consistent:
  fixes calls :: "'w builder_call list"
  assumes "list_all builder_call_ok calls" and "build env (builder_of calls) = Inr srv"
  shows "config_ok srv \<and>
    (lookup_user srv n = map_option (user_creds_from_password (env_crypto env))
       (tbl_get (bd_users (builder_of calls)) n)) \<and>
    (find_share srv m = map_option binding_of (List.find
       (\<lambda>s. eq_ignore_ascii_case (sh_name s) m) (bd_shares (builder_of calls))))"
  using build_tables [OF assms] build_config_ok [OF assms]
  by (simp add: lookup_user_def eq_ignore_ascii_case_def)

text \<open>Two of the errors that \<open>build\<close> declares are never raised.\<close>

lemma build_error_never:
  "build env b \<noteq> Inl (DuplicateUser u)" "build env b \<noteq> Inl (DoublePublic n)"
proof -
  have u: "validate_builder_users ns \<noteq> Inl (DuplicateUser u)"
      "validate_builder_users ns \<noteq> Inl (DoublePublic n)" for ns
    by (induction ns) auto
  have s: "validate_builder_shares us seen ss \<noteq> Inl (DuplicateUser u)"
      "validate_builder_shares us seen ss \<noteq> Inl (DoublePublic n)"
    for us seen and ss :: "'a share list"
    by (induction us seen ss rule: validate_builder_shares.induct) (auto split: option.splits)
  show "build env b \<noteq> Inl (DuplicateUser u)"
    using u s by (auto simp: build_def attempt_def Let_def split: sum.splits option.splits)
  show "build env b \<noteq> Inl (DoublePublic n)"
    using u s by (auto simp: build_def attempt_def Let_def split: sum.splits option.splits)
qed

section \<open>A sample server\<close>

text \<open>One user with write access to one share; the properties are applied to it.\<close>

definition sample_env :: environment where
  "sample_env = \<lparr>env_hostname = None, env_new_guid = replicate 16 7, env_crypto = sample_crypto,
     env_random = (\<lambda>_ n. replicate n 1), env_clock = (\<lambda>_. 0), env_start_time = 0\<rparr>"

definition sample_calls :: "unit builder_call list" where
  "sample_calls = [CallListen ([127, 0, 0, 1], 4445), CallUser (lit ''bob'') (lit ''secret''),
     CallShare (share_user (lit ''bob'') ReadWriteAccess
       (share_new (lit ''Docs'') not_supported_backend))]"

definition sample_server :: "unit server" where
  "sample_server = projr (build sample_env (builder_of sample_calls))"

definition sample_docs :: "unit share_bindings" where
  "sample_docs = share_bindings_new (lit ''Docs'') not_supported_backend AuthenticatedOnly
     [(lit ''bob'', ReadWriteAccess)] False"

definition sample_session :: "u64 \<Rightarrow> identity \<Rightarrow> unit session" where
  "sample_session i who = (session_new i who [] [] False None)\<lparr>sess_trees :=
     [(1, tree_connect_new 1 sample_docs ReadOnlyAccess)]\<rparr>"

definition sample_conn :: "unit connection" where
  "sample_conn = (connection_new 1 [] 0 0)\<lparr>conn_sessions :=
     [(1, sample_session 1 (User (lit ''bob'') [])),
      (2, sample_session 2 (User (lit ''eve'') []))]\<rparr>"

definition sample_system :: "unit system" where
  "sample_system = \<lparr>sys_server = sample_server, sys_conns = [(1, sample_conn)],
     sys_next_conn = 2, sys_world = ()\<rparr>"

lemmas name_defs = eq_ignore_ascii_case_def to_ascii_lowercase_def lit_def ascii_lower_def

lemma sample_build: "build sample_env (builder_of sample_calls) = Inr sample_server"
  by (simp add: sample_server_def build_def builder_of_def sample_calls_def builder_call_defs
      builder_new_def share_user_def share_new_def sample_env_def name_defs is_public_mode_def
      tbl_get_def tbl_insert_def)

lemma sample_calls_ok: "list_all builder_call_ok sample_calls"
  by (simp add: sample_calls_def builder_call_ok_def share_def_ok_def share_user_def share_new_def)

lemma sample_server_tables:
  "srv_users sample_server = [(lit ''bob'', user_creds_from_password sample_crypto (lit ''secret''))]"
  "srv_shares sample_server = [(lit ''docs'', sample_docs)]"
  by (simp_all add: sample_server_def build_def builder_of_def sample_calls_def builder_call_defs
      builder_new_def share_user_def share_new_def sample_env_def name_defs is_public_mode_def
      tbl_get_def tbl_insert_def shares_new_def sample_docs_def share_bindings_new_def)

lemma sample_system_ok: "system_ok sample_system"
proof -
  have "tree_ok 1 (tree_connect_new 1 sample_docs ReadOnlyAccess)"
    by (simp add: tree_ok_def tree_connect_new_def)
  then have "session_ok i (sample_session i who)" for i who
    by (simp add: session_ok_def sample_session_def session_new_def tbl_all_def tbl_ok_def)
  then have "conn_ok sample_conn"
    by (simp add: conn_ok_def sample_conn_def connection_new_def tbl_all_def tbl_ok_def)
  moreover have "config_ok sample_server"
    by (simp add: config_ok_def sample_server_tables tbl_all_def tbl_ok_def valid_user_name_def
        share_ok_def sample_docs_def share_bindings_new_def is_public_mode_def name_defs tbl_get_def)
  ultimately show ?thesis by (simp add: system_ok_def sample_system_def tbl_all_def tbl_ok_def)
qed


theorem config_ops_consistent_witness:
  "system_ok (run_config_ops [AddUser (lit ''amy'') (lit ''x''), RemoveUser (lit ''bob'')]
     sample_system)"
  using config_ops_consistent [OF sample_system_ok,
      of "[AddUser (lit ''amy'') (lit ''x''), RemoveUser (lit ''bob'')]"]
  by (simp add: config_op_ok_def)

lemma sample_remove_user:
  "config_remove_user (lit ''bob'') sample_system
     = (Inr (), snd (config_remove_user (lit ''bob'') sample_system))"
  "tbl_get (sys_conns (snd (config_remove_user (lit ''bob'') sample_system))) 1
     = Some (sample_conn\<lparr>conn_sessions := [(2, sample_session 2 (User (lit ''eve'') []))]\<rparr>)"
  by (simp_all add: config_remove_user_def validate_user_name_def name_defs sample_system_def
      sample_server_tables tbl_get_def tbl_remove_def on_live_def set_server_def sample_conn_def
      close_sessions_for_user_def is_user_def sample_session_def session_new_def close_session_def)

theorem remove_user_ends_access_witness:
  "lookup_user (sys_server (snd (config_remove_user (lit ''bob'') sample_system))) (lit ''bob'')
     = None"
  using remove_user_ends_access [OF sample_system_ok sample_remove_user] by blast

definition sample_revoke :: "unit config_op" where
  "sample_revoke = RevokeShareUser (lit ''DOCS'') (lit ''bob'')"

lemma sample_revoked:
  "run_config_op sample_revoke sample_system
     = (Inr (), snd (run_config_op sample_revoke sample_system))"
  "tbl_get (sys_conns (snd (run_config_op sample_revoke sample_system))) 1
     = Some (sample_conn\<lparr>conn_sessions :=
         [(1, (sample_session 1 (User (lit ''bob'') []))\<lparr>sess_trees := []\<rparr>),
          (2, sample_session 2 (User (lit ''eve'') []))]\<rparr>)"
  by (simp_all add: sample_revoke_def config_revoke_share_user_def validate_user_name_def
      validate_share_name_def name_defs sample_system_def find_share_def shares_find_def
      sample_server_tables tbl_get_def tbl_remove_def on_live_def set_server_def sample_conn_def
      close_trees_for_user_share_def close_matching_trees_def remove_tree_from_session_def
      is_user_def sample_session_def session_new_def tree_connect_new_def sample_docs_def
      share_bindings_new_def connection_new_def close_tree_state_def)

theorem access_changes_close_trees_witness:
  "\<not> (is_user (lit ''bob'') (User (lit ''eve'') []) \<and>
     eq_ignore_ascii_case (lit ''Docs'') (lit ''DOCS''))"
proof -
  have s: "tbl_get (conn_sessions (sample_conn\<lparr>conn_sessions :=
         [(1, (sample_session 1 (User (lit ''bob'') []))\<lparr>sess_trees := []\<rparr>),
          (2, sample_session 2 (User (lit ''eve'') []))]\<rparr>)) 2
        = Some (sample_session 2 (User (lit ''eve'') []))"
    by (simp add: tbl_get_def)
  have t: "tbl_get (sess_trees (sample_session 2 (User (lit ''eve'') []))) 1
      = Some (tree_connect_new 1 sample_docs ReadOnlyAccess)"
    by (simp add: tbl_get_def sample_session_def)
  show ?thesis
    using access_changes_close_trees [OF sample_system_ok sample_revoked s t]
    by (simp add: sample_revoke_def sample_session_def session_new_def tree_connect_new_def
        sample_docs_def share_bindings_new_def)
qed

theorem build_consistent_witness: "config_ok sample_server"
  using build_consistent [OF sample_calls_ok sample_build] by blast
end
