(* ===== verification/Trace.thy ===== *)
theory Trace
  imports Messages_File
begin

text \<open>
  The optional request trace, \<open>src/src/trace.rs\<close>: the correlation key of an operation, the events
  and the call that hands an event to the configured sink. The sink is the caller's; what it
  receives is a list of keyed events. The task-local key of the code is a component of the
  handler state (theory \<open>Handler_Core\<close>).
\<close>

record trace_key =
  tk_connection_id :: u64
  tk_message_id :: u64
  tk_compound_ordinal :: u32

record create_context_info =
  cci_name :: bytes
  cci_data_len :: u32

record create_event =
  ce_path :: rstring
  ce_create_options :: u32
  ce_directory :: bool
  ce_non_directory :: bool
  ce_create_disposition :: u32
  ce_desired_access :: u32
  ce_file_id :: "bytes option"
  ce_contexts :: "create_context_info list"

datatype trace_event =
    RequestEvent string u64 u32
  | ResponseEvent u32
  | CreateEvent create_event
  | SetInfoRenameEvent bool rstring rstring
  | SetInfoOtherEvent u8
  | WriteEvent bytes u64 u32
  | CloseEvent bytes bool rstring
  | BackendEvent rstring

type_synonym trace_log = "(trace_key option \<times> trace_event) list"

definition trace_record :: "bool \<Rightarrow> trace_key option \<Rightarrow> trace_event \<Rightarrow> trace_log \<Rightarrow> trace_log" where
  "trace_record sink key event log = (if sink then log @ [(key, event)] else log)"

lemma trace_record_off [simp]: "trace_record False key event log = log"
  by (simp add: trace_record_def)

lemma trace_record_on [simp]: "trace_record True key event log = log @ [(key, event)]"
  by (simp add: trace_record_def)

text \<open>The sixteen bytes of a file identifier, as the events carry it.\<close>

definition file_id_bytes :: "file_id \<Rightarrow> bytes" where
  "file_id_bytes fid = le64 (fid_persistent fid) @ le64 (fid_volatile fid)"

lemma length_file_id_bytes [simp, wire_len]: "length (file_id_bytes fid) = 16"
  by (simp add: file_id_bytes_def)

end
