(* ===== verification/Access_Control.thy ===== *)
theory Access_Control
  imports Server
begin

text \<open>
  Who may be where. \<open>authorize\<close> and the cap are the decision of
  \<open>src/src/handlers/tree_connect.rs\<close>; the rest is the specification of access control: what the
  current configuration says about a session and its trees. The operations of \<open>ConfigHandle\<close> and
  of \<open>conn/state.rs\<close> that close things keep it.
\<close>

section \<open>The decision of TREE_CONNECT\<close>

definition authorize :: "share_mode \<Rightarrow> share_users \<Rightarrow> identity \<Rightarrow> access option" where
  "authorize mode users who =
     (case mode of
        Public \<Rightarrow> Some ReadWriteAccess
      | PublicReadOnly \<Rightarrow> Some ReadOnlyAccess
      | AuthenticatedOnly \<Rightarrow>
          (case who of Anonymous \<Rightarrow> None | User user _ \<Rightarrow> tbl_get users user))"

definition cap_access :: "'w share_bindings \<Rightarrow> access \<Rightarrow> access" where
  "cap_access share granted =
     (if bc_is_read_only (be_capabilities (sb_backend share)) then clamp_to granted ReadOnlyAccess
      else granted)"

lemma authorize_anonymous: "authorize mode users Anonymous = Some a \<Longrightarrow> is_public_mode mode"
  by (cases mode) (simp_all add: authorize_def is_public_mode_def)

lemma authorize_user:
  "authorize mode users (User u d) = Some a \<Longrightarrow> is_public_mode mode \<or> tbl_get users u = Some a"
  by (cases mode) (simp_all add: authorize_def is_public_mode_def)

lemma cap_access_le: "cap_access share a \<le> a"
  by (simp add: cap_access_def clamp_to_min)

section \<open>Entitlement under the current configuration\<close>

text \<open>A user of the table, or nobody in particular.\<close>

definition known :: "'w server \<Rightarrow> identity \<Rightarrow> bool" where
  "known srv who \<longleftrightarrow> (case who of Anonymous \<Rightarrow> True | User u _ \<Rightarrow> lookup_user srv u \<noteq> None)"

text \<open>
  The share of a tree is configured under its name, on the same backend, and its mode and access
  list let the identity in; a public read-only share is not held for writing. The synthetic
  \<open>IPC$\<close> is open to all. A later grant may have changed the level of the entry, so the level is
  not fixed here (see \<open>grant_keeps_level\<close>).
\<close>

definition tree_entitled :: "'w server \<Rightarrow> identity \<Rightarrow> 'w tree_connect \<Rightarrow> bool" where
  "tree_entitled srv who t \<longleftrightarrow> tree_share t = ipc_share \<or>
     (\<exists>share a. find_share srv (sb_name (tree_share t)) = Some share \<and>
        sb_backend share = sb_backend (tree_share t) \<and>
        authorize (sb_mode share) (sb_users share) who = Some a \<and>
        (sb_mode share = PublicReadOnly \<longrightarrow> tree_granted_access t = ReadOnlyAccess))"

text \<open>
  Sessions and trees may also be there for another reason (an operation of \<open>ConfigHandle\<close> that is
  still at work is about to close them, see \<open>Interleaving\<close>): \<open>X\<close> excuses an identity, or an
  identity with the share and the access of its tree.
\<close>

type_synonym 'w excuse = "identity \<Rightarrow> ('w share_bindings \<times> access) option \<Rightarrow> bool"

definition tree_allowed :: "'w excuse \<Rightarrow> 'w server \<Rightarrow> identity \<Rightarrow> 'w tree_connect \<Rightarrow> bool" where
  "tree_allowed X srv who t \<longleftrightarrow>
     X who (Some (tree_share t, tree_granted_access t)) \<or> tree_entitled srv who t"

definition session_allowed :: "'w excuse \<Rightarrow> 'w server \<Rightarrow> 'w session \<Rightarrow> bool" where
  "session_allowed X srv s \<longleftrightarrow> (X (sess_identity s) None \<or> known srv (sess_identity s)) \<and>
     (\<forall>tid t. tbl_get (sess_trees s) tid = Some t \<longrightarrow> tree_allowed X srv (sess_identity s) t)"

definition conn_allowed :: "'w excuse \<Rightarrow> 'w server \<Rightarrow> 'w connection \<Rightarrow> bool" where
  "conn_allowed X srv c \<longleftrightarrow>
     (\<forall>sid s. tbl_get (conn_sessions c) sid = Some s \<longrightarrow> session_allowed X srv s)"

text \<open>Without an excuse.\<close>

abbreviation session_entitled :: "'w server \<Rightarrow> 'w session \<Rightarrow> bool" where
  "session_entitled \<equiv> session_allowed (\<lambda>_ _. False)"

abbreviation conn_entitled :: "'w server \<Rightarrow> 'w connection \<Rightarrow> bool" where
  "conn_entitled \<equiv> conn_allowed (\<lambda>_ _. False)"

lemma session_entitled_def:
  "session_entitled srv s \<longleftrightarrow> known srv (sess_identity s) \<and>
     (\<forall>tid t. tbl_get (sess_trees s) tid = Some t \<longrightarrow> tree_entitled srv (sess_identity s) t)"
  by (simp add: session_allowed_def tree_allowed_def)

lemma conn_entitled_def:
  "conn_entitled srv c \<longleftrightarrow>
     (\<forall>sid s. tbl_get (conn_sessions c) sid = Some s \<longrightarrow> session_entitled srv s)"
  by (simp add: conn_allowed_def)

definition system_entitled :: "'w system \<Rightarrow> bool" where
  "system_entitled sys \<longleftrightarrow>
     (\<forall>i c. tbl_get (sys_conns sys) i = Some c \<longrightarrow> conn_entitled (sys_server sys) c)"

lemma conn_allowed_get:
  "conn_allowed X srv c \<Longrightarrow> tbl_get (conn_sessions c) sid = Some s \<Longrightarrow> session_allowed X srv s"
  by (simp add: conn_allowed_def)

lemma conn_allowed_new [simp, intro]: "conn_allowed X srv (connection_new i g r w)"
  by (simp add: conn_allowed_def connection_new_def)

lemma session_allowed_new:
  "known srv who \<Longrightarrow> session_allowed X srv (session_new i who k sk req snap)"
  by (simp add: session_allowed_def session_new_def)

lemma session_allowed_put:
  "session_allowed X srv s \<Longrightarrow> tree_allowed X srv (sess_identity s) t \<Longrightarrow>
    session_allowed X srv (s\<lparr>sess_trees := tbl_insert tid t (sess_trees s)\<rparr>)"
  by (simp add: session_allowed_def)

text \<open>An object stays allowed when only its contents change.\<close>

lemma tree_allowed_cong:
  "tree_share t' = tree_share t \<Longrightarrow> tree_granted_access t' = tree_granted_access t \<Longrightarrow>
    tree_allowed X srv who t' \<longleftrightarrow> tree_allowed X srv who t"
  by (simp add: tree_allowed_def tree_entitled_def)

text \<open>What TREE_CONNECT makes is entitled.\<close>

lemma tree_entitled_connect:
  assumes "config_ok srv" and "find_share srv name = Some share"
    and "authorize (sb_mode share) (sb_users share) who = Some a"
  shows "tree_entitled srv who (tree_connect_new tid share (cap_access share a))"
proof -
  have "find_share srv (sb_name share) = Some share"
    using config_ok_share [OF assms(1,2)] assms(2) by (simp add: find_share_def shares_find_def)
  moreover have "cap_access share a = ReadOnlyAccess" if "sb_mode share = PublicReadOnly"
    using that assms(3) by (simp add: authorize_def cap_access_def)
  ultimately show ?thesis
    using assms(3) by (auto simp: tree_entitled_def tree_connect_new_def)
qed

section \<open>Closing keeps entitlement\<close>

text \<open>A connection with fewer sessions and trees than another.\<close>

definition fewer :: "'w connection \<Rightarrow> 'w connection \<Rightarrow> bool" where
  "fewer c c' \<longleftrightarrow> (\<forall>sid s'. tbl_get (conn_sessions c') sid = Some s' \<longrightarrow>
     (\<exists>s. tbl_get (conn_sessions c) sid = Some s \<and> sess_identity s' = sess_identity s \<and>
        (\<forall>tid t. tbl_get (sess_trees s') tid = Some t \<longrightarrow> tbl_get (sess_trees s) tid = Some t)))"

lemma conn_allowed_fewer: "fewer c c' \<Longrightarrow> conn_allowed X srv c \<Longrightarrow> conn_allowed X srv c'"
  unfolding fewer_def conn_allowed_def session_allowed_def by metis

lemma close_session_fewer: "close_session sid c w = (r, c', w') \<Longrightarrow> fewer c c'"
  by (auto simp: close_session_def fewer_def split: option.splits if_splits)

lemma close_tree_fewer: "close_tree sid tid c w = (r, c', w') \<Longrightarrow> fewer c c'"
  by (auto simp: close_tree_def remove_tree_from_session_def fewer_def
      split: option.splits prod.splits if_splits)

text \<open>
  What an operation of \<open>ConfigHandle\<close> closes on every live connection once it has changed the
  tables, and the sessions and trees that this is about.
\<close>

datatype closing =
    ClosingUser rstring
  | ClosingShare rstring
  | ClosingUserShare rstring rstring

fun close_on :: "closing \<Rightarrow> 'w connection \<Rightarrow> 'w \<Rightarrow> nat \<times> 'w connection \<times> 'w" where
  "close_on (ClosingUser u) = close_sessions_for_user u"
| "close_on (ClosingShare n) = close_trees_for_share n"
| "close_on (ClosingUserShare u n) = close_trees_for_user_share u n"

fun about_to_close :: "closing \<Rightarrow> 'w excuse" where
  "about_to_close (ClosingUser u) who it = is_user u who"
| "about_to_close (ClosingShare n) who it =
     (case it of None \<Rightarrow> False | Some (share, _) \<Rightarrow> eq_ignore_ascii_case (sb_name share) n)"
| "about_to_close (ClosingUserShare u n) who it =
     (is_user u who \<and>
      (case it of None \<Rightarrow> False | Some (share, _) \<Rightarrow> eq_ignore_ascii_case (sb_name share) n))"

lemma close_on_ok: "conn_ok c \<Longrightarrow> close_on cl c w = (r, c', w') \<Longrightarrow> conn_ok c'"
  by (cases cl) (auto simp: close_trees_for_share_def close_trees_for_user_share_def
      intro: close_sessions_for_user_gone(1) close_matching_ok)

lemma close_matching_allowed:
  assumes ok: "conn_ok c" and run: "close_matching_trees P c w = (r, c', w')"
    and allowed: "conn_allowed (\<lambda>who it. X who it \<or> C who it) srv c"
    and "\<And>who. \<not> C who None"
    and "\<And>s t. C (sess_identity s) (Some (tree_share t, tree_granted_access t)) \<Longrightarrow> P s t"
  shows "conn_allowed X srv c'"
  unfolding conn_allowed_def session_allowed_def
proof (intro allI impI conjI)
  fix sid s assume s: "tbl_get (conn_sessions c') sid = Some s"
  obtain s0 where s0: "tbl_get (conn_sessions c) sid = Some s0" "s = keep_trees P s0"
    using s close_matching_sessions(1) [OF ok run] by (auto simp: tbl_get_map_val)
  have who: "sess_identity s = sess_identity s0" by (simp add: s0(2) keep_trees_def)
  note s0_allowed = conn_allowed_get [OF allowed s0(1)]
  then show "X (sess_identity s) None \<or> known srv (sess_identity s)"
    using assms(4) by (auto simp: session_allowed_def who)
  fix tid t assume t: "tbl_get (sess_trees s) tid = Some t"
  from close_matching_none [OF ok run s t] s0(1)
  have "(tid, t) \<in> set (sess_trees s0)" and not_P: "\<not> P s0 t" by auto
  moreover have "tbl_ok (sess_trees s0)"
    using conn_ok_sessions [OF ok s0(1)] by (auto simp: session_ok_def tbl_all_ok)
  ultimately have "tbl_get (sess_trees s0) tid = Some t" by (simp add: tbl_in_get)
  with s0_allowed have "tree_allowed (\<lambda>who it. X who it \<or> C who it) srv (sess_identity s0) t"
    by (simp add: session_allowed_def)
  with assms(5) [of s0 t] not_P show "tree_allowed X srv (sess_identity s) t"
    by (auto simp: tree_allowed_def who)
qed

text \<open>After the closing, what it was about needs no excuse any more.\<close>

lemma close_on_allowed:
  assumes "conn_ok c" and "close_on cl c w = (r, c', w')"
    and "conn_allowed (\<lambda>who it. X who it \<or> about_to_close cl who it) srv c"
  shows "conn_allowed X srv c'"
proof (cases cl)
  case (ClosingUser u)
  have run: "close_sessions_for_user u c w = (r, c', w')" using assms(2) ClosingUser by simp
  show ?thesis
    unfolding conn_allowed_def
    using conn_allowed_get [OF assms(3)] close_sessions_for_user_gone(2) [OF assms(1) run]
    by (auto simp: ClosingUser session_allowed_def tree_allowed_def split: option.splits if_splits)
next
  case (ClosingShare n)
  from close_matching_allowed [OF assms(1) _ assms(3)] assms(2) ClosingShare show ?thesis
    by (simp add: close_trees_for_share_def)
next
  case (ClosingUserShare u n)
  from close_matching_allowed [OF assms(1) _ assms(3)] assms(2) ClosingUserShare show ?thesis
    by (simp add: close_trees_for_user_share_def)
qed

section \<open>Configuration changes and entitlement\<close>

text \<open>
  A change of the tables takes no right away, excuses apart: who is not known any more, and what is
  not entitled any more, is excused.
\<close>

definition rights_kept :: "'w excuse \<Rightarrow> 'w server \<Rightarrow> 'w server \<Rightarrow> bool" where
  "rights_kept C srv srv' \<longleftrightarrow> (\<forall>who. known srv who \<longrightarrow> known srv' who \<or> C who None) \<and>
     (\<forall>who t. tree_entitled srv who t \<longrightarrow> tree_allowed C srv' who t)"

lemma rights_kept_refl [simp, intro]: "rights_kept C srv srv"
  by (simp add: rights_kept_def tree_allowed_def)

lemma rights_kept_all:
  "(\<And>who. known srv who \<Longrightarrow> known srv' who) \<Longrightarrow>
    (\<And>who t. tree_entitled srv who t \<Longrightarrow> tree_entitled srv' who t) \<Longrightarrow> rights_kept C srv srv'"
  by (simp add: rights_kept_def tree_allowed_def)

lemma conn_allowed_rights:
  assumes "rights_kept C srv srv'" and "conn_allowed X srv c"
  shows "conn_allowed (\<lambda>who it. X who it \<or> C who it) srv' c"
  using assms unfolding conn_allowed_def session_allowed_def rights_kept_def tree_allowed_def by blast

lemma system_entitled_set_server:
  "system_entitled sys \<Longrightarrow> rights_kept (\<lambda>_ _. False) (sys_server sys) (f (sys_server sys)) \<Longrightarrow>
    system_entitled (set_server f sys)"
  using conn_allowed_rights [of "\<lambda>_ _. False" "sys_server sys" "f (sys_server sys)" "\<lambda>_ _. False"]
  by (simp add: system_entitled_def)

text \<open>What the tables answer after a change.\<close>

lemma find_put_share:
  "find_share (put_share s srv) n
    = (if eq_ignore_ascii_case n (sb_name s) then Some s else find_share srv n)"
  by (simp add: find_share_def shares_find_def put_share_def eq_ignore_ascii_case_def)

lemma known_put_share [simp]: "known (put_share s srv) who = known srv who"
  by (simp add: known_def lookup_user_def put_share_def split: identity.splits)

text \<open>A tree on another share, or whose share still lets the identity in, is still entitled.\<close>

lemma tree_entitled_put_share:
  assumes "tree_entitled srv who t"
    and "\<And>old a. eq_ignore_ascii_case (sb_name (tree_share t)) (sb_name s) \<Longrightarrow>
      find_share srv (sb_name (tree_share t)) = Some old \<Longrightarrow>
      authorize (sb_mode old) (sb_users old) who = Some a \<Longrightarrow>
      sb_backend s = sb_backend old \<and> sb_mode s = sb_mode old \<and>
      authorize (sb_mode s) (sb_users s) who \<noteq> None"
  shows "tree_entitled (put_share s srv) who t"
proof (cases "eq_ignore_ascii_case (sb_name (tree_share t)) (sb_name s)")
  case False
  with assms(1) show ?thesis by (simp add: tree_entitled_def find_put_share)
next
  case True
  with assms(1) assms(2) [OF True] show ?thesis
    by (auto simp: tree_entitled_def find_put_share) metis+
qed

lemma find_share_name:
  "config_ok srv \<Longrightarrow> find_share srv n = Some s \<Longrightarrow>
    eq_ignore_ascii_case m (sb_name s) \<Longrightarrow> find_share srv m = Some s"
  by (drule config_ok_share, assumption)
    (simp add: eq_ignore_ascii_case_def find_share_def shares_find_def)

lemma authorize_grant:
  "authorize mode users who = Some a \<Longrightarrow> authorize mode (tbl_insert u b users) who \<noteq> None"
  by (cases mode) (auto simp: authorize_def split: identity.splits)

lemma authorize_drop:
  "authorize mode users who = Some a \<Longrightarrow> \<not> is_user u who \<Longrightarrow>
    authorize mode (tbl_remove u users) who = Some a"
  by (cases mode) (auto simp: authorize_def is_user_def split: identity.splits)

lemma drop_acl_user_simps [simp]:
  "sb_backend (drop_acl_user u s) = sb_backend s" "sb_mode (drop_acl_user u s) = sb_mode s"
  "sb_users (drop_acl_user u s) = tbl_remove u (sb_users s)"
  by (simp_all add: drop_acl_user_def)

section \<open>The operations of ConfigHandle\<close>

text \<open>The closing that a successful operation goes on with.\<close>

fun closing_of :: "'w config_op \<Rightarrow> 'w server \<Rightarrow> closing option" where
  "closing_of (RemoveUser n) srv = Some (ClosingUser n)"
| "closing_of (RemoveShare n) srv = Some (ClosingShare n)"
| "closing_of (RevokeShareUser n u) srv = Some (ClosingUserShare u n)"
| "closing_of (SetShareMode n m) srv =
     (if map_option sb_mode (find_share srv n) = Some m then None else Some (ClosingShare n))"
| "closing_of _ srv = None"

definition closing_after :: "'w config_op \<Rightarrow> 'w server \<Rightarrow> config_error + unit \<Rightarrow> closing option" where
  "closing_after oper srv r = (case r of Inl _ \<Rightarrow> None | Inr _ \<Rightarrow> closing_of oper srv)"

definition excuse_of :: "closing option \<Rightarrow> 'w excuse" where
  "excuse_of todo = (case todo of None \<Rightarrow> \<lambda>_ _. False | Some cl \<Rightarrow> about_to_close cl)"

definition close_all :: "closing option \<Rightarrow> 'w system \<Rightarrow> 'w system" where
  "close_all todo sys = (case todo of None \<Rightarrow> sys | Some cl \<Rightarrow> on_live (close_on cl) sys)"

lemmas config_op_cases = config_add_user_cases config_remove_user_cases config_add_share_cases
  config_remove_share_cases config_grant_cases config_revoke_cases config_set_mode_cases

lemmas closing_defs = closing_after_def excuse_of_def close_all_def

text \<open>An operation changes the tables and then closes.\<close>

lemma run_config_op_parts:
  assumes "run_config_op oper sys = (r, sys')"
  shows "sys' = close_all (closing_after oper (sys_server sys) r) (set_server (\<lambda>_. sys_server sys') sys)"
proof -
  have parts: "sys' = close_all (closing_of oper (sys_server sys)) (set_server (\<lambda>_. sys_server sys') sys)"
    if "r = Inr ()"
    using assms that
    by (cases oper) (auto simp: close_all_def set_server_def elim!: config_op_cases)
  show ?thesis
  proof (cases r)
    case (Inl e)
    with run_config_op_error [of oper sys e sys'] assms have "sys' = sys" by simp
    with Inl show ?thesis by (cases sys) (simp add: closing_defs set_server_def)
  qed (use parts in \<open>simp add: closing_after_def\<close>)
qed

lemma tables_dropped:
  "find_share (srv\<lparr>srv_users := us, srv_shares := map (\<lambda>(k, s). (k, drop_acl_user u s)) (srv_shares srv)\<rparr>) n
    = map_option (drop_acl_user u) (find_share srv n)"
  by (simp add: find_share_def shares_find_def tbl_get_map_val)

lemma remove_user_rights:
  "rights_kept (about_to_close (ClosingUser n)) srv (srv\<lparr>srv_users := tbl_remove n (srv_users srv),
     srv_shares := map (\<lambda>(k, s). (k, drop_acl_user n s)) (srv_shares srv)\<rparr>)"
  (is "rights_kept _ srv ?srv'")
proof -
  have "known ?srv' who \<or> is_user n who" if "known srv who" for who
    using that by (auto simp: known_def lookup_user_def is_user_def split: identity.splits)
  moreover have "tree_entitled ?srv' who t \<or> is_user n who" if "tree_entitled srv who t" for who t
    using that authorize_drop [of _ _ who _ n]
    unfolding tree_entitled_def tables_dropped by (elim disjE exE conjE) auto
  ultimately show ?thesis by (auto simp: rights_kept_def tree_allowed_def)
qed

lemma remove_share_rights:
  "rights_kept (about_to_close (ClosingShare n)) srv
     (srv\<lparr>srv_shares := tbl_remove (to_ascii_lowercase n) (srv_shares srv)\<rparr>)"
  by (auto simp: rights_kept_def tree_allowed_def known_def lookup_user_def tree_entitled_def
      find_share_def shares_find_def eq_ignore_ascii_case_def split: identity.splits)

lemma add_share_rights:
  assumes "find_share srv (sb_name s) = None"
  shows "rights_kept C srv (put_share s srv)"
proof -
  have "find_share srv n = None" if "eq_ignore_ascii_case n (sb_name s)" for n
    using assms that by (simp add: find_share_def shares_find_def eq_ignore_ascii_case_def)
  then show ?thesis by (intro rights_kept_all tree_entitled_put_share) auto
qed

text \<open>An operation on one share: the trees on the others keep their rights.\<close>

lemma put_share_rights:
  fixes srv :: "'w server"
  assumes "config_ok srv" and "find_share srv n = Some old" and "sb_name s = sb_name old"
    and "\<And>who (t :: 'w tree_connect) a. eq_ignore_ascii_case (sb_name (tree_share t)) n \<Longrightarrow>
      authorize (sb_mode old) (sb_users old) who = Some a \<Longrightarrow>
      (sb_backend s = sb_backend old \<and> sb_mode s = sb_mode old \<and>
        authorize (sb_mode s) (sb_users s) who \<noteq> None) \<or>
      C who (Some (tree_share t, tree_granted_access t))"
  shows "rights_kept C srv (put_share s srv)"
proof -
  have name: "eq_ignore_ascii_case m (sb_name s) \<longleftrightarrow> eq_ignore_ascii_case m n" for m
    using config_ok_share [OF assms(1,2)] assms(3) by (simp add: eq_ignore_ascii_case_def)
  have "tree_allowed C (put_share s srv) who t" if t: "tree_entitled srv who t" for who t
  proof (cases "C who (Some (tree_share t, tree_granted_access t))")
    case False
    have "tree_entitled (put_share s srv) who t"
    proof (rule tree_entitled_put_share [OF t])
      fix found a
      assume n: "eq_ignore_ascii_case (sb_name (tree_share t)) (sb_name s)"
        and found: "find_share srv (sb_name (tree_share t)) = Some found"
        and a: "authorize (sb_mode found) (sb_users found) who = Some a"
      from n assms(3) have "find_share srv (sb_name (tree_share t)) = Some old"
        by (intro find_share_name [OF assms(1,2)]) simp
      with found have "found = old" by simp
      with assms(4) [of t who a] a False n show "sb_backend s = sb_backend found \<and>
          sb_mode s = sb_mode found \<and> authorize (sb_mode s) (sb_users s) who \<noteq> None"
        by (auto simp: name)
    qed
    then show ?thesis by (simp add: tree_allowed_def)
  qed (simp add: tree_allowed_def)
  then show ?thesis by (simp add: rights_kept_def)
qed

lemma run_config_op_rights:
  fixes sys :: "'w system"
  assumes "config_ok (sys_server sys)" and "run_config_op oper sys = (r, sys')"
  shows "rights_kept (excuse_of (closing_after oper (sys_server sys) r)) (sys_server sys) (sys_server sys')"
proof -
  let ?srv = "sys_server sys"
  have parts: "?thesis" if "r = Inr () \<Longrightarrow>
      rights_kept (excuse_of (closing_of oper ?srv)) ?srv (sys_server sys')"
    using that run_config_op_error [of oper sys _ sys'] assms(2)
    by (cases r) (auto simp: closing_after_def)
  show ?thesis
  proof (cases oper)
    case (AddUser n p)
    with assms(2) show ?thesis
      by (intro parts) (auto simp: known_def lookup_user_def tree_entitled_def find_share_def
        elim!: config_add_user_cases intro!: rights_kept_all split: identity.splits)
  next
    case (RemoveUser n)
    with assms(2) remove_user_rights [of n ?srv] show ?thesis
      by (intro parts) (auto simp: excuse_of_def elim!: config_remove_user_cases)
  next
    case (AddShare sh)
    with assms(2) show ?thesis
      by (intro parts) (auto simp: share_bindings_new_def elim!: config_add_share_cases
        intro!: add_share_rights)
  next
    case (RemoveShare n)
    with assms(2) remove_share_rights [of n ?srv] show ?thesis
      by (intro parts) (auto simp: excuse_of_def elim!: config_remove_share_cases)
  next
    case (GrantShareUser n u a)
    have "rights_kept C ?srv (put_share (s\<lparr>sb_users := tbl_insert u a (sb_users s)\<rparr>) ?srv)"
      if "find_share ?srv n = Some s" for s C
      by (rule put_share_rights [OF assms(1) that]) (auto dest: authorize_grant)
    with GrantShareUser assms(2) show ?thesis by (intro parts) (auto elim!: config_grant_cases)
  next
    case (RevokeShareUser n u)
    have "rights_kept (about_to_close (ClosingUserShare u n)) ?srv (put_share (drop_acl_user u s) ?srv)"
      if "find_share ?srv n = Some s" for s
      by (rule put_share_rights [OF assms(1) that]) (auto dest: authorize_drop simp: drop_acl_user_def)
    with RevokeShareUser assms(2) show ?thesis
      by (intro parts) (auto simp: excuse_of_def elim!: config_revoke_cases)
  next
    case (SetShareMode n m)
    have "rights_kept (about_to_close (ClosingShare n)) ?srv (put_share (s\<lparr>sb_mode := m\<rparr>) ?srv)"
      if "find_share ?srv n = Some s" for s
      by (rule put_share_rights [OF assms(1) that]) auto
    with SetShareMode assms(2) show ?thesis
      by (intro parts) (auto simp: excuse_of_def elim!: config_set_mode_cases)
  qed
qed

lemma run_config_op_entitled:
  assumes "system_ok sys" and "system_entitled sys" and "run_config_op oper sys = (r, sys')"
  shows "system_entitled sys'"
proof -
  let ?todo = "closing_after oper (sys_server sys) r" and ?sys = "set_server (\<lambda>_. sys_server sys') sys"
  have "config_ok (sys_server sys)" using assms(1) by (simp add: system_ok_def)
  note rights = run_config_op_rights [OF this assms(3)]
  have sys': "sys' = close_all ?todo ?sys" using assms(3) by (rule run_config_op_parts)
  have conns: "tbl_all (\<lambda>_. conn_ok) (sys_conns sys)" using assms(1) by (simp add: system_ok_def)
  have before: "conn_allowed (excuse_of ?todo) (sys_server sys') c"
    if "tbl_get (sys_conns sys) i = Some c" for i c
    using conn_allowed_rights [OF rights] assms(2) that by (fastforce simp: system_entitled_def)
  have "conn_entitled (sys_server sys') c'" if c': "tbl_get (sys_conns sys') i = Some c'" for i c'
  proof (cases ?todo)
    case None
    with c' before [of i c'] show ?thesis
      by (subst (asm) sys') (simp add: closing_defs)
  next
    case (Some cl)
    with sys' c' have "tbl_get (sys_conns (on_live (close_on cl) ?sys)) i = Some c'"
      by (simp add: close_all_def)
    from on_live_get [OF _ this] conns obtain c w1 k w2 where
        c: "tbl_get (sys_conns sys) i = Some c" "close_on cl c w1 = (k, c', w2)"
      by (auto simp: tbl_all_ok)
    have "conn_ok c" using conns c(1) by (rule tbl_all_get)
    from close_on_allowed [OF this c(2), of "\<lambda>_ _. False"] before [OF c(1)] Some
    show ?thesis by (simp add: excuse_of_def)
  qed
  then show ?thesis by (simp add: system_entitled_def)
qed

text \<open>
  A grant leaves every connection as it is: a live tree keeps the level it was connected with, even
  when the grant replaces write access by read access.
\<close>

lemma grant_keeps_level:
  "config_grant_share_user n u a sys = (r, sys') \<Longrightarrow> sys_conns sys' = sys_conns sys"
  by (erule config_grant_cases) simp_all

end
