(* ===== verification/Info_Class.thy ===== *)
theory Info_Class
  imports Backend
begin

text \<open>
  The encoders of \<open>src/src/info_class.rs\<close> for QUERY_INFO and QUERY_DIRECTORY.
\<close>

definition FILE_DIRECTORY_INFORMATION :: u8 where "FILE_DIRECTORY_INFORMATION = 0x01"
definition FILE_FULL_DIRECTORY_INFORMATION :: u8 where "FILE_FULL_DIRECTORY_INFORMATION = 0x02"
definition FILE_BOTH_DIRECTORY_INFORMATION :: u8 where "FILE_BOTH_DIRECTORY_INFORMATION = 0x03"
definition FILE_BASIC_INFORMATION :: u8 where "FILE_BASIC_INFORMATION = 0x04"
definition FILE_STANDARD_INFORMATION :: u8 where "FILE_STANDARD_INFORMATION = 0x05"
definition FILE_INTERNAL_INFORMATION :: u8 where "FILE_INTERNAL_INFORMATION = 0x06"
definition FILE_EA_INFORMATION :: u8 where "FILE_EA_INFORMATION = 0x07"
definition FILE_ACCESS_INFORMATION :: u8 where "FILE_ACCESS_INFORMATION = 0x08"
definition FILE_NAME_INFORMATION :: u8 where "FILE_NAME_INFORMATION = 0x09"
definition FILE_RENAME_INFORMATION :: u8 where "FILE_RENAME_INFORMATION = 0x0A"
definition FILE_NAMES_INFORMATION :: u8 where "FILE_NAMES_INFORMATION = 0x0C"
definition FILE_DISPOSITION_INFORMATION :: u8 where "FILE_DISPOSITION_INFORMATION = 0x0D"
definition FILE_POSITION_INFORMATION :: u8 where "FILE_POSITION_INFORMATION = 0x0E"
definition FILE_FULL_EA_INFORMATION :: u8 where "FILE_FULL_EA_INFORMATION = 0x0F"
definition FILE_MODE_INFORMATION :: u8 where "FILE_MODE_INFORMATION = 0x10"
definition FILE_ALIGNMENT_INFORMATION :: u8 where "FILE_ALIGNMENT_INFORMATION = 0x11"
definition FILE_ALL_INFORMATION :: u8 where "FILE_ALL_INFORMATION = 0x12"
definition FILE_ALLOCATION_INFORMATION :: u8 where "FILE_ALLOCATION_INFORMATION = 0x13"
definition FILE_END_OF_FILE_INFORMATION :: u8 where "FILE_END_OF_FILE_INFORMATION = 0x14"
definition FILE_STREAM_INFORMATION :: u8 where "FILE_STREAM_INFORMATION = 0x16"
definition FILE_NETWORK_OPEN_INFORMATION :: u8 where "FILE_NETWORK_OPEN_INFORMATION = 0x22"
definition FILE_ID_BOTH_DIRECTORY_INFORMATION :: u8 where
  "FILE_ID_BOTH_DIRECTORY_INFORMATION = 0x25"
definition FILE_ID_FULL_DIRECTORY_INFORMATION :: u8 where
  "FILE_ID_FULL_DIRECTORY_INFORMATION = 0x26"

definition FS_VOLUME_INFORMATION :: u8 where "FS_VOLUME_INFORMATION = 0x01"
definition FS_SIZE_INFORMATION :: u8 where "FS_SIZE_INFORMATION = 0x03"
definition FS_DEVICE_INFORMATION :: u8 where "FS_DEVICE_INFORMATION = 0x04"
definition FS_ATTRIBUTE_INFORMATION :: u8 where "FS_ATTRIBUTE_INFORMATION = 0x05"
definition FS_FULL_SIZE_INFORMATION :: u8 where "FS_FULL_SIZE_INFORMATION = 0x07"

lemmas file_class_defs =
  FILE_DIRECTORY_INFORMATION_def FILE_FULL_DIRECTORY_INFORMATION_def
  FILE_BOTH_DIRECTORY_INFORMATION_def FILE_BASIC_INFORMATION_def FILE_STANDARD_INFORMATION_def
  FILE_INTERNAL_INFORMATION_def FILE_EA_INFORMATION_def FILE_ACCESS_INFORMATION_def
  FILE_NAME_INFORMATION_def FILE_RENAME_INFORMATION_def FILE_NAMES_INFORMATION_def
  FILE_DISPOSITION_INFORMATION_def FILE_POSITION_INFORMATION_def FILE_FULL_EA_INFORMATION_def
  FILE_MODE_INFORMATION_def FILE_ALIGNMENT_INFORMATION_def FILE_ALL_INFORMATION_def
  FILE_ALLOCATION_INFORMATION_def FILE_END_OF_FILE_INFORMATION_def FILE_STREAM_INFORMATION_def
  FILE_NETWORK_OPEN_INFORMATION_def FILE_ID_BOTH_DIRECTORY_INFORMATION_def
  FILE_ID_FULL_DIRECTORY_INFORMATION_def

section \<open>File information\<close>

definition encode_file_basic_information :: "file_info \<Rightarrow> bytes" where
  "encode_file_basic_information i =
     le64 (fi_creation_time i) @ le64 (fi_last_access_time i) @ le64 (fi_last_write_time i) @
     le64 (fi_change_time i) @ le32 (fi_attributes i) @ le32 0"

definition encode_file_standard_information :: "file_info \<Rightarrow> bytes" where
  "encode_file_standard_information i =
     le64 (fi_allocation_size i) @ le64 (fi_end_of_file i) @ le32 1 @ [0] @
     [if fi_is_directory i then 1 else 0] @ le16 0"

definition encode_file_internal_information :: "u64 \<Rightarrow> bytes" where
  "encode_file_internal_information file_index = le64 file_index"

definition encode_file_ea_information :: bytes where
  "encode_file_ea_information = le32 0"

definition encode_file_access_information :: "u32 \<Rightarrow> bytes" where
  "encode_file_access_information access_mask = le32 access_mask"

definition encode_file_position_information :: bytes where
  "encode_file_position_information = le64 0"

definition encode_file_mode_information :: "u32 \<Rightarrow> bytes" where
  "encode_file_mode_information mode = le32 mode"

definition encode_file_alignment_information :: bytes where
  "encode_file_alignment_information = le32 0"

definition encode_file_name_information :: "rstring \<Rightarrow> bytes" where
  "encode_file_name_information name =
     (let n = utf16le name in le32 (of_nat (length n)) @ n)"

definition encode_file_all_information :: "file_info \<Rightarrow> u64 \<Rightarrow> u32 \<Rightarrow> bytes" where
  "encode_file_all_information i file_index access_mask =
     (let out = encode_file_basic_information i @ encode_file_standard_information i @
                encode_file_internal_information file_index @ encode_file_ea_information @
                encode_file_access_information access_mask @ encode_file_position_information @
                encode_file_mode_information 0 @ encode_file_alignment_information @
                encode_file_name_information (fi_name i)
      in if length out < 101 then out @ [0] else out)"

definition encode_file_network_open_information :: "file_info \<Rightarrow> bytes" where
  "encode_file_network_open_information i =
     le64 (fi_creation_time i) @ le64 (fi_last_access_time i) @ le64 (fi_last_write_time i) @
     le64 (fi_change_time i) @ le64 (fi_allocation_size i) @ le64 (fi_end_of_file i) @
     le32 (fi_attributes i) @ le32 0"

definition encode_file_stream_information :: "file_info \<Rightarrow> bytes" where
  "encode_file_stream_information i =
     (if fi_is_directory i then []
      else let stream_name = utf16le (lit ''::$DATA'')
           in le32 0 @ le32 (of_nat (length stream_name)) @ le64 (fi_end_of_file i) @
              le64 (fi_allocation_size i) @ stream_name)"

section \<open>File-system information\<close>

definition encode_fs_volume_information :: "u64 \<Rightarrow> u32 \<Rightarrow> rstring \<Rightarrow> bytes" where
  "encode_fs_volume_information creation_time serial label =
     (let label_u16 = utf16le label
      in le64 creation_time @ le32 serial @ le32 (of_nat (length label_u16)) @ [0] @ [0] @
         label_u16)"

definition encode_fs_size_information :: "u64 \<Rightarrow> u64 \<Rightarrow> u32 \<Rightarrow> u32 \<Rightarrow> bytes" where
  "encode_fs_size_information total_alloc_units avail_alloc_units sectors_per_unit bytes_per_sector =
     le64 total_alloc_units @ le64 avail_alloc_units @ le32 sectors_per_unit @
     le32 bytes_per_sector"

definition encode_fs_device_information :: "u32 \<Rightarrow> u32 \<Rightarrow> bytes" where
  "encode_fs_device_information device_type characteristics =
     le32 device_type @ le32 characteristics"

definition encode_fs_attribute_information :: "u32 \<Rightarrow> u32 \<Rightarrow> rstring \<Rightarrow> bytes" where
  "encode_fs_attribute_information attributes max_component_len fs_name =
     (let name_u16 = utf16le fs_name
      in le32 attributes @ le32 max_component_len @ le32 (of_nat (length name_u16)) @ name_u16)"

definition encode_fs_full_size_information ::
    "u64 \<Rightarrow> u64 \<Rightarrow> u64 \<Rightarrow> u32 \<Rightarrow> u32 \<Rightarrow> bytes" where
  "encode_fs_full_size_information units caller_avail actual_avail sectors_per_unit
      bytes_per_sector =
     le64 units @ le64 caller_avail @ le64 actual_avail @ le32 sectors_per_unit @
     le32 bytes_per_sector"

section \<open>The security descriptor\<close>

definition EVERYONE_SID :: bytes where
  "EVERYONE_SID = [0x01, 0x01, 0, 0, 0, 0, 0, 0x01, 0, 0, 0, 0]"

definition encode_minimal_security_descriptor :: bytes where
  "encode_minimal_security_descriptor =
     (let ace = [0x00, 0x00] @ le16 (of_nat (4 + 4 + length EVERYONE_SID)) @ le32 0x001F01FF @
                EVERYONE_SID;
          dacl = [0x02, 0x00] @ le16 (of_nat (8 + length ace)) @ le16 1 @ le16 0 @ ace;
          owner_off = 20 :: u32;
          dacl_off = owner_off + of_nat (length EVERYONE_SID)
      in [0x01, 0x00] @ le16 (0x0004 OR 0x8000) @ le32 owner_off @ le32 0 @ le32 0 @
         le32 dacl_off @ EVERYONE_SID @ dacl)"

section \<open>Directory entries\<close>

definition write_dir_entry_prefix :: "file_info \<Rightarrow> u64 \<Rightarrow> nat \<Rightarrow> bytes" where
  "write_dir_entry_prefix i file_index name_len =
     le32 0 @ le32 (ucast file_index) @ le64 (fi_creation_time i) @ le64 (fi_last_access_time i) @
     le64 (fi_last_write_time i) @ le64 (fi_change_time i) @ le64 (fi_end_of_file i) @
     le64 (fi_allocation_size i) @ le32 (fi_attributes i) @ le32 (of_nat name_len)"

definition encode_dir_entry :: "u8 \<Rightarrow> dir_entry \<Rightarrow> u64 \<Rightarrow> bytes" where
  "encode_dir_entry cls entry file_index =
     (let name_u16 = utf16le (fi_name entry);
          prefix = write_dir_entry_prefix entry file_index (length name_u16)
      in if cls = FILE_DIRECTORY_INFORMATION then prefix @ name_u16
         else if cls = FILE_FULL_DIRECTORY_INFORMATION then prefix @ le32 0 @ name_u16
         else if cls = FILE_BOTH_DIRECTORY_INFORMATION
         then prefix @ le32 0 @ [0] @ [0] @ replicate 24 0 @ name_u16
         else if cls = FILE_ID_BOTH_DIRECTORY_INFORMATION
         then prefix @ le32 0 @ [0] @ [0] @ replicate 24 0 @ le16 0 @ le64 file_index @ name_u16
         else if cls = FILE_ID_FULL_DIRECTORY_INFORMATION
         then prefix @ le32 0 @ le32 0 @ le64 file_index @ name_u16
         else if cls = FILE_NAMES_INFORMATION
         then le32 0 @ le32 (ucast file_index) @ le32 (of_nat (length name_u16)) @ name_u16
         else [])"

section \<open>Sizes\<close>

lemma length_write_dir_entry_prefix [simp, wire_len]:
  "length (write_dir_entry_prefix i f n) = 64"
  by (simp add: write_dir_entry_prefix_def)

lemma length_info_encoders [simp, wire_len]:
  "length (encode_file_basic_information i) = 40"
  "length (encode_file_standard_information i) = 24"
  "length (encode_file_internal_information x) = 8"
  "length encode_file_ea_information = 4"
  "length (encode_file_access_information m) = 4"
  "length encode_file_position_information = 8"
  "length (encode_file_mode_information m) = 4"
  "length encode_file_alignment_information = 4"
  "length (encode_file_network_open_information i) = 56"
  "length (encode_fs_size_information a b c d) = 24"
  "length (encode_fs_device_information c d) = 8"
  "length (encode_fs_full_size_information a b e c d) = 32"
  by (simp_all add: encode_file_basic_information_def encode_file_standard_information_def
      encode_file_internal_information_def encode_file_ea_information_def
      encode_file_access_information_def encode_file_position_information_def
      encode_file_mode_information_def encode_file_alignment_information_def
      encode_file_network_open_information_def encode_fs_size_information_def
      encode_fs_device_information_def encode_fs_full_size_information_def)

lemma length_encode_file_all_information:
  "101 \<le> length (encode_file_all_information i f m)"
  by (cases "utf16le (fi_name i)")
    (simp_all add: encode_file_all_information_def Let_def encode_file_name_information_def)

lemma length_minimal_security_descriptor: "length encode_minimal_security_descriptor = 60"
  by (simp add: encode_minimal_security_descriptor_def EVERYONE_SID_def Let_def)

definition dir_classes :: "u8 set" where
  "dir_classes = {FILE_DIRECTORY_INFORMATION, FILE_FULL_DIRECTORY_INFORMATION,
     FILE_BOTH_DIRECTORY_INFORMATION, FILE_ID_BOTH_DIRECTORY_INFORMATION,
     FILE_ID_FULL_DIRECTORY_INFORMATION, FILE_NAMES_INFORMATION}"

lemma encode_dir_entry_Nil_iff: "encode_dir_entry c e f = [] \<longleftrightarrow> c \<notin> dir_classes"
  by (auto simp: encode_dir_entry_def Let_def dir_classes_def write_dir_entry_prefix_def)

text \<open>Every entry begins with a zero \<open>NextEntryOffset\<close>, the four bytes that chaining patches.\<close>

lemma encode_dir_entry_next:
  assumes "c \<in> dir_classes"
  shows "12 \<le> length (encode_dir_entry c e f)" and "take 4 (encode_dir_entry c e f) = le32 0"
  using assms
  by (auto simp: encode_dir_entry_def Let_def dir_classes_def write_dir_entry_prefix_def)

end
