(* ===== verification/Handler_Core.thy ===== *)
theory Handler_Core
  imports Access_Control Trace Messages_Info Info_Class
begin

text \<open>
  What the handlers share: the response of a handler (\<open>HandlerResponse\<close> of
  \<open>src/src/dispatch.rs\<close>), the lookups of \<open>src/src/handlers/shared.rs\<close>, and the state a handler
  runs in. A handler is a function from the server, the request header, the body and this state
  to a response and the next state. An early \<open>return HandlerResponse::err(..)\<close> is \<open>or_fail\<close>.
\<close>

section \<open>Responses\<close>

record handler_response =
  hr_body :: bytes
  hr_status :: u32
  hr_override_tree_id :: "u32 option"
  hr_override_session_id :: "u64 option"
  hr_skip_signing :: bool
  hr_take_preauth_snapshot :: "u64 option"
  hr_panicked :: bool

text \<open>
  \<open>hr_panicked\<close> is not a field of the code: it marks a handler that never returned, because a
  slice was out of bounds or an \<open>expect\<close> met nothing. The dispatcher passes the panic on, and the
  other fields of such a response are not looked at.
\<close>

definition response_ok :: "bytes \<Rightarrow> handler_response" where
  "response_ok body =
     \<lparr>hr_body = body, hr_status = STATUS_SUCCESS, hr_override_tree_id = None,
      hr_override_session_id = None, hr_skip_signing = False, hr_take_preauth_snapshot = None,
      hr_panicked = False\<rparr>"

definition response_err :: "u32 \<Rightarrow> handler_response" where
  "response_err status =
     \<lparr>hr_body = put_error_response (error_response_status status), hr_status = status,
      hr_override_tree_id = None, hr_override_session_id = None, hr_skip_signing = False,
      hr_take_preauth_snapshot = None, hr_panicked = False\<rparr>"

definition response_panic :: handler_response where
  "response_panic = (response_err STATUS_UNEXPECTED_IO_ERROR)\<lparr>hr_panicked := True\<rparr>"

lemma response_simps [simp]:
  "hr_body (response_ok b) = b" "hr_status (response_ok b) = STATUS_SUCCESS"
  "hr_override_tree_id (response_ok b) = None" "hr_override_session_id (response_ok b) = None"
  "hr_skip_signing (response_ok b) = False" "hr_take_preauth_snapshot (response_ok b) = None"
  "hr_status (response_err s) = s" "hr_override_tree_id (response_err s) = None"
  "hr_override_session_id (response_err s) = None" "hr_skip_signing (response_err s) = False"
  "hr_take_preauth_snapshot (response_err s) = None"
  "\<not> hr_panicked (response_ok b)" "\<not> hr_panicked (response_err s)"
  by (simp_all add: response_ok_def response_err_def)

lemma response_panic_simps [simp]:
  "hr_panicked response_panic" "hr_status response_panic = STATUS_UNEXPECTED_IO_ERROR"
  "hr_override_tree_id response_panic = None" "hr_override_session_id response_panic = None"
  "hr_skip_signing response_panic = False" "hr_take_preauth_snapshot response_panic = None"
  by (simp_all add: response_panic_def)

section \<open>The state of a handler\<close>

text \<open>
  The connection, the world of the backends, what the trace sink has received, the key of the
  current trace scope, and how often randomness and the clock were used.
\<close>

record 'w st =
  st_conn :: "'w connection"
  st_world :: 'w
  st_log :: trace_log
  st_key :: "trace_key option"
  st_draws :: nat
  st_ticks :: nat

definition put_conn :: "'w connection \<Rightarrow> 'w st \<Rightarrow> 'w st" where
  "put_conn c st = st\<lparr>st_conn := c\<rparr>"

definition put_world :: "'w \<Rightarrow> 'w st \<Rightarrow> 'w st" where
  "put_world w st = st\<lparr>st_world := w\<rparr>"

text \<open>\<open>trace::record(&server.trace_sink, trace::current_trace_key(), event)\<close>.\<close>

definition record_event :: "'w server \<Rightarrow> trace_event \<Rightarrow> 'w st \<Rightarrow> 'w st" where
  "record_event srv event st =
     st\<lparr>st_log := trace_record (srv_trace_armed srv) (st_key st) event (st_log st)\<rparr>"

definition fill_random :: "'w server \<Rightarrow> nat \<Rightarrow> 'w st \<Rightarrow> bytes \<times> 'w st" where
  "fill_random srv n st = (srv_random srv (st_draws st) n, st\<lparr>st_draws := st_draws st + 1\<rparr>)"

definition now_filetime :: "'w server \<Rightarrow> 'w st \<Rightarrow> u64 \<times> 'w st" where
  "now_filetime srv st = (srv_clock srv (st_ticks st), st\<lparr>st_ticks := st_ticks st + 1\<rparr>)"

text \<open>A call of the backend.\<close>

definition run_io :: "('w, 'a) io \<Rightarrow> 'w st \<Rightarrow> (smb_error + 'a) \<times> 'w st" where
  "run_io call st = (let (r, w) = call (st_world st) in (r, st\<lparr>st_world := w\<rparr>))"

lemma st_simps [simp]:
  "st_conn (put_conn c st) = c" "st_world (put_conn c st) = st_world st"
  "st_log (put_conn c st) = st_log st" "st_key (put_conn c st) = st_key st"
  "st_conn (put_world w st) = st_conn st" "st_world (put_world w st) = w"
  "st_log (put_world w st) = st_log st" "st_key (put_world w st) = st_key st"
  "st_conn (record_event srv ev st) = st_conn st" "st_world (record_event srv ev st) = st_world st"
  "st_key (record_event srv ev st) = st_key st"
  "st_log (record_event srv ev st) = trace_record (srv_trace_armed srv) (st_key st) ev (st_log st)"
  by (simp_all add: put_conn_def put_world_def record_event_def)

lemma run_io_st [simp]:
  "st_conn (snd (run_io call st)) = st_conn st" "st_log (snd (run_io call st)) = st_log st"
  "st_key (snd (run_io call st)) = st_key st"
  "st_world (snd (run_io call st)) = snd (call (st_world st))"
  "fst (run_io call st) = fst (call (st_world st))"
  by (simp_all add: run_io_def case_prod_unfold Let_def)

lemma run_ioD:
  "run_io call st = (r, st') \<Longrightarrow> st_conn st' = st_conn st \<and> st_log st' = st_log st \<and>
    st_key st' = st_key st \<and> call (st_world st) = (r, st_world st')"
  by (auto simp: run_io_def split: prod.splits)

lemma source_simps [simp]:
  "st_conn (snd (fill_random srv n st)) = st_conn st"
  "st_world (snd (fill_random srv n st)) = st_world st"
  "st_log (snd (fill_random srv n st)) = st_log st"
  "st_conn (snd (now_filetime srv st)) = st_conn st"
  "st_world (snd (now_filetime srv st)) = st_world st"
  "st_log (snd (now_filetime srv st)) = st_log st"
  by (simp_all add: fill_random_def now_filetime_def)

section \<open>Early returns\<close>

type_synonym 'w handled = "handler_response \<times> 'w st"

definition or_fail :: "u32 + 'a \<Rightarrow> 'w st \<Rightarrow> ('a \<Rightarrow> 'w handled) \<Rightarrow> 'w handled" where
  "or_fail r st f = (case r of Inl status \<Rightarrow> (response_err status, st) | Inr x \<Rightarrow> f x)"

text \<open>An operation that panics unless its value is there.\<close>

definition or_panic :: "'a option \<Rightarrow> 'w st \<Rightarrow> ('a \<Rightarrow> 'w handled) \<Rightarrow> 'w handled" where
  "or_panic p st f = (case p of None \<Rightarrow> (response_panic, st) | Some x \<Rightarrow> f x)"

definition or_status :: "u32 \<Rightarrow> 'a option \<Rightarrow> u32 + 'a" where
  "or_status status o' = (case o' of None \<Rightarrow> Inl status | Some x \<Rightarrow> Inr x)"

definition io_status :: "smb_error + 'a \<Rightarrow> u32 + 'a" where
  "io_status r = (case r of Inl e \<Rightarrow> Inl (to_nt_status e) | Inr x \<Rightarrow> Inr x)"

lemma or_fail_simps [simp]:
  "or_fail (Inl s) st f = (response_err s, st)" "or_fail (Inr x) st f = f x"
  by (simp_all add: or_fail_def)

lemma or_panic_simps [simp]: "or_panic None st f = (response_panic, st)" "or_panic (Some x) st f = f x"
  by (simp_all add: or_panic_def)

lemma or_panic_total: "p \<noteq> None \<Longrightarrow> or_panic p st f = f (the p)"
  by auto

lemma or_status_simps [simp]: "or_status s None = Inl s" "or_status s (Some x) = Inr x"
  by (simp_all add: or_status_def)

lemma or_status_eq [simp]: "or_status s p = Inr x \<longleftrightarrow> p = Some x"
  by (cases p) simp_all

lemma io_status_simps [simp]: "io_status (Inl e) = Inl (to_nt_status e)" "io_status (Inr x) = Inr x"
  by (simp_all add: io_status_def)

lemma io_status_eq [simp]: "io_status r = Inr x \<longleftrightarrow> r = Inr x"
  by (cases r) simp_all

lemma or_failI:
  "(\<And>s. r = Inl s \<Longrightarrow> P (response_err s, st)) \<Longrightarrow> (\<And>x. r = Inr x \<Longrightarrow> P (f x)) \<Longrightarrow>
    P (or_fail r st f)"
  by (cases r) simp_all

lemma or_fail_cases:
  assumes "or_fail r st f = (resp, st')"
  obtains (error) s where "r = Inl s" "resp = response_err s" "st' = st"
  | (success) x where "r = Inr x" "f x = (resp, st')"
  using assms by (cases r) auto

text \<open>A successful outcome went through all the checks, none of which fails with success.\<close>

lemma or_fail_success:
  "or_fail r st f = (resp, st') \<Longrightarrow> hr_status resp = STATUS_SUCCESS \<Longrightarrow>
    r \<noteq> Inl STATUS_SUCCESS \<Longrightarrow> \<exists>x. r = Inr x \<and> f x = (resp, st')"
  by (cases r) auto

text \<open>A failed outcome of a check leaves the state.\<close>

lemma or_fail_failure:
  "or_fail r st f = (resp, st') \<Longrightarrow> hr_status resp \<noteq> STATUS_SUCCESS \<Longrightarrow>
    (\<And>x. r = Inr x \<Longrightarrow> f x = (resp, st') \<Longrightarrow> st' = st) \<Longrightarrow> st' = st"
  by (cases r) auto

lemma status_not_success [simp]:
  "STATUS_INVALID_PARAMETER \<noteq> STATUS_SUCCESS"
  "STATUS_ACCESS_DENIED \<noteq> STATUS_SUCCESS"
  "STATUS_FILE_CLOSED \<noteq> STATUS_SUCCESS"
  "STATUS_BAD_NETWORK_NAME \<noteq> STATUS_SUCCESS"
  "STATUS_NETWORK_NAME_DELETED \<noteq> STATUS_SUCCESS"
  "STATUS_USER_SESSION_DELETED \<noteq> STATUS_SUCCESS"
  "STATUS_NOT_SUPPORTED \<noteq> STATUS_SUCCESS"
  "STATUS_LOGON_FAILURE \<noteq> STATUS_SUCCESS"
  "STATUS_END_OF_FILE \<noteq> STATUS_SUCCESS"
  "STATUS_NO_MORE_FILES \<noteq> STATUS_SUCCESS"
  "STATUS_INVALID_INFO_CLASS \<noteq> STATUS_SUCCESS"
  "STATUS_INFO_LENGTH_MISMATCH \<noteq> STATUS_SUCCESS"
  "STATUS_OBJECT_NAME_NOT_FOUND \<noteq> STATUS_SUCCESS"
  "STATUS_OBJECT_NAME_INVALID \<noteq> STATUS_SUCCESS"
  "STATUS_OBJECT_NAME_COLLISION \<noteq> STATUS_SUCCESS"
  "STATUS_FILE_IS_A_DIRECTORY \<noteq> STATUS_SUCCESS"
  "STATUS_NOT_A_DIRECTORY \<noteq> STATUS_SUCCESS"
  "STATUS_FS_DRIVER_REQUIRED \<noteq> STATUS_SUCCESS"
  "STATUS_MORE_PROCESSING_REQUIRED \<noteq> STATUS_SUCCESS"
  "STATUS_NO_EAS_ON_FILE \<noteq> STATUS_SUCCESS"
  "STATUS_UNEXPECTED_IO_ERROR \<noteq> STATUS_SUCCESS"
  by (simp_all add: status_defs)

lemma or_status_fails: "s \<noteq> STATUS_SUCCESS \<Longrightarrow> or_status s p \<noteq> Inl STATUS_SUCCESS"
  by (cases p) auto

lemma io_status_fails [simp]: "io_status r \<noteq> Inl STATUS_SUCCESS"
  by (cases r) auto

lemma or_status_fails_simps [simp]:
  "or_status STATUS_INVALID_PARAMETER p \<noteq> Inl STATUS_SUCCESS"
  "or_status STATUS_ACCESS_DENIED p \<noteq> Inl STATUS_SUCCESS"
  "or_status STATUS_FILE_CLOSED p \<noteq> Inl STATUS_SUCCESS"
  "or_status STATUS_BAD_NETWORK_NAME p \<noteq> Inl STATUS_SUCCESS"
  "or_status STATUS_NETWORK_NAME_DELETED p \<noteq> Inl STATUS_SUCCESS"
  "or_status STATUS_USER_SESSION_DELETED p \<noteq> Inl STATUS_SUCCESS"
  "or_status STATUS_NOT_SUPPORTED p \<noteq> Inl STATUS_SUCCESS"
  "or_status STATUS_LOGON_FAILURE p \<noteq> Inl STATUS_SUCCESS"
  by (rule or_status_fails, simp)+

text \<open>A path on the wire: UTF-16LE, decoded strictly and validated; any fault is a bad name.\<close>

definition wire_path :: "bytes \<Rightarrow> u32 + smb_path" where
  "wire_path b =
     attempt (or_status STATUS_OBJECT_NAME_INVALID (utf16le_to_units b)) (\<lambda>units.
       case path_from_utf16 units of
         Inl _ \<Rightarrow> Inl STATUS_OBJECT_NAME_INVALID
       | Inr p \<Rightarrow> Inr p)"

lemma wire_path_valid: "wire_path b = Inr p \<Longrightarrow> valid_path p"
  by (cases "utf16le_to_units b")
    (auto simp: wire_path_def attempt_def intro: decoded_path_valid split: sum.splits)

lemma wire_path_fails [simp]: "wire_path b \<noteq> Inl STATUS_SUCCESS"
  by (cases "utf16le_to_units b") (auto simp: wire_path_def attempt_def split: sum.splits)

section \<open>Lookups\<close>

definition lookup_session :: "'w connection \<Rightarrow> u64 \<Rightarrow> u32 + 'w session" where
  "lookup_session c sid =
     (if sid = 0 then Inl STATUS_USER_SESSION_DELETED
      else or_status STATUS_USER_SESSION_DELETED (tbl_get (conn_sessions c) sid))"

definition lookup_session_tree :: "'w connection \<Rightarrow> smb2_header \<Rightarrow> u32 + 'w tree_connect" where
  "lookup_session_tree c hdr =
     attempt (or_status STATUS_INVALID_PARAMETER (hdr_tree_id hdr)) (\<lambda>tid.
       attempt (lookup_session c (session_id hdr)) (\<lambda>sess.
         or_status STATUS_NETWORK_NAME_DELETED (tbl_get (sess_trees sess) tid)))"

definition lookup_open :: "'w tree_connect \<Rightarrow> file_id \<Rightarrow> 'w open_file option" where
  "lookup_open tree fid = tbl_get (tree_opens tree) fid"

text \<open>
  Writing through a reference that a lookup returned: the session, the tree or the open that the
  request header (and a file identifier) designates is replaced in its table.
\<close>

definition update_session ::
    "u64 \<Rightarrow> ('w session \<Rightarrow> 'w session) \<Rightarrow> 'w connection \<Rightarrow> 'w connection" where
  "update_session sid f c =
     (case tbl_get (conn_sessions c) sid of
        None \<Rightarrow> c
      | Some s \<Rightarrow> c\<lparr>conn_sessions := tbl_insert sid (f s) (conn_sessions c)\<rparr>)"

definition update_tree ::
    "smb2_header \<Rightarrow> ('w tree_connect \<Rightarrow> 'w tree_connect) \<Rightarrow> 'w connection \<Rightarrow> 'w connection" where
  "update_tree hdr f c =
     (case hdr_tree_id hdr of
        None \<Rightarrow> c
      | Some tid \<Rightarrow> update_session (session_id hdr) (\<lambda>s.
          case tbl_get (sess_trees s) tid of
            None \<Rightarrow> s
          | Some t \<Rightarrow> s\<lparr>sess_trees := tbl_insert tid (f t) (sess_trees s)\<rparr>) c)"

definition update_open ::
    "smb2_header \<Rightarrow> file_id \<Rightarrow> ('w open_file \<Rightarrow> 'w open_file) \<Rightarrow> 'w connection \<Rightarrow> 'w connection"
    where
  "update_open hdr fid f =
     update_tree hdr (\<lambda>t. case tbl_get (tree_opens t) fid of
         None \<Rightarrow> t
       | Some op \<Rightarrow> t\<lparr>tree_opens := tbl_insert fid (f op) (tree_opens t)\<rparr>)"

lemma lookup_session_Inr:
  "lookup_session c sid = Inr s \<longleftrightarrow> sid \<noteq> 0 \<and> tbl_get (conn_sessions c) sid = Some s"
  by (auto simp: lookup_session_def)

lemma lookup_session_tree_Inr:
  "lookup_session_tree c hdr = Inr t \<longleftrightarrow>
    (\<exists>tid s. hdr_tree_id hdr = Some tid \<and> session_id hdr \<noteq> 0 \<and>
      tbl_get (conn_sessions c) (session_id hdr) = Some s \<and> tbl_get (sess_trees s) tid = Some t)"
  by (auto simp: lookup_session_tree_def attempt_eq_Inr lookup_session_Inr)

lemma lookup_fails [simp]:
  "lookup_session c sid \<noteq> Inl STATUS_SUCCESS" "lookup_session_tree c hdr \<noteq> Inl STATUS_SUCCESS"
proof -
  show s: "lookup_session c sid \<noteq> Inl STATUS_SUCCESS" for sid
    by (simp add: lookup_session_def)
  show "lookup_session_tree c hdr \<noteq> Inl STATUS_SUCCESS"
    using s by (auto simp: lookup_session_tree_def attempt_def split: sum.splits)
qed

lemma lookup_tree_ok:
  "conn_ok c \<Longrightarrow> lookup_session_tree c hdr = Inr t \<Longrightarrow> \<exists>tid. hdr_tree_id hdr = Some tid \<and> tree_ok tid t"
  by (auto simp: lookup_session_tree_Inr dest: conn_ok_sessions session_ok_trees)

lemma lookup_open_ok:
  "conn_ok c \<Longrightarrow> lookup_session_tree c hdr = Inr t \<Longrightarrow> lookup_open t fid = Some op \<Longrightarrow>
    open_ok (sb_backend (tree_share t)) (tree_granted_access t) fid op"
  by (auto simp: lookup_open_def dest!: lookup_tree_ok dest: tree_ok_opens)

lemma update_session_ok:
  "conn_ok c \<Longrightarrow> (\<And>s. session_ok sid s \<Longrightarrow> session_ok sid (f s)) \<Longrightarrow> conn_ok (update_session sid f c)"
  by (auto simp: update_session_def intro: conn_ok_put_session dest: conn_ok_sessions
      split: option.splits)

lemma update_tree_ok:
  assumes "conn_ok c" and "\<And>tid t. tree_ok tid t \<Longrightarrow> tree_ok tid (f t)"
  shows "conn_ok (update_tree hdr f c)"
  using assms(1)
  by (auto simp: update_tree_def intro!: update_session_ok session_ok_put_tree
      intro: assms(2) [OF session_ok_trees] split: option.splits)

lemma update_open_ok:
  assumes "conn_ok c"
    and "\<And>b granted op. open_ok b granted fid op \<Longrightarrow> open_ok b granted fid (f op)"
  shows "conn_ok (update_open hdr fid f c)"
  unfolding update_open_def
  using assms(1)
  by (auto intro!: update_tree_ok tree_ok_put_open intro: assms(2) [OF tree_ok_opens]
      split: option.splits)

text \<open>Nothing but the session that is named changes.\<close>

lemma update_session_get [simp]:
  "tbl_get (conn_sessions (update_session sid f c)) k
    = (if k = sid then map_option f (tbl_get (conn_sessions c) k)
       else tbl_get (conn_sessions c) k)"
  by (simp add: update_session_def split: option.splits)

lemma update_session_rest [simp]:
  "conn_pending_auths (update_session sid f c) = conn_pending_auths c"
  "conn_session_preauth (update_session sid f c) = conn_session_preauth c"
  "conn_dialect (update_session sid f c) = conn_dialect c"
  "conn_signing_algo (update_session sid f c) = conn_signing_algo c"
  "conn_preauth (update_session sid f c) = conn_preauth c"
  "conn_id (update_session sid f c) = conn_id c"
  "conn_max_read_size (update_session sid f c) = conn_max_read_size c"
  "conn_max_write_size (update_session sid f c) = conn_max_write_size c"
  "conn_next_session_id (update_session sid f c) = conn_next_session_id c"
  by (simp_all add: update_session_def split: option.splits)

lemma update_tree_get:
  "tbl_get (conn_sessions (update_tree hdr f c)) k =
    (if k \<noteq> session_id hdr then tbl_get (conn_sessions c) k
     else case hdr_tree_id hdr of None \<Rightarrow> tbl_get (conn_sessions c) k
       | Some tid \<Rightarrow> map_option (\<lambda>s. case tbl_get (sess_trees s) tid of None \<Rightarrow> s
           | Some t \<Rightarrow> s\<lparr>sess_trees := tbl_insert tid (f t) (sess_trees s)\<rparr>)
           (tbl_get (conn_sessions c) k))"
  by (simp add: update_tree_def split: option.splits)

text \<open>An update inside a tree leaves it as entitled as it was.\<close>

lemma update_session_allowed:
  "conn_allowed X srv c \<Longrightarrow> (\<And>s. session_allowed X srv s \<Longrightarrow> session_allowed X srv (f s)) \<Longrightarrow>
    conn_allowed X srv (update_session sid f c)"
  by (auto simp: conn_allowed_def)

lemma update_tree_allowed:
  assumes "conn_allowed X srv c"
    and "\<And>t. tree_share (f t) = tree_share t \<and> tree_granted_access (f t) = tree_granted_access t"
  shows "conn_allowed X srv (update_tree hdr f c)"
  using assms(1) unfolding update_tree_def
  by (auto intro!: update_session_allowed session_allowed_put
      simp: tree_allowed_cong [OF conjunct1 [OF assms(2)] conjunct2 [OF assms(2)]]
      session_allowed_def split: option.splits)

lemma update_open_allowed:
  "conn_allowed X srv c \<Longrightarrow> conn_allowed X srv (update_open hdr fid f c)"
  unfolding update_open_def by (rule update_tree_allowed) (simp_all split: option.splits)

lemma lookup_update_tree:
  "lookup_session_tree c hdr = Inr t \<Longrightarrow> lookup_session_tree (update_tree hdr f c) hdr = Inr (f t)"
  by (auto simp: lookup_session_tree_Inr update_tree_get)

lemma lookup_update_open:
  assumes "lookup_session_tree c hdr = Inr t" and "lookup_open t fid = Some op"
  shows "\<exists>t'. lookup_session_tree (update_open hdr fid f c) hdr = Inr t' \<and>
    (\<forall>k. lookup_open t' k = (if k = fid then Some (f op) else lookup_open t k))"
  using assms unfolding update_open_def
  by (subst lookup_update_tree [OF assms(1)]) (simp add: lookup_open_def)

section \<open>The contract of a handler\<close>

text \<open>
  What every handler may do to the state: well-formed connections stay well formed, sessions and
  trees stay entitled under a consistent configuration, no session but the one that the request
  names is touched, the connection's identity and the trace scope stay, and the trace is only
  extended, under the current key, and only when a sink is armed.
\<close>

definition extends_log :: "bool \<Rightarrow> trace_key option \<Rightarrow> trace_log \<Rightarrow> trace_log \<Rightarrow> bool" where
  "extends_log sink key log log' \<longleftrightarrow>
     (\<exists>events. log' = log @ map (Pair key) events \<and> (\<not> sink \<longrightarrow> events = []))"

definition step_ok :: "'w server \<Rightarrow> smb2_header \<Rightarrow> 'w st \<Rightarrow> 'w st \<Rightarrow> bool" where
  "step_ok srv hdr st st' \<longleftrightarrow>
     (conn_ok (st_conn st) \<longrightarrow> conn_ok (st_conn st')) \<and>
     (config_ok srv \<longrightarrow>
        (\<forall>X. conn_allowed X srv (st_conn st) \<longrightarrow> conn_allowed X srv (st_conn st'))) \<and>
     (\<forall>k. k \<noteq> session_id hdr \<longrightarrow>
        tbl_get (conn_sessions (st_conn st')) k = tbl_get (conn_sessions (st_conn st)) k) \<and>
     conn_id (st_conn st') = conn_id (st_conn st) \<and> st_key st' = st_key st \<and>
     extends_log (srv_trace_armed srv) (st_key st) (st_log st) (st_log st')"

lemma extends_log_refl [simp, intro]: "extends_log sink key log log"
  by (auto simp: extends_log_def)

lemma extends_log_trans [trans]:
  "extends_log sink key a b \<Longrightarrow> extends_log sink key b c \<Longrightarrow> extends_log sink key a c"
  unfolding extends_log_def by (metis append.assoc append_Nil2 map_append)

lemma extends_log_record:
  "extends_log sink key log log' \<Longrightarrow> extends_log sink key log (trace_record sink key event log')"
  unfolding extends_log_def trace_record_def
  by (metis (no_types, lifting) append.assoc list.simps(8,9) map_append)

lemma step_refl [simp, intro]: "step_ok srv hdr st st"
  by (simp add: step_ok_def)

lemma step_trans [trans]: "step_ok srv hdr a b \<Longrightarrow> step_ok srv hdr b c \<Longrightarrow> step_ok srv hdr a c"
  by (auto simp: step_ok_def intro: extends_log_trans)

lemma step_put_world [intro]: "step_ok srv hdr st st' \<Longrightarrow> step_ok srv hdr st (put_world w st')"
  by (simp add: step_ok_def)

lemma step_record [intro]: "step_ok srv hdr st st' \<Longrightarrow> step_ok srv hdr st (record_event srv ev st')"
  by (auto simp: step_ok_def intro: extends_log_record)

lemma step_run_io [intro]: "step_ok srv hdr st st' \<Longrightarrow> step_ok srv hdr st (snd (run_io call st'))"
  by (simp add: step_ok_def)

lemma step_random [intro]:
  "step_ok srv hdr st st' \<Longrightarrow> step_ok srv hdr st (snd (fill_random srv n st'))"
  by (simp add: step_ok_def fill_random_def)

lemma step_clock [intro]:
  "step_ok srv hdr st st' \<Longrightarrow> step_ok srv hdr st (snd (now_filetime srv st'))"
  by (simp add: step_ok_def now_filetime_def)

lemma step_put_conn:
  "step_ok srv hdr st st' \<Longrightarrow> (conn_ok (st_conn st') \<Longrightarrow> conn_ok c) \<Longrightarrow>
    (\<And>k. k \<noteq> session_id hdr \<Longrightarrow>
      tbl_get (conn_sessions c) k = tbl_get (conn_sessions (st_conn st')) k) \<Longrightarrow>
    conn_id c = conn_id (st_conn st') \<Longrightarrow>
    (\<And>X. config_ok srv \<Longrightarrow> conn_allowed X srv (st_conn st') \<Longrightarrow> conn_allowed X srv c) \<Longrightarrow>
    step_ok srv hdr st (put_conn c st')"
  by (auto simp: step_ok_def)

lemma update_tree_rest [simp]: "conn_id (update_tree hdr f c) = conn_id c"
  by (simp add: update_tree_def split: option.splits)

lemma step_update_tree:
  "step_ok srv hdr st st' \<Longrightarrow> (\<And>tid t. tree_ok tid t \<Longrightarrow> tree_ok tid (f t)) \<Longrightarrow> c = st_conn st' \<Longrightarrow>
    (\<And>t. tree_share (f t) = tree_share t \<and> tree_granted_access (f t) = tree_granted_access t) \<Longrightarrow>
    step_ok srv hdr st (put_conn (update_tree hdr f c) st')"
  by (rule step_put_conn) (auto simp: update_tree_get intro: update_tree_ok update_tree_allowed)

lemma step_update_open:
  "step_ok srv hdr st st' \<Longrightarrow>
    (\<And>b granted op. open_ok b granted fid op \<Longrightarrow> open_ok b granted fid (f op)) \<Longrightarrow> c = st_conn st' \<Longrightarrow>
    step_ok srv hdr st (put_conn (update_open hdr fid f c) st')"
  by (rule step_put_conn) (auto simp: update_tree_get update_open_def
      intro: update_open_ok [unfolded update_open_def] update_open_allowed [unfolded update_open_def]
      split: option.splits)

lemma step_or_fail:
  "step_ok srv hdr st st' \<Longrightarrow> (\<And>x. r = Inr x \<Longrightarrow> step_ok srv hdr st (snd (f x))) \<Longrightarrow>
    step_ok srv hdr st (snd (or_fail r st' f))"
  by (cases r) simp_all

lemma step_or_panic:
  "step_ok srv hdr st st' \<Longrightarrow> (\<And>x. p = Some x \<Longrightarrow> step_ok srv hdr st (snd (f x))) \<Longrightarrow>
    step_ok srv hdr st (snd (or_panic p st' f))"
  by (cases p) simp_all

lemmas step_intros = step_or_fail step_or_panic step_refl step_put_world step_record step_run_io step_random
  step_clock

text \<open>And it returns: no slice that it takes is out of bounds, no value it expects is absent.\<close>

definition returns :: "'w handled \<Rightarrow> bool" where
  "returns r \<longleftrightarrow> \<not> hr_panicked (fst r)"

lemma returns_simps [simp]:
  "returns (response_ok b, st)" "returns (response_err s, st)" "\<not> returns (response_panic, st)"
  by (simp_all add: returns_def)

lemma returns_update [simp]:
  "returns (r\<lparr>hr_override_tree_id := tid\<rparr>, st) = returns (r, st)"
  "returns (r\<lparr>hr_skip_signing := b\<rparr>, st) = returns (r, st)"
  by (simp_all add: returns_def)

lemma returns_or_fail:
  "(\<And>x. r = Inr x \<Longrightarrow> returns (f x)) \<Longrightarrow> returns (or_fail r st f)"
  by (cases r) simp_all

lemma returns_or_panic:
  "p \<noteq> None \<Longrightarrow> (\<And>x. p = Some x \<Longrightarrow> returns (f x)) \<Longrightarrow> returns (or_panic p st f)"
  by (cases p) simp_all

lemmas returns_intros = returns_or_fail returns_or_panic

locale handler =
  fixes h :: "'w server \<Rightarrow> smb2_header \<Rightarrow> bytes \<Rightarrow> 'w st \<Rightarrow> 'w handled"
  assumes h_step: "step_ok srv hdr st (snd (h srv hdr body st))"
    and h_returns: "returns (h srv hdr body st)"
begin

lemma keeps_conn_ok:
  "conn_ok (st_conn st) \<Longrightarrow> h srv hdr body st = (resp, st') \<Longrightarrow> conn_ok (st_conn st')"
  using h_step [of srv hdr st body] by (simp add: step_ok_def)

lemma keeps_allowed:
  "config_ok srv \<Longrightarrow> conn_allowed X srv (st_conn st) \<Longrightarrow> h srv hdr body st = (resp, st') \<Longrightarrow>
    conn_allowed X srv (st_conn st')"
  using h_step [of srv hdr st body] by (simp add: step_ok_def)

lemma other_sessions:
  "h srv hdr body st = (resp, st') \<Longrightarrow> k \<noteq> session_id hdr \<Longrightarrow>
    tbl_get (conn_sessions (st_conn st')) k = tbl_get (conn_sessions (st_conn st)) k"
  using h_step [of srv hdr st body] by (simp add: step_ok_def)

lemma log_extended:
  "h srv hdr body st = (resp, st') \<Longrightarrow>
    extends_log (srv_trace_armed srv) (st_key st) (st_log st) (st_log st')"
  using h_step [of srv hdr st body] by (simp add: step_ok_def)

lemma untraced: "\<not> srv_trace_armed srv \<Longrightarrow> h srv hdr body st = (resp, st') \<Longrightarrow> st_log st' = st_log st"
  using log_extended by (fastforce simp: extends_log_def)

lemma same_identity:
  "h srv hdr body st = (resp, st') \<Longrightarrow>
    conn_id (st_conn st') = conn_id (st_conn st) \<and> st_key st' = st_key st"
  using h_step [of srv hdr st body] by (simp add: step_ok_def)

text \<open>A sequence of requests keeps the connection well formed as well.\<close>

fun run_all :: "'w server \<Rightarrow> (smb2_header \<times> bytes) list \<Rightarrow> 'w st \<Rightarrow> 'w st" where
  "run_all srv [] st = st"
| "run_all srv ((hdr, body) # reqs) st = run_all srv reqs (snd (h srv hdr body st))"

lemma run_all_ok: "conn_ok (st_conn st) \<Longrightarrow> conn_ok (st_conn (run_all srv reqs st))"
  by (induction srv reqs st rule: run_all.induct) (auto intro: keeps_conn_ok prod.collapse [symmetric])

lemma run_all_others:
  "\<forall>(hdr, _) \<in> set reqs. session_id hdr \<noteq> k \<Longrightarrow>
    tbl_get (conn_sessions (st_conn (run_all srv reqs st))) k
      = tbl_get (conn_sessions (st_conn st)) k"
  by (induction srv reqs st rule: run_all.induct)
    (auto simp: other_sessions [OF prod.collapse [symmetric]])

end

end
