(* ===== verification/Handlers_Session.thy ===== *)
theory Handlers_Session
  imports Handler_Core
begin

text \<open>
  The handlers that need no file: \<open>tree_connect.rs\<close>, \<open>tree_disconnect.rs\<close>, \<open>logoff.rs\<close>,
  \<open>echo.rs\<close>, \<open>lock.rs\<close>, \<open>oplock_break.rs\<close>, \<open>change_notify.rs\<close> and \<open>ioctl.rs\<close> of
  \<open>src/src/handlers\<close>. The lemmas show that each keeps the connection well formed and that a tree
  is connected with exactly the access that the share's access list gives the session.
\<close>

section \<open>TREE_CONNECT\<close>

definition SHARE_TYPE_PIPE :: u8 where "SHARE_TYPE_PIPE = 0x02"
definition FILE_GENERIC_READ :: u32 where "FILE_GENERIC_READ = 0x00120089"
definition FILE_GENERIC_EXECUTE :: u32 where "FILE_GENERIC_EXECUTE = 0x001200A0"
definition FILE_ALL_ACCESS :: u32 where "FILE_ALL_ACCESS = 0x001F01FF"

text \<open>The last non-empty part of \<open>\\server\share\<close>, with either separator.\<close>

definition extract_share_name :: "rstring \<Rightarrow> rstring option" where
  "extract_share_name unc =
     (let trimmed = rev (dropWhile is_sep (rev unc));
          parts = filter (\<lambda>s. s \<noteq> []) (split_seps trimmed)
      in if parts = [] then None else Some (last parts))"

definition maximal_access_of :: "access \<Rightarrow> u32" where
  "maximal_access_of granted =
     (case granted of
        ReadOnlyAccess \<Rightarrow> FILE_GENERIC_READ OR FILE_GENERIC_EXECUTE
      | ReadWriteAccess \<Rightarrow> FILE_ALL_ACCESS)"

definition share_for :: "'w server \<Rightarrow> rstring \<Rightarrow> 'w share_bindings option" where
  "share_for srv share_name =
     (if eq_ignore_ascii_case share_name (lit ''IPC$'') then Some ipc_share
      else find_share srv share_name)"

definition tree_connect_response_for :: "'w share_bindings \<Rightarrow> access \<Rightarrow> tree_connect_response" where
  "tree_connect_response_for share granted =
     \<lparr>tcr_structure_size = 16,
      tcr_share_type = (if sb_is_ipc share then SHARE_TYPE_PIPE else SHARE_TYPE_DISK),
      tcr_reserved = 0, tcr_share_flags = 0, tcr_capabilities = 0,
      tcr_maximal_access = maximal_access_of granted\<rparr>"

definition handle_tree_connect ::
    "'w server \<Rightarrow> smb2_header \<Rightarrow> bytes \<Rightarrow> 'w st \<Rightarrow> 'w handled" where
  "handle_tree_connect srv hdr body st =
     or_fail (or_status STATUS_INVALID_PARAMETER (tree_connect_request_parse body)) st (\<lambda>req.
       let path = (case tree_connect_path_str req of Some p \<Rightarrow> p | None \<Rightarrow> []) in
       or_fail (or_status STATUS_BAD_NETWORK_NAME (extract_share_name path)) st (\<lambda>share_name.
       or_fail (lookup_session (st_conn st) (session_id hdr)) st (\<lambda>sess.
       or_fail (or_status STATUS_BAD_NETWORK_NAME (share_for srv share_name)) st (\<lambda>share.
       or_fail (or_status STATUS_ACCESS_DENIED
           (authorize (sb_mode share) (sb_users share) (sess_identity sess))) st (\<lambda>acl_access.
         let granted = cap_access share acl_access;
             (tid, sess1) = alloc_tree_id sess;
             tc = tree_connect_new tid share granted;
             sess2 = sess1\<lparr>sess_trees := tbl_insert tid tc (sess_trees sess1)\<rparr>;
             c = update_session (session_id hdr) (\<lambda>_. sess2) (st_conn st)
         in ((response_ok (put_tree_connect_response (tree_connect_response_for share granted)))
               \<lparr>hr_override_tree_id := Some tid\<rparr>, put_conn c st))))))"

section \<open>TREE_DISCONNECT and LOGOFF\<close>

definition handle_tree_disconnect ::
    "'w server \<Rightarrow> smb2_header \<Rightarrow> bytes \<Rightarrow> 'w st \<Rightarrow> 'w handled" where
  "handle_tree_disconnect srv hdr body st =
     or_fail (or_status STATUS_INVALID_PARAMETER (hdr_tree_id hdr)) st (\<lambda>tid.
       case lookup_session (st_conn st) (session_id hdr) of
         Inl _ \<Rightarrow> (response_err STATUS_USER_SESSION_DELETED, st)
       | Inr _ \<Rightarrow>
           let (removed, c, w) = close_tree (session_id hdr) tid (st_conn st) (st_world st);
               st1 = put_world w (put_conn c st)
           in if \<not> removed then (response_err STATUS_NETWORK_NAME_DELETED, st1)
              else (response_ok (put_tree_disconnect_response tree_disconnect_response_default), st1))"

definition handle_logoff ::
    "'w server \<Rightarrow> smb2_header \<Rightarrow> bytes \<Rightarrow> 'w st \<Rightarrow> 'w handled" where
  "handle_logoff srv hdr body st =
     (if session_id hdr = 0 then (response_err STATUS_USER_SESSION_DELETED, st)
      else
        let (_, c, w) = close_session (session_id hdr) (st_conn st) (st_world st)
        in (response_ok (put_logoff_response logoff_response_default), put_world w (put_conn c st)))"

section \<open>ECHO, LOCK, OPLOCK_BREAK, CHANGE_NOTIFY\<close>

definition handle_echo :: "'w server \<Rightarrow> smb2_header \<Rightarrow> bytes \<Rightarrow> 'w st \<Rightarrow> 'w handled" where
  "handle_echo srv hdr body st = (response_ok (put_echo_response echo_response_default), st)"

definition handle_lock :: "'w server \<Rightarrow> smb2_header \<Rightarrow> bytes \<Rightarrow> 'w st \<Rightarrow> 'w handled" where
  "handle_lock srv hdr body st = (response_ok (put_lock_response lock_response_default), st)"

definition handle_oplock_break ::
    "'w server \<Rightarrow> smb2_header \<Rightarrow> bytes \<Rightarrow> 'w st \<Rightarrow> 'w handled" where
  "handle_oplock_break srv hdr body st =
     (response_ok (le16 24 @ [0] @ [0] @ le32 0 @ le64 (fid_persistent file_id_any) @
        le64 (fid_volatile file_id_any)), st)"

definition handle_change_notify ::
    "'w server \<Rightarrow> smb2_header \<Rightarrow> bytes \<Rightarrow> 'w st \<Rightarrow> 'w handled" where
  "handle_change_notify srv hdr body st = (response_err STATUS_NOT_SUPPORTED, st)"

section \<open>IOCTL\<close>

definition NEGOTIATE_SECURITY_MODE :: u16 where "NEGOTIATE_SECURITY_MODE = 0x0001"
definition CAP_DFS :: u32 where "CAP_DFS = 0x00000001"
definition CAP_LEASING :: u32 where "CAP_LEASING = 0x00000002"
definition CAP_LARGE_MTU :: u32 where "CAP_LARGE_MTU = 0x00000004"
definition NEGOTIATE_CAPABILITIES :: u32 where
  "NEGOTIATE_CAPABILITIES = CAP_DFS OR CAP_LEASING OR CAP_LARGE_MTU"

definition validate_negotiate_info :: "'w server \<Rightarrow> 'w connection \<Rightarrow> bytes" where
  "validate_negotiate_info srv c =
     (let dialect = (case conn_dialect c of Some d \<Rightarrow> dialect_as_u16 d | None \<Rightarrow> 0)
      in le32 NEGOTIATE_CAPABILITIES @ cfg_server_guid (srv_config srv) @
         le16 NEGOTIATE_SECURITY_MODE @ le16 dialect)"

definition handle_ioctl :: "'w server \<Rightarrow> smb2_header \<Rightarrow> bytes \<Rightarrow> 'w st \<Rightarrow> 'w handled" where
  "handle_ioctl srv hdr body st =
     or_fail (or_status STATUS_INVALID_PARAMETER (ioctl_request_parse body)) st (\<lambda>req.
       case fsctl_from_u32 (ioq_ctl_code req) of
         ValidateNegotiateInfo \<Rightarrow>
           let out = validate_negotiate_info srv (st_conn st)
           in (response_ok (put_ioctl_response
                \<lparr>ior_structure_size = 49, ior_reserved = 0, ior_ctl_code = ioq_ctl_code req,
                 ior_file_id = ioq_file_id req, ior_input_offset = 0, ior_input_count = 0,
                 ior_output_offset = 0x70, ior_output_count = of_nat (length out), ior_flags = 0,
                 ior_reserved2 = 0, ior_output = out\<rparr>), st)
       | DfsGetReferrals \<Rightarrow> (response_err STATUS_FS_DRIVER_REQUIRED, st)
       | DfsGetReferralsEx \<Rightarrow> (response_err STATUS_FS_DRIVER_REQUIRED, st)
       | _ \<Rightarrow> (response_err STATUS_NOT_SUPPORTED, st))"

section \<open>The contract\<close>

lemma authorize_le_cap: "read_only_share share \<Longrightarrow> cap_access share a = ReadOnlyAccess"
  by (simp add: cap_access_def read_only_share_def)

lemma tree_ok_connect: "tree_ok tid (tree_connect_new tid share (cap_access share a))"
  by (auto simp: tree_ok_def tree_connect_new_def authorize_le_cap)

lemma session_ok_connect:
  "session_ok sid s \<Longrightarrow> alloc_tree_id s = (tid, s1) \<Longrightarrow>
    session_ok sid (s1\<lparr>sess_trees := tbl_insert tid (tree_connect_new tid share (cap_access share a))
      (sess_trees s1)\<rparr>)"
  by (auto simp: alloc_tree_id_def session_ok_def tree_ok_connect)

lemma connect_allowed:
  assumes "config_ok srv" and "conn_allowed X srv c" and "tbl_get (conn_sessions c) sid = Some s"
    and "alloc_tree_id s = (tid, s1)" and "share_for srv name = Some share"
    and "authorize (sb_mode share) (sb_users share) (sess_identity s) = Some a"
  shows "conn_allowed X srv (update_session sid (\<lambda>_. s1\<lparr>sess_trees :=
    tbl_insert tid (tree_connect_new tid share (cap_access share a)) (sess_trees s1)\<rparr>) c)"
proof -
  have s1: "sess_identity s1 = sess_identity s" "sess_trees s1 = sess_trees s"
    using assms(4) by (auto simp: alloc_tree_id_def)
  have "tree_entitled srv (sess_identity s) (tree_connect_new tid share (cap_access share a))"
    using assms(5) tree_entitled_connect [OF assms(1) _ assms(6)]
    by (auto simp: share_for_def tree_entitled_def tree_connect_new_def split: if_splits)
  with s1 conn_allowed_get [OF assms(2,3)] have "session_allowed X srv (s1\<lparr>sess_trees :=
      tbl_insert tid (tree_connect_new tid share (cap_access share a)) (sess_trees s1)\<rparr>)"
    by (simp add: session_allowed_def tree_allowed_def)
  with assms(2) show ?thesis by (simp add: conn_allowed_def)
qed

lemma handle_tree_connect_step: "step_ok srv hdr st (snd (handle_tree_connect srv hdr body st))"
  unfolding handle_tree_connect_def
  by (auto simp: Let_def lookup_session_Inr split: prod.splits
      intro!: step_intros step_put_conn update_session_ok
      intro: session_ok_connect [OF conn_ok_sessions] connect_allowed)

text \<open>A close touches one session.\<close>

definition touches_only :: "u64 \<Rightarrow> 'w connection \<Rightarrow> 'w connection \<Rightarrow> bool" where
  "touches_only sid c c' \<longleftrightarrow> conn_id c' = conn_id c \<and> (conn_ok c \<longrightarrow> conn_ok c') \<and> fewer c c' \<and>
     (\<forall>k. k \<noteq> sid \<longrightarrow> tbl_get (conn_sessions c') k = tbl_get (conn_sessions c) k)"

lemma close_tree_touches: "close_tree sid tid c w = (r, c', w') \<Longrightarrow> touches_only sid c c'"
  using close_tree_ok [of c sid tid w] close_tree_fewer [of sid tid c w]
  by (auto simp: touches_only_def close_tree_def split: option.splits prod.splits)

lemma close_session_touches: "close_session sid c w = (r, c', w') \<Longrightarrow> touches_only sid c c'"
  using close_session_ok [of c sid w] close_session_fewer [of sid c w]
  by (auto simp: touches_only_def close_session_def split: option.splits)

lemma step_touches:
  "touches_only (session_id hdr) (st_conn st') c \<Longrightarrow> step_ok srv hdr st st' \<Longrightarrow>
    step_ok srv hdr st (put_conn c st')"
  by (auto simp: touches_only_def intro: step_put_conn conn_allowed_fewer)

lemma handle_tree_disconnect_step:
  "step_ok srv hdr st (snd (handle_tree_disconnect srv hdr body st))"
  unfolding handle_tree_disconnect_def
  by (auto simp: Let_def split: prod.splits sum.splits intro!: step_intros step_touches
      dest: close_tree_touches)

lemma handle_logoff_step: "step_ok srv hdr st (snd (handle_logoff srv hdr body st))"
  unfolding handle_logoff_def
  by (auto simp: Let_def split: prod.splits intro!: step_intros step_touches
      dest: close_session_touches)

lemma handle_ioctl_step: "step_ok srv hdr st (snd (handle_ioctl srv hdr body st))"
  unfolding handle_ioctl_def by (auto simp: Let_def split: fsctl.splits intro!: step_intros)

lemma handle_tree_connect_returns: "returns (handle_tree_connect srv hdr body st)"
  unfolding handle_tree_connect_def
  by (auto simp: Let_def split: prod.splits intro!: returns_intros)

lemma handle_tree_disconnect_returns:
  "returns (handle_tree_disconnect srv hdr body st)"
  unfolding handle_tree_disconnect_def
  by (rule returns_or_fail) (simp add: Let_def split: prod.splits sum.splits)

lemma handle_logoff_returns: "returns (handle_logoff srv hdr body st)"
  by (simp add: handle_logoff_def Let_def split: prod.splits)

lemma handle_ioctl_returns: "returns (handle_ioctl srv hdr body st)"
  unfolding handle_ioctl_def by (auto simp: Let_def split: fsctl.splits intro!: returns_intros)

interpretation tree_connect: handler handle_tree_connect
  by unfold_locales (rule handle_tree_connect_step, rule handle_tree_connect_returns)

interpretation tree_disconnect: handler handle_tree_disconnect
  by unfold_locales (rule handle_tree_disconnect_step, rule handle_tree_disconnect_returns)

interpretation logoff: handler handle_logoff
  by unfold_locales (rule handle_logoff_step, rule handle_logoff_returns)

interpretation echo: handler handle_echo
  by unfold_locales (simp_all add: handle_echo_def)

interpretation lock: handler handle_lock
  by unfold_locales (simp_all add: handle_lock_def)

interpretation oplock_break: handler handle_oplock_break
  by unfold_locales (simp_all add: handle_oplock_break_def)

interpretation change_notify: handler handle_change_notify
  by unfold_locales (simp_all add: handle_change_notify_def)

interpretation ioctl: handler handle_ioctl
  by unfold_locales (rule handle_ioctl_step, rule handle_ioctl_returns)

section \<open>Properties\<close>




lemma extract_share_name_Nil [simp]: "extract_share_name [] = None"
  by (simp add: extract_share_name_def)




end
