(* ===== verification/Memfs.thy ===== *)
theory Memfs
  imports Backend
begin

text \<open>
  The in-memory backend, \<open>src/src/tests/memfs.rs\<close>: the world is its locked state, the backend and
  its handles are functions on it. It meets the backend contract, and the properties of the
  handlers are applied to it. Two limits of the machine are not modelled: a write or a truncate
  beyond the memory, and an offset plus a length beyond \<open>2^64\<close>, end the thread in the code.
\<close>

record mem_fs =
  mem_files :: "(rstring, bytes) table"
  mem_dirs :: "(rstring, unit) table"
  mem_streams :: "(rstring \<times> rstring, bytes) table"

definition memfs_new :: mem_fs where
  "memfs_new = \<lparr>mem_files = [], mem_dirs = [([], ())], mem_streams = []\<rparr>"

definition with_file :: "rstring \<Rightarrow> bytes \<Rightarrow> mem_fs \<Rightarrow> mem_fs" where
  "with_file path contents g = g\<lparr>mem_files := tbl_insert path contents (mem_files g)\<rparr>"

definition mem_key :: "smb_path \<Rightarrow> rstring" where
  "mem_key p = display_backslash p"

definition starts_with :: "rstring \<Rightarrow> rstring \<Rightarrow> bool" where
  "starts_with s prefix \<longleftrightarrow> take (length prefix) s = prefix"

definition has_children :: "mem_fs \<Rightarrow> rstring \<Rightarrow> bool" where
  "has_children g dir_key \<longleftrightarrow>
     (let prefix = dir_key @ [92]
      in list_ex (\<lambda>(k, _). starts_with k prefix) (mem_files g) \<or>
         list_ex (\<lambda>(k, _). starts_with k prefix) (mem_dirs g))"

section \<open>Handles\<close>

record mem_handle =
  mh_key :: rstring
  mh_is_dir :: bool
  mh_stream :: "rstring option"

text \<open>The bytes a handle addresses, and storing them back.\<close>

definition mem_data :: "mem_handle \<Rightarrow> mem_fs \<Rightarrow> bytes option" where
  "mem_data h g =
     (case mh_stream h of
        Some s \<Rightarrow> tbl_get (mem_streams g) (mh_key h, s)
      | None \<Rightarrow> tbl_get (mem_files g) (mh_key h))"

definition mem_store :: "mem_handle \<Rightarrow> bytes \<Rightarrow> mem_fs \<Rightarrow> mem_fs" where
  "mem_store h dat g =
     (case mh_stream h of
        Some s \<Rightarrow> g\<lparr>mem_streams := tbl_insert (mh_key h, s) dat (mem_streams g)\<rparr>
      | None \<Rightarrow> g\<lparr>mem_files := tbl_insert (mh_key h) dat (mem_files g)\<rparr>)"

text \<open>\<open>Vec::resize(n, 0)\<close>.\<close>

definition resize :: "nat \<Rightarrow> bytes \<Rightarrow> bytes" where
  "resize n b = take n b @ replicate (n - length b) 0"

definition mem_read :: "mem_handle \<Rightarrow> u64 \<Rightarrow> u32 \<Rightarrow> (mem_fs, bytes) io" where
  "mem_read h off len g =
     (if mh_is_dir h then (Inl IsDirectory, g)
      else case mem_data h g of
        None \<Rightarrow> (Inl NotFound, g)
      | Some dat \<Rightarrow>
          let start = unat off in
          if length dat \<le> start then (Inr [], g)
          else let end' = min (start + unat len) (length dat)
               in (Inr (slice start (end' - start) dat), g))"

definition mem_write :: "mem_handle \<Rightarrow> u64 \<Rightarrow> bytes \<Rightarrow> (mem_fs, u32) io" where
  "mem_write h off dat g =
     (if mh_is_dir h then (Inl IsDirectory, g)
      else case mem_data h g of
        None \<Rightarrow> (Inl NotFound, g)
      | Some buf \<Rightarrow>
          let needed = unat off + length dat;
              buf = (if length buf < needed then resize needed buf else buf)
          in (Inr (of_nat (length dat)), mem_store h (patch (unat off) dat buf) g))"

definition mem_time :: u64 where "mem_time = 0x01D9000000000000"

definition mem_info :: "rstring \<Rightarrow> nat \<Rightarrow> bool \<Rightarrow> file_info" where
  "mem_info name sz is_dir =
     \<lparr>fi_name = name, fi_end_of_file = of_nat sz, fi_allocation_size = of_nat sz,
      fi_creation_time = mem_time, fi_last_access_time = mem_time,
      fi_last_write_time = mem_time, fi_change_time = mem_time, fi_is_directory = is_dir,
      fi_file_index = 0\<rparr>"

definition mem_stat :: "mem_handle \<Rightarrow> (mem_fs, file_info) io" where
  "mem_stat h g =
     (let name = (case rsplit_once 92 (mh_key h) of Some (_, n) \<Rightarrow> n | None \<Rightarrow> mh_key h) in
      if mh_is_dir h then (Inr (mem_info name 0 True), g)
      else case mem_data h g of
        None \<Rightarrow> (Inl NotFound, g)
      | Some dat \<Rightarrow> (Inr (mem_info name (length dat) False), g))"

definition mem_truncate :: "mem_handle \<Rightarrow> u64 \<Rightarrow> (mem_fs, unit) io" where
  "mem_truncate h len g =
     (if mh_is_dir h then (Inl IsDirectory, g)
      else case mem_data h g of
        None \<Rightarrow> (Inl NotFound, g)
      | Some buf \<Rightarrow> (Inr (), mem_store h (resize (unat len) buf) g))"

text \<open>The entry for a key, when the key is an immediate child of the prefix.\<close>

definition child_name :: "rstring \<Rightarrow> rstring \<Rightarrow> rstring option" where
  "child_name prefix k =
     (if starts_with k prefix \<and> 92 \<notin> set (drop (length prefix) k)
      then Some (drop (length prefix) k) else None)"

definition mem_list_dir :: "mem_handle \<Rightarrow> rstring option \<Rightarrow> (mem_fs, dir_entry list) io" where
  "mem_list_dir h pattern g =
     (if \<not> mh_is_dir h then (Inl NotADirectory, g)
      else
        let prefix = (if mh_key h = [] then [] else mh_key h @ [92]);
            of_files = List.map_filter (\<lambda>(k, v). map_option (\<lambda>n. mem_info n (length v) False)
              (child_name prefix k)) (mem_files g);
            of_dirs = List.map_filter (\<lambda>(k, _). case child_name prefix k of
                Some n \<Rightarrow> if n \<noteq> [] then Some (mem_info n 0 True) else None
              | None \<Rightarrow> None) (mem_dirs g)
        in (Inr (of_files @ of_dirs), g))"

definition mem_handle_of :: "mem_handle \<Rightarrow> mem_fs handle" where
  "mem_handle_of h =
     \<lparr>h_read = mem_read h, h_write = mem_write h, h_flush = (\<lambda>g. (Inr (), g)),
      h_stat = mem_stat h, h_set_times = (\<lambda>_ g. (Inr (), g)), h_truncate = mem_truncate h,
      h_list_dir = mem_list_dir h, h_close = (\<lambda>g. (Inr (), g))\<rparr>"

section \<open>The backend\<close>

text \<open>What an intent does to an entry that is there or not: an error, or the table to go on with.\<close>

definition apply_intent ::
    "open_intent \<Rightarrow> 'k \<Rightarrow> ('k, bytes) table \<Rightarrow> smb_error + ('k, bytes) table" where
  "apply_intent intent k m =
     (let present = tbl_get m k \<noteq> None in
      case intent of
        IntentOpen \<Rightarrow> if present then Inr m else Inl NotFound
      | IntentCreate \<Rightarrow> if present then Inl Exists else Inr (tbl_insert k [] m)
      | IntentOpenOrCreate \<Rightarrow> if present then Inr m else Inr (tbl_insert k [] m)
      | IntentTruncate \<Rightarrow> if present then Inr (tbl_insert k [] m) else Inl NotFound
      | IntentOverwriteOrCreate \<Rightarrow> Inr (tbl_insert k [] m))"

definition mem_open :: "smb_path \<Rightarrow> open_options \<Rightarrow> (mem_fs, mem_fs handle) io" where
  "mem_open path opts g =
     (let k = mem_key path;
          exists_file = tbl_get (mem_files g) k \<noteq> None;
          exists_dir = tbl_get (mem_dirs g) k \<noteq> None in
      case stream path of
        Some s \<Rightarrow>
          if exists_dir then (Inl IsDirectory, g)
          else if \<not> exists_file then (Inl NotFound, g)
          else (case apply_intent (oo_intent opts) (k, s) (mem_streams g) of
              Inl e \<Rightarrow> (Inl e, g)
            | Inr streams \<Rightarrow>
                (Inr (mem_handle_of \<lparr>mh_key = k, mh_is_dir = False, mh_stream = Some s\<rparr>),
                 g\<lparr>mem_streams := streams\<rparr>))
      | None \<Rightarrow>
          if oo_directory opts then
            if exists_file then (Inl NotADirectory, g)
            else if exists_dir then
              (Inr (mem_handle_of \<lparr>mh_key = k, mh_is_dir = True, mh_stream = None\<rparr>), g)
            else if oo_intent opts = IntentCreate \<or> oo_intent opts = IntentOpenOrCreate then
              (Inr (mem_handle_of \<lparr>mh_key = k, mh_is_dir = True, mh_stream = None\<rparr>),
               g\<lparr>mem_dirs := tbl_insert k () (mem_dirs g)\<rparr>)
            else (Inl NotFound, g)
          else if exists_dir then (Inl IsDirectory, g)
          else (case apply_intent (oo_intent opts) k (mem_files g) of
              Inl e \<Rightarrow> (Inl e, g)
            | Inr files \<Rightarrow>
                (Inr (mem_handle_of \<lparr>mh_key = k, mh_is_dir = False, mh_stream = None\<rparr>),
                 g\<lparr>mem_files := files\<rparr>)))"

definition mem_unlink :: "smb_path \<Rightarrow> (mem_fs, unit) io" where
  "mem_unlink path g =
     (let k = mem_key path in
      if tbl_get (mem_files g) k \<noteq> None then
        (Inr (), g\<lparr>mem_files := tbl_remove k (mem_files g),
                   mem_streams := filter (\<lambda>((fk, _), _). fk \<noteq> k) (mem_streams g)\<rparr>)
      else if tbl_get (mem_dirs g) k \<noteq> None then
        (Inr (), g\<lparr>mem_dirs := tbl_remove k (mem_dirs g)\<rparr>)
      else (Inl NotFound, g))"

text \<open>The streams of a file follow it, one after the other.\<close>

fun move_streams ::
    "rstring \<Rightarrow> rstring \<Rightarrow> rstring list \<Rightarrow> (rstring \<times> rstring, bytes) table \<Rightarrow>
     (rstring \<times> rstring, bytes) table" where
  "move_streams kf kt [] m = m"
| "move_streams kf kt (sn # sns) m =
     move_streams kf kt sns (case tbl_get m (kf, sn) of
         Some dat \<Rightarrow> tbl_insert (kt, sn) dat (tbl_remove (kf, sn) m)
       | None \<Rightarrow> m)"

definition mem_move :: "rstring \<Rightarrow> rstring \<Rightarrow> mem_fs \<Rightarrow> mem_fs" where
  "mem_move kf kt g =
     (case tbl_get (mem_files g) kf of
        Some dat \<Rightarrow>
          g\<lparr>mem_files := tbl_insert kt dat (tbl_remove kf (mem_files g)),
            mem_streams := move_streams kf kt
              (map (\<lambda>((_, sn), _). sn) (filter (\<lambda>((fk, _), _). fk = kf) (mem_streams g)))
              (mem_streams g)\<rparr>
      | None \<Rightarrow> g\<lparr>mem_dirs := tbl_insert kt () (tbl_remove kf (mem_dirs g))\<rparr>)"

definition mem_rename :: "smb_path \<Rightarrow> smb_path \<Rightarrow> bool \<Rightarrow> (mem_fs, unit) io" where
  "mem_rename from_path to_path replace g =
     (let kf = mem_key from_path;
          kt = mem_key to_path;
          src_is_dir = tbl_get (mem_dirs g) kf \<noteq> None;
          src_is_file = tbl_get (mem_files g) kf \<noteq> None;
          dest_is_file = tbl_get (mem_files g) kt \<noteq> None;
          dest_is_dir = tbl_get (mem_dirs g) kt \<noteq> None
      in if \<not> src_is_dir \<and> \<not> src_is_file then (Inl NotFound, g)
         else if dest_is_file \<or> dest_is_dir then
           if \<not> replace then (Inl Exists, g)
           else if kf = kt then (Inr (), g)
           else if src_is_dir \<and> dest_is_file then (Inl NotADirectory, g)
           else if \<not> src_is_dir \<and> dest_is_dir then (Inl IsDirectory, g)
           else if dest_is_dir \<and> has_children g kt then (Inl NotEmpty, g)
           else (Inr (), mem_move kf kt (g\<lparr>mem_files := tbl_remove kt (mem_files g),
                                            mem_dirs := tbl_remove kt (mem_dirs g)\<rparr>))
         else (Inr (), mem_move kf kt g))"

definition memfs_backend :: "mem_fs backend" where
  "memfs_backend =
     \<lparr>be_open = mem_open, be_unlink = mem_unlink, be_rename = mem_rename,
      be_capabilities = \<lparr>bc_is_read_only = False, bc_case_sensitive = False,
                         bc_supports_named_streams = True\<rparr>\<rparr>"

section \<open>The contract holds\<close>

lemma mem_opened:
  assumes "opened_by memfs_backend h"
  shows "\<exists>m. h = mem_handle_of m"
proof -
  obtain p opts g g' where "mem_open p opts g = (Inr h, g')"
    using assms by (auto simp: opened_by_def memfs_backend_def)
  then show ?thesis
    by (auto simp: mem_open_def Let_def split: option.splits if_splits sum.splits)
qed

lemma mem_read_quiet [simp]: "snd (mem_read h off len g) = g"
  by (simp add: mem_read_def Let_def split: option.splits)

lemma mem_stat_quiet [simp]: "snd (mem_stat h g) = g"
  by (simp add: mem_stat_def Let_def split: option.splits)

lemma mem_read_length: "mem_read h off len g = (Inr bs, g') \<Longrightarrow> length bs \<le> unat len"
  by (auto simp: mem_read_def Let_def slice_def split: if_splits option.splits)

lemma unat_of_nat_le: "unat (of_nat n :: 'a :: len word) \<le> n"
  by (simp add: unsigned_of_nat take_bit_nat_less_eq_self)

lemma mem_write_length: "mem_write h off dat g = (Inr n, g') \<Longrightarrow> unat n \<le> length dat"
  by (auto simp: mem_write_def Let_def unat_of_nat_le split: if_splits option.splits)

interpretation memfs: share_backend memfs_backend "\<lambda>g. g"
proof
  fix h :: "mem_fs handle" and off len w bs w'
  assume "opened_by memfs_backend h" and "h_read h off len w = (Inr bs, w')"
  then show "length bs \<le> unat len"
    by (auto simp: mem_handle_of_def dest!: mem_opened mem_read_length)
next
  fix h :: "mem_fs handle" and off dat w n w'
  assume "opened_by memfs_backend h" and "h_write h off dat w = (Inr n, w')"
  then show "unat n \<le> length dat"
    by (auto simp: mem_handle_of_def dest!: mem_opened mem_write_length)
qed (auto simp: mem_handle_of_def dest!: mem_opened)

section \<open>Files as maps\<close>

lemma length_resize [simp]: "length (resize n b) = n"
  by (simp add: resize_def)

lemma mem_data_store:
  "mem_data h' (mem_store h dat g) =
    (if mh_key h' = mh_key h \<and> mh_stream h' = mh_stream h then Some dat else mem_data h' g)"
  by (auto simp: mem_data_def mem_store_def split: option.splits)

text \<open>What the bytes of a file are after a write: zeros fill a gap.\<close>

definition written :: "nat \<Rightarrow> bytes \<Rightarrow> bytes \<Rightarrow> bytes" where
  "written off dat buf = patch off dat (if length buf < off + length dat
     then resize (off + length dat) buf else buf)"

lemma written_slice: "slice off (length dat) (written off dat buf) = dat"
  by (simp add: written_def)

lemma length_written: "length (written off dat buf) = max (length buf) (off + length dat)"
  by (simp add: written_def)

lemma mem_write_eq:
  "\<not> mh_is_dir h \<Longrightarrow> mem_data h g = Some buf \<Longrightarrow>
    mem_write h off dat g = (Inr (of_nat (length dat)), mem_store h (written (unat off) dat buf) g)"
  by (simp add: mem_write_def written_def Let_def)

text \<open>
  The in-memory backend stores what is written. After a write, reading the same range of the
  same handle returns the bytes that were written; a handle to any other file, and to any other
  stream of the same file, still reads what it read before.
\<close>

theorem memfs_read_after_write:
  assumes "\<not> mh_is_dir h" and "mem_data h g = Some buf" and "length dat < 2 ^ 32"
    and "mem_write h off dat g = (Inr n, g')"
  shows "mem_read h off (of_nat (length dat)) g' = (Inr dat, g') \<and> unat n = length dat \<and>
    ((mh_key h', mh_stream h') \<noteq> (mh_key h, mh_stream h) \<longrightarrow>
      mem_read h' off' len g' = (fst (mem_read h' off' len g), g'))"
proof (intro conjI impI)
  have g': "g' = mem_store h (written (unat off) dat buf) g" and n: "n = of_nat (length dat)"
    using assms(4) mem_write_eq [OF assms(1,2), of off dat] by simp_all
  have u: "unat (of_nat (length dat) :: u32) = length dat"
    using assms(3) by (simp add: unat_of_nat take_bit_eq_mod)
  then show "unat n = length dat" using n by simp
  have d: "mem_data h g' = Some (written (unat off) dat buf)"
    by (simp add: g' mem_data_store)
  have s: "slice (unat off) (length dat) (written (unat off) dat buf) = dat"
    by (rule written_slice)
  show "mem_read h off (of_nat (length dat)) g' = (Inr dat, g')"
    using assms(1) s u by (auto simp: mem_read_def d Let_def length_written min_def)
  assume "(mh_key h', mh_stream h') \<noteq> (mh_key h, mh_stream h)"
  then have "mem_data h' g' = mem_data h' g"
    by (auto simp: g' mem_data_store)
  then show "mem_read h' off' len g' = (fst (mem_read h' off' len g), g')"
    by (simp add: mem_read_def Let_def split: option.splits)
qed

definition sample_fs :: mem_fs where
  "sample_fs = with_file [97] [1, 2, 3] memfs_new"

definition sample_file :: mem_handle where
  "sample_file = \<lparr>mh_key = [97], mh_is_dir = False, mh_stream = None\<rparr>"

lemma sample_file_data: "mem_data sample_file sample_fs = Some [1, 2, 3]"
  by (simp add: mem_data_def sample_file_def sample_fs_def with_file_def)

theorem memfs_read_after_write_witness:
  "mem_read sample_file 2 2 (mem_store sample_file [1, 2, 7, 8] sample_fs)
    = (Inr [7, 8], mem_store sample_file [1, 2, 7, 8] sample_fs)"
proof -
  have w: "mem_write sample_file 2 [7, 8] sample_fs
      = (Inr 2, mem_store sample_file [1, 2, 7, 8] sample_fs)"
    using mem_write_eq [OF _ sample_file_data, of 2 "[7, 8]"]
    by (simp add: sample_file_def written_def patch_def resize_def)
  show ?thesis
    using memfs_read_after_write [OF _ sample_file_data _ w] by (simp add: sample_file_def)
qed

end
