(* ===== verification/Sample_State.thy ===== *)
theory Sample_State
  imports Handler_Core Memfs
begin

text \<open>
  A concrete connection to which the properties of the handlers are applied: one session of a
  user with one tree on an in-memory share and one open file, with read-write or with read-only
  access.
\<close>

definition mem_share :: "mem_fs share_bindings" where
  "mem_share = share_bindings_new (lit ''Mem'') memfs_backend AuthenticatedOnly
     [(lit ''bob'', ReadWriteAccess)] False"

definition mem_server :: "mem_fs server" where
  "mem_server =
     \<lparr>srv_config = \<lparr>cfg_listen_addr = ([127, 0, 0, 1], 445), cfg_netbios_name = lit ''S'',
        cfg_max_read_size = 1024, cfg_max_write_size = 1024, cfg_server_guid = replicate 16 7\<rparr>,
      srv_users = [(lit ''bob'', user_creds_from_password sample_crypto (lit ''secret''))],
      srv_shares = [(lit ''mem'', mem_share)], srv_start_filetime = 0,
      srv_shutting_down = False, srv_trace_armed = True, srv_crypto = sample_crypto,
      srv_random = (\<lambda>_ n. replicate n 1), srv_clock = (\<lambda>_. 0)\<rparr>"

definition fid1 :: file_id where
  "fid1 = \<lparr>fid_persistent = 1, fid_volatile = 1\<rparr>"

definition path_a :: smb_path where
  "path_a = \<lparr>components = [[97]], stream = None\<rparr>"

definition sample_open :: "access \<Rightarrow> bool \<Rightarrow> mem_fs open_file" where
  "sample_open a delete = open_new fid1 (mem_handle_of sample_file) a path_a False delete"

definition sample_tree :: "access \<Rightarrow> bool \<Rightarrow> mem_fs tree_connect" where
  "sample_tree a delete = (tree_connect_new 1 mem_share a)
     \<lparr>tree_opens := [(fid1, sample_open a delete)], tree_next_volatile := 2\<rparr>"

definition bob_session :: "access \<Rightarrow> bool \<Rightarrow> mem_fs session" where
  "bob_session a delete = (session_new 1 (User (lit ''bob'') []) (replicate 16 1) (replicate 16 2)
     False None)\<lparr>sess_trees := [(1, sample_tree a delete)], sess_next_tree_id := 2\<rparr>"

definition mem_conn :: "access \<Rightarrow> bool \<Rightarrow> mem_fs connection" where
  "mem_conn a delete = (connection_new 7 (replicate 16 7) 1024 1024)\<lparr>conn_dialect := Some Smb302,
     conn_sessions := [(1, bob_session a delete)], conn_next_session_id := 2\<rparr>"

definition mem_st :: "access \<Rightarrow> bool \<Rightarrow> mem_fs st" where
  "mem_st a delete = \<lparr>st_conn = mem_conn a delete, st_world = sample_fs, st_log = [],
     st_key = None, st_draws = 0, st_ticks = 0\<rparr>"

definition hdr1 :: "command \<Rightarrow> smb2_header" where
  "hdr1 cmd = default_header\<lparr>hdr_command := cmd, session_id := 1, hdr_tail := tail_sync 1,
     message_id := 5\<rparr>"

lemma hdr1_simps [simp]:
  "hdr_command (hdr1 cmd) = cmd" "session_id (hdr1 cmd) = 1" "hdr_tree_id (hdr1 cmd) = Some 1"
  "flags (hdr1 cmd) = 0" "message_id (hdr1 cmd) = 5"
  by (simp_all add: hdr1_def default_header_def tail_sync_def hdr_tree_id_def)

lemma mem_st_simps [simp]:
  "st_conn (mem_st a d) = mem_conn a d" "st_world (mem_st a d) = sample_fs" "st_log (mem_st a d) = []"
  "conn_max_read_size (mem_conn a d) = 1024" "conn_max_write_size (mem_conn a d) = 1024"
  by (simp_all add: mem_st_def mem_conn_def connection_new_def)

lemma sample_lookup_session [simp]: "lookup_session (mem_conn a d) 1 = Inr (bob_session a d)"
  by (simp add: lookup_session_def mem_conn_def tbl_get_def)

lemma sample_lookup_tree [simp]: "lookup_session_tree (mem_conn a d) (hdr1 cmd) = Inr (sample_tree a d)"
  by (simp add: lookup_session_tree_def bob_session_def tbl_get_def)

lemma sample_lookup_open [simp]: "lookup_open (sample_tree a d) fid1 = Some (sample_open a d)"
  by (simp add: lookup_open_def sample_tree_def tbl_get_def)

lemma sample_open_simps [simp]:
  "open_handle (sample_open a d) = Some (mem_handle_of sample_file)"
  "open_delete_on_close (sample_open a d) = d" "open_last_path (sample_open a d) = path_a"
  "tree_granted_access (sample_tree a d) = a" "tree_share (sample_tree a d) = mem_share"
  "sb_backend mem_share = memfs_backend"
  by (simp_all add: sample_open_def open_new_def sample_tree_def tree_connect_new_def mem_share_def
      share_bindings_new_def)

lemma valid_path_a: "valid_path path_a"
  by (simp add: path_a_def valid_path_def valid_component_def plain_char_def is_sep_def
      forbidden_char_def lit_def is_reserved_dos_name_def rsplit_once_def Let_def
      matches_com_or_lpt_def to_ascii_uppercase_def ascii_upper_def eq_ignore_ascii_case_def
      to_ascii_lowercase_def ascii_lower_def as_bytes_def utf8_char_def)

lemma sample_file_opens:
  "be_open memfs_backend path_a open_options_default sample_fs
    = (Inr (mem_handle_of sample_file), sample_fs)"
  by (simp add: memfs_backend_def mem_open_def path_a_def mem_key_def display_backslash_def
      sample_fs_def with_file_def memfs_new_def open_options_default_def apply_intent_def
      sample_file_def tbl_get_def tbl_insert_def Let_def)

lemma sample_file_opened: "opened_by memfs_backend (mem_handle_of sample_file)"
  using sample_file_opens by (rule opened_byI [OF valid_path_a])

lemma mem_conn_ok [simp]: "conn_ok (mem_conn a d)"
proof -
  have "open_ok memfs_backend a fid1 (sample_open a d)"
    using sample_file_opened valid_path_a
    by (simp add: open_ok_def sample_open_def open_new_def)
  then have "tree_ok 1 (sample_tree a d)"
    by (simp add: tree_ok_def sample_tree_def tree_connect_new_def read_only_share_def mem_share_def
        share_bindings_new_def memfs_backend_def tbl_all_def tbl_ok_def)
  then have "session_ok 1 (bob_session a d)"
    by (simp add: session_ok_def bob_session_def session_new_def tbl_all_def tbl_ok_def)
  then show ?thesis
    by (simp add: conn_ok_def mem_conn_def connection_new_def tbl_all_def tbl_ok_def)
qed

end
