(* ===== verification/Handlers_File.thy ===== *)
theory Handlers_File
  imports Sample_State
begin

text \<open>
  The handlers that work on an open file: \<open>read.rs\<close>, \<open>write.rs\<close>, \<open>flush.rs\<close> and
  \<open>close.rs\<close> of \<open>src/src/handlers\<close>.
\<close>

section \<open>READ\<close>

definition read_response_for :: "bytes \<Rightarrow> read_response" where
  "read_response_for dat =
     \<lparr>rdr_structure_size = 17, rdr_data_offset = READ_STANDARD_DATA_OFFSET, rdr_reserved = 0,
      rdr_data_length = of_nat (length dat), rdr_data_remaining = 0, rdr_flags = 0,
      rdr_data = dat\<rparr>"

definition handle_read :: "'w server \<Rightarrow> smb2_header \<Rightarrow> bytes \<Rightarrow> 'w st \<Rightarrow> 'w handled" where
  "handle_read srv hdr body st =
     or_fail (or_status STATUS_INVALID_PARAMETER (read_request_parse body)) st (\<lambda>req.
       if conn_max_read_size (st_conn st) < rdq_length req
       then (response_err STATUS_INVALID_PARAMETER, st)
       else
       or_fail (lookup_session_tree (st_conn st) hdr) st (\<lambda>tree.
       or_fail (or_status STATUS_FILE_CLOSED (lookup_open tree (rdq_file_id req))) st (\<lambda>op.
       or_fail (or_status STATUS_FILE_CLOSED (open_handle op)) st (\<lambda>h.
         let (r, st1) = run_io (h_read h (rdq_offset req) (rdq_length req)) st in
         or_fail (io_status r) st1 (\<lambda>dat.
           if dat = [] \<and> 0 < rdq_length req then (response_err STATUS_END_OF_FILE, st1)
           else (response_ok (put_read_response (read_response_for dat)), st1))))))"

section \<open>WRITE\<close>

definition handle_write :: "'w server \<Rightarrow> smb2_header \<Rightarrow> bytes \<Rightarrow> 'w st \<Rightarrow> 'w handled" where
  "handle_write srv hdr body st0 =
     or_fail (or_status STATUS_INVALID_PARAMETER (write_request_parse body)) st0 (\<lambda>req.
       let st = record_event srv (WriteEvent (file_id_bytes (wrq_file_id req)) (wrq_offset req)
             (wrq_length req)) st0 in
       if conn_max_write_size (st_conn st) < wrq_length req
       then (response_err STATUS_INVALID_PARAMETER, st)
       else
       or_fail (lookup_session_tree (st_conn st) hdr) st (\<lambda>tree.
         if tree_granted_access tree \<noteq> ReadWriteAccess
         then (response_err STATUS_ACCESS_DENIED, st)
         else
         or_fail (or_status STATUS_FILE_CLOSED (lookup_open tree (wrq_file_id req))) st (\<lambda>op.
         or_fail (or_status STATUS_FILE_CLOSED (open_handle op)) st (\<lambda>h.
           let (r, st1) = run_io (h_write h (wrq_offset req) (wrq_data req)) st in
           or_fail (io_status r) st1 (\<lambda>count.
             (response_ok (put_write_response (write_response_new count)), st1))))))"

section \<open>FLUSH\<close>

definition handle_flush :: "'w server \<Rightarrow> smb2_header \<Rightarrow> bytes \<Rightarrow> 'w st \<Rightarrow> 'w handled" where
  "handle_flush srv hdr body st =
     or_fail (or_status STATUS_INVALID_PARAMETER (flush_request_parse body)) st (\<lambda>req.
       let fid = \<lparr>fid_persistent = flq_file_id_persistent req,
                  fid_volatile = flq_file_id_volatile req\<rparr> in
       or_fail (lookup_session_tree (st_conn st) hdr) st (\<lambda>tree.
       or_fail (or_status STATUS_FILE_CLOSED (lookup_open tree fid)) st (\<lambda>op.
       or_fail (or_status STATUS_FILE_CLOSED (open_handle op)) st (\<lambda>h.
         let (r, st1) = run_io (h_flush h) st in
         or_fail (io_status r) st1 (\<lambda>_.
           (response_ok (put_flush_response flush_response_default), st1))))))"

section \<open>CLOSE\<close>

definition close_response_for :: "u16 \<Rightarrow> file_info option \<Rightarrow> close_response" where
  "close_response_for fl info =
     (let field = (\<lambda>f. case info of Some i \<Rightarrow> f i | None \<Rightarrow> 0) in
      \<lparr>clr_structure_size = 60, clr_flags = fl AND FLAG_POSTQUERY_ATTRIB, clr_reserved = 0,
       clr_creation_time = field fi_creation_time,
       clr_last_access_time = field fi_last_access_time,
       clr_last_write_time = field fi_last_write_time,
       clr_change_time = field fi_change_time,
       clr_allocation_size = field fi_allocation_size,
       clr_end_of_file = field fi_end_of_file,
       clr_file_attributes = (case info of Some i \<Rightarrow> fi_attributes i | None \<Rightarrow> 0)\<rparr>)"

text \<open>The stat before the close, when the client asks for attributes; errors are dropped.\<close>

definition stat_for_close :: "bool \<Rightarrow> 'w handle option \<Rightarrow> 'w st \<Rightarrow> file_info option \<times> 'w st" where
  "stat_for_close want h' st =
     (case (want, h') of
        (True, Some h) \<Rightarrow>
          (let (r, st1) = run_io (h_stat h) st
           in (case r of Inr i \<Rightarrow> Some i | Inl _ \<Rightarrow> None, st1))
      | _ \<Rightarrow> (None, st))"

definition close_handle :: "'w handle option \<Rightarrow> 'w st \<Rightarrow> 'w st" where
  "close_handle h' st = (case h' of Some h \<Rightarrow> snd (run_io (h_close h) st) | None \<Rightarrow> st)"

definition handle_close :: "'w server \<Rightarrow> smb2_header \<Rightarrow> bytes \<Rightarrow> 'w st \<Rightarrow> 'w handled" where
  "handle_close srv hdr body st =
     or_fail (or_status STATUS_INVALID_PARAMETER (close_request_parse body)) st (\<lambda>req.
       or_fail (lookup_session_tree (st_conn st) hdr) st (\<lambda>tree.
       or_fail (or_status STATUS_FILE_CLOSED (lookup_open tree (clq_file_id req))) st (\<lambda>op.
         let c = update_tree hdr (\<lambda>t. t\<lparr>tree_opens :=
                   tbl_remove (clq_file_id req) (tree_opens t)\<rparr>) (st_conn st);
             st1 = record_event srv (CloseEvent (file_id_bytes (clq_file_id req))
                   (open_delete_on_close op) (display_backslash (open_last_path op)))
                   (put_conn c st);
             want_attrs = (clq_flags req AND FLAG_POSTQUERY_ATTRIB \<noteq> 0);
             (info, st2) = stat_for_close want_attrs (open_handle op) st1;
             st3 = close_handle (open_handle op) st2;
             st4 = (if open_delete_on_close op
                    then snd (run_io (be_unlink (sb_backend (tree_share tree)) (open_last_path op)) st3)
                    else st3)
         in (response_ok (put_close_response (close_response_for (clq_flags req) info)), st4))))"

section \<open>The contract\<close>

lemma handle_read_step: "step_ok srv hdr st (snd (handle_read srv hdr body st))"
  unfolding handle_read_def by (auto simp: Let_def case_prod_unfold intro!: step_intros)

lemma handle_write_step: "step_ok srv hdr st (snd (handle_write srv hdr body st))"
  unfolding handle_write_def by (auto simp: Let_def case_prod_unfold intro!: step_intros)

lemma handle_flush_step: "step_ok srv hdr st (snd (handle_flush srv hdr body st))"
  unfolding handle_flush_def by (auto simp: Let_def case_prod_unfold intro!: step_intros)

lemma step_stat_for_close:
  "step_ok srv hdr st st' \<Longrightarrow> step_ok srv hdr st (snd (stat_for_close want h' st'))"
  by (auto simp: stat_for_close_def case_prod_unfold split: bool.splits option.splits)

lemma step_close_handle: "step_ok srv hdr st st' \<Longrightarrow> step_ok srv hdr st (close_handle h' st')"
  by (auto simp: close_handle_def split: option.splits)

lemma handle_close_step: "step_ok srv hdr st (snd (handle_close srv hdr body st))"
  unfolding handle_close_def
  by (auto simp: Let_def case_prod_unfold intro!: step_intros step_stat_for_close
      step_close_handle step_update_tree tree_ok_remove_open)

lemma handle_read_returns: "returns (handle_read srv hdr body st)"
  unfolding handle_read_def by (auto simp: Let_def case_prod_unfold intro!: returns_intros)

lemma handle_write_returns: "returns (handle_write srv hdr body st)"
  unfolding handle_write_def by (auto simp: Let_def case_prod_unfold intro!: returns_intros)

lemma handle_flush_returns: "returns (handle_flush srv hdr body st)"
  unfolding handle_flush_def by (auto simp: Let_def case_prod_unfold intro!: returns_intros)

lemma handle_close_returns: "returns (handle_close srv hdr body st)"
  unfolding handle_close_def by (auto simp: Let_def case_prod_unfold intro!: returns_intros)

interpretation file_read: handler handle_read
  by unfold_locales (rule handle_read_step, rule handle_read_returns)

interpretation file_write: handler handle_write
  by unfold_locales (rule handle_write_step, rule handle_write_returns)

interpretation file_flush: handler handle_flush
  by unfold_locales (rule handle_flush_step, rule handle_flush_returns)

interpretation file_close: handler handle_close
  by unfold_locales (rule handle_close_step, rule handle_close_returns)

section \<open>Properties\<close>

lemma unat_of_nat_u32: "n < 2 ^ 32 \<Longrightarrow> unat (of_nat n :: u32) = n"
  by (simp add: unat_of_nat take_bit_eq_mod)

lemma read_response_parse_for:
  "length dat < 2 ^ 32 \<Longrightarrow>
    read_response_parse (put_read_response (read_response_for dat)) = Some (read_response_for dat)"
  using read_response.parse_put [of "read_response_for dat" "[]"] unat_of_nat_u32 [of "length dat"]
  by (simp add: read_response_parse_def wf_read_response_def read_response_for_def)

lemma rdr_data_for: "rdr_data (read_response_for dat) = dat"
  by (simp add: read_response_for_def)

text \<open>What a successful READ has done.\<close>

lemma handle_read_ok:
  assumes "lookup_session_tree (st_conn st) hdr = Inr tree"
    and "handle_read srv hdr body st = (resp, st')" and "hr_status resp = STATUS_SUCCESS"
  obtains req op h dat where "read_request_parse body = Some req"
    "rdq_length req \<le> conn_max_read_size (st_conn st)"
    "lookup_open tree (rdq_file_id req) = Some op" "open_handle op = Some h"
    "h_read h (rdq_offset req) (rdq_length req) (st_world st) = (Inr dat, st_world st')"
    "resp = response_ok (put_read_response (read_response_for dat))" "st_conn st' = st_conn st"
proof -
  obtain req op h where req: "read_request_parse body = Some req"
      "rdq_length req \<le> conn_max_read_size (st_conn st)"
      and op: "lookup_open tree (rdq_file_id req) = Some op" "open_handle op = Some h"
      and io: "(let (r, st1) = run_io (h_read h (rdq_offset req) (rdq_length req)) st in
         or_fail (io_status r) st1 (\<lambda>dat.
           if dat = [] \<and> 0 < rdq_length req then (response_err STATUS_END_OF_FILE, st1)
           else (response_ok (put_read_response (read_response_for dat)), st1))) = (resp, st')"
    using assms unfolding handle_read_def
    by (auto simp: not_less split: if_splits dest!: or_fail_success)
  obtain dat where dat: "run_io (h_read h (rdq_offset req) (rdq_length req)) st = (Inr dat, st')"
      "resp = response_ok (put_read_response (read_response_for dat))"
    using io assms(3)
    by (auto split: prod.splits if_splits dest!: or_fail_success)
  show thesis using that [OF req op _ dat(2)] run_ioD [OF dat(1)] by simp
qed

text \<open>
  C9: READ returns what the file holds. When it succeeds, the reply parses to a message whose
  data is exactly what the backend read from the handle that the file identifier designates, at
  the requested offset; it has at most the requested number of bytes, which is at most the
  server's limit; neither the connection nor the stored data changes.
\<close>

theorem read_returns_stored_bytes:
  assumes "conn_ok (st_conn st)" and "lookup_session_tree (st_conn st) hdr = Inr tree"
    and "share_backend (sb_backend (tree_share tree)) view"
    and "handle_read srv hdr body st = (resp, st')" and "hr_status resp = STATUS_SUCCESS"
  shows "\<exists>req op h dat. read_request_parse body = Some req \<and>
    lookup_open tree (rdq_file_id req) = Some op \<and> open_handle op = Some h \<and>
    h_read h (rdq_offset req) (rdq_length req) (st_world st) = (Inr dat, st_world st') \<and>
    map_option rdr_data (read_response_parse (hr_body resp)) = Some dat \<and>
    length dat \<le> unat (rdq_length req) \<and> rdq_length req \<le> conn_max_read_size (st_conn st) \<and>
    st_conn st' = st_conn st \<and> view (st_world st') = view (st_world st)"
proof -
  obtain req op h dat where req: "read_request_parse body = Some req"
      "rdq_length req \<le> conn_max_read_size (st_conn st)"
      and op: "lookup_open tree (rdq_file_id req) = Some op" "open_handle op = Some h"
      and r: "h_read h (rdq_offset req) (rdq_length req) (st_world st) = (Inr dat, st_world st')"
        "st_conn st' = st_conn st"
      and resp: "resp = response_ok (put_read_response (read_response_for dat))"
    using handle_read_ok [OF assms(2,4,5)] by metis
  have h: "opened_by (sb_backend (tree_share tree)) h"
    using lookup_open_ok [OF assms(1,2) op(1)] op(2) by (simp add: open_ok_def)
  note bound = share_backend.read_bound [OF assms(3) h r(1)]
  have "read_response_parse (hr_body resp) = Some (read_response_for dat)"
    using share_backend.read_length [OF assms(3) h r(1)] by (simp add: resp read_response_parse_for)
  moreover have "view (st_world st') = view (st_world st)"
    using share_backend.read_view [OF assms(3) h] r(1) by (metis snd_conv)
  ultimately show ?thesis
    using req op r bound by (auto simp: read_response_for_def)
qed

definition sample_read :: read_request where
  "sample_read = \<lparr>rdq_structure_size = 49, rdq_padding = 0, rdq_flags = 0, rdq_length = 2,
     rdq_offset = 1, rdq_file_id = fid1, rdq_minimum_count = 0, rdq_channel = 0,
     rdq_remaining_bytes = 0, rdq_read_channel_info_offset = 0,
     rdq_read_channel_info_length = 0, rdq_buffer = [0]\<rparr>"

lemma sample_read_parse [simp]: "read_request_parse (put_read_request sample_read) = Some sample_read"
  using read_request.parse_put [of sample_read "[]"]
  by (simp add: read_request_parse_def wf_read_request_def sample_read_def)

lemma sample_read_simps [simp]:
  "rdq_length sample_read = 2" "rdq_offset sample_read = 1" "rdq_file_id sample_read = fid1"
  by (simp_all add: sample_read_def)

lemma sample_mem_read: "mem_read sample_file 1 2 sample_fs = (Inr [2, 3], sample_fs)"
  using sample_file_data by (simp add: mem_read_def sample_file_def slice_def Let_def)

lemma sample_read_io [simp]:
  "run_io (h_read (mem_handle_of sample_file) 1 2) (mem_st a d) = (Inr [2, 3], mem_st a d)"
  by (simp add: run_io_def mem_handle_of_def sample_mem_read)

theorem read_returns_stored_bytes_witness:
  "map_option rdr_data (read_response_parse (hr_body (fst (handle_read mem_server (hdr1 Read)
     (put_read_request sample_read) (mem_st ReadOnlyAccess False))))) = Some [2, 3]"
proof -
  have run: "handle_read mem_server (hdr1 Read) (put_read_request sample_read)
        (mem_st ReadOnlyAccess False)
      = (response_ok (put_read_response (read_response_for [2, 3])), mem_st ReadOnlyAccess False)"
    by (simp add: handle_read_def)
  then show ?thesis
    using read_returns_stored_bytes [OF _ _ _ run, of "sample_tree ReadOnlyAccess False" "\<lambda>g. g"]
      memfs.share_backend_axioms
    by (auto simp: mem_handle_of_def sample_mem_read)
qed

definition write_target ::
    "'w connection \<Rightarrow> smb2_header \<Rightarrow> bytes \<Rightarrow> ('w handle \<times> write_request) option" where
  "write_target c hdr body =
     (case write_request_parse body of
        None \<Rightarrow> None
      | Some req \<Rightarrow>
          (case lookup_session_tree c hdr of
             Inl _ \<Rightarrow> None
           | Inr tree \<Rightarrow>
               if wrq_length req \<le> conn_max_write_size c \<and> tree_granted_access tree = ReadWriteAccess
               then map_option (\<lambda>h. (h, req))
                 (Option.bind (lookup_open tree (wrq_file_id req)) open_handle)
               else None))"

lemma wrr_count_new [simp]: "wrr_count (write_response_new n) = n"
  by (simp add: write_response_new_def)

lemma write_response_parse_new [simp]:
  "write_response_parse (put_write_response (write_response_new n)) = Some (write_response_new n)"
  using write_response.parse_put [of "write_response_new n" "[]"]
  by (simp add: write_response_parse_def wf_write_response_def)

definition sample_write :: write_request where
  "sample_write = \<lparr>wrq_structure_size = 49, wrq_data_offset = 0x70, wrq_length = 3,
     wrq_offset = 1, wrq_file_id = fid1, wrq_channel = 0, wrq_remaining_bytes = 0,
     wrq_write_channel_info_offset = 0, wrq_write_channel_info_length = 0, wrq_flags = 0,
     wrq_data = [9, 8, 7]\<rparr>"

lemma sample_write_parse [simp]:
  "write_request_parse (put_write_request sample_write) = Some sample_write"
  using write_request.parse_put [of sample_write "[]"]
  by (simp add: write_request_parse_def wf_write_request_def sample_write_def)

lemma sample_write_simps [simp]:
  "wrq_length sample_write = 3" "wrq_offset sample_write = 1" "wrq_file_id sample_write = fid1"
  "wrq_data sample_write = [9, 8, 7]"
  by (simp_all add: sample_write_def)

lemma sample_write_run:
  "\<exists>st1. handle_write mem_server (hdr1 Write) (put_write_request sample_write)
      (mem_st ReadWriteAccess False) = (response_ok (put_write_response (write_response_new 3)), st1) \<and>
    st_conn st1 = mem_conn ReadWriteAccess False \<and>
    st_world st1 = mem_store sample_file [1, 9, 8, 7] sample_fs"
proof -
  have "mem_write sample_file 1 [9, 8, 7] sample_fs = (Inr 3, mem_store sample_file [1, 9, 8, 7] sample_fs)"
    using mem_write_eq [OF _ sample_file_data, of 1 "[9, 8, 7]"]
    by (simp add: sample_file_def written_def patch_def resize_def)
  then show ?thesis
    by (simp add: handle_write_def Let_def run_io_def mem_handle_of_def)
qed

text \<open>What a successful WRITE has done.\<close>

lemma handle_write_ran:
  assumes "lookup_session_tree (st_conn st) hdr = Inr tree" and "write_request_parse body = Some wreq"
    and "handle_write srv hdr body st = (resp, st1)" and "hr_status resp = STATUS_SUCCESS"
  obtains op h n where "lookup_open tree (wrq_file_id wreq) = Some op" "open_handle op = Some h"
    "h_write h (wrq_offset wreq) (wrq_data wreq) (st_world st) = (Inr n, st_world st1)"
    "st_conn st1 = st_conn st" "resp = response_ok (put_write_response (write_response_new n))"
proof -
  let ?st = "record_event srv (WriteEvent (file_id_bytes (wrq_file_id wreq)) (wrq_offset wreq)
    (wrq_length wreq)) st"
  obtain op h where op: "lookup_open tree (wrq_file_id wreq) = Some op" "open_handle op = Some h"
      and io: "(let (r, st1) = run_io (h_write h (wrq_offset wreq) (wrq_data wreq)) ?st in
         or_fail (io_status r) st1 (\<lambda>count.
           (response_ok (put_write_response (write_response_new count)), st1))) = (resp, st1)"
    using assms unfolding handle_write_def
    by (auto simp: Let_def split: if_splits dest!: or_fail_success)
  obtain k where "run_io (h_write h (wrq_offset wreq) (wrq_data wreq)) ?st = (Inr k, st1)"
      "resp = response_ok (put_write_response (write_response_new k))"
    using io assms(4) by (auto split: prod.splits if_splits dest!: or_fail_success)
  then show thesis using that [OF op] run_ioD by fastforce
qed

lemma handle_write_ok:
  assumes "lookup_session_tree (st_conn st) hdr = Inr tree" and "write_request_parse body = Some wreq"
    and "handle_write srv hdr body st = (resp, st1)" and "hr_status resp = STATUS_SUCCESS"
    and "map_option wrr_count (write_response_parse (hr_body resp)) = Some n"
  shows "\<exists>op h. lookup_open tree (wrq_file_id wreq) = Some op \<and> open_handle op = Some h \<and>
    h_write h (wrq_offset wreq) (wrq_data wreq) (st_world st) = (Inr n, st_world st1) \<and>
    st_conn st1 = st_conn st"
  by (rule handle_write_ran [OF assms(1-4)]) (use assms(5) in auto)

text \<open>
  C2: WRITE reaches the backend only through a tree with write access, and reports what the
  backend did. Unless the request parses, stays within the server's limit and designates, in a
  tree with read-write access, an open with a handle, it fails and the stored data is untouched;
  otherwise the one effect is the backend's write of the request's data at the request's offset,
  and the status, and on success the count in the reply, are the backend's.
\<close>

theorem write_guarded:
  "case handle_write srv hdr body st of (resp, st') \<Rightarrow> st_conn st' = st_conn st \<and>
    (case write_target (st_conn st) hdr body of
       None \<Rightarrow> hr_status resp \<noteq> STATUS_SUCCESS \<and> st_world st' = st_world st
     | Some (h, req) \<Rightarrow>
         (case h_write h (wrq_offset req) (wrq_data req) (st_world st) of
            (Inl e, w) \<Rightarrow> hr_status resp = to_nt_status e \<and> st_world st' = w
          | (Inr n, w) \<Rightarrow> hr_status resp = STATUS_SUCCESS \<and> st_world st' = w \<and>
              map_option wrr_count (write_response_parse (hr_body resp)) = Some n))"
proof (cases "write_request_parse body")
  case None
  then show ?thesis by (simp add: handle_write_def write_target_def)
next
  case (Some req)
  note parsed = Some
  show ?thesis
  proof (cases "lookup_session_tree (st_conn st) hdr")
    case (Inl s)
    then show ?thesis
      using parsed lookup_fails(2) [of "st_conn st" hdr]
      by (auto simp: handle_write_def write_target_def Let_def)
  next
    case (Inr tree)
    show ?thesis
    proof (cases "Option.bind (lookup_open tree (wrq_file_id req)) open_handle")
      case None
      then show ?thesis
        using parsed Inr by (cases "lookup_open tree (wrq_file_id req)")
          (auto simp: handle_write_def write_target_def Let_def not_less)
    next
      case (Some h)
      then obtain op where "lookup_open tree (wrq_file_id req) = Some op" "open_handle op = Some h"
        by (auto simp: bind_eq_Some_conv)
      moreover obtain r w where "h_write h (wrq_offset req) (wrq_data req) (st_world st) = (r, w)"
        by fastforce
      ultimately show ?thesis
        using parsed Inr by (cases r) (auto simp: handle_write_def write_target_def Let_def not_less
            run_io_def)
    qed
  qed
qed

text \<open>
  A request to write no bytes stores one: the parser takes the filler byte that has to be present
  on the wire for the data, and the handler passes it on.
\<close>

definition empty_write :: write_request where
  "empty_write = \<lparr>wrq_structure_size = 49, wrq_data_offset = 0x70, wrq_length = 0,
     wrq_offset = 0, wrq_file_id = fid1, wrq_channel = 0, wrq_remaining_bytes = 0,
     wrq_write_channel_info_offset = 0, wrq_write_channel_info_length = 0, wrq_flags = 0,
     wrq_data = [0]\<rparr>"

lemma empty_write_stores_a_byte:
  "st_world (snd (handle_write mem_server (hdr1 Write) (put_write_request empty_write)
     (mem_st ReadWriteAccess False))) = mem_store sample_file [0, 2, 3] sample_fs"
proof -
  have "write_request_parse (put_write_request empty_write) = Some empty_write"
    using write_request.parse_put [of empty_write "[]"]
    by (simp add: write_request_parse_def wf_write_request_def empty_write_def)
  moreover have "mem_write sample_file 0 [0] sample_fs
      = (Inr 1, mem_store sample_file [0, 2, 3] sample_fs)"
    using mem_write_eq [OF _ sample_file_data, of 0 "[0]"]
    by (simp add: sample_file_def written_def patch_def)
  ultimately show ?thesis
    by (simp add: handle_write_def Let_def run_io_def mem_handle_of_def empty_write_def)
qed

text \<open>
  C25: CLOSE ends an open and nothing else. When it succeeds, the open that the file identifier
  designates is gone from its tree and every other open of the tree is as before; the stored data
  changes only when the open was marked for deletion, and then what remains to be done is exactly
  the backend's unlink of the path the open is recorded under.
\<close>

theorem close_ends_one_open:
  assumes "conn_ok (st_conn st)" and "lookup_session_tree (st_conn st) hdr = Inr tree"
    and "share_backend (sb_backend (tree_share tree)) view"
    and "handle_close srv hdr body st = (resp, st')" and "hr_status resp = STATUS_SUCCESS"
  shows "\<exists>req op tree' w. close_request_parse body = Some req \<and>
    lookup_open tree (clq_file_id req) = Some op \<and>
    lookup_session_tree (st_conn st') hdr = Inr tree' \<and>
    (\<forall>fid. lookup_open tree' fid =
      (if fid = clq_file_id req then None else lookup_open tree fid)) \<and>
    view w = view (st_world st) \<and>
    st_world st' = (if open_delete_on_close op
      then snd (be_unlink (sb_backend (tree_share tree)) (open_last_path op) w) else w)"
proof -
  obtain req op where req: "close_request_parse body = Some req"
      and op: "lookup_open tree (clq_file_id req) = Some op"
    using assms(2,4,5) unfolding handle_close_def
    by (auto simp: Let_def dest!: or_fail_success)
  let ?f = "\<lambda>t. t\<lparr>tree_opens := tbl_remove (clq_file_id req) (tree_opens t)\<rparr>"
  define st1 where "st1 = record_event srv (CloseEvent (file_id_bytes (clq_file_id req))
    (open_delete_on_close op) (display_backslash (open_last_path op)))
    (put_conn (update_tree hdr ?f (st_conn st)) st)"
  define st3 where "st3 = close_handle (open_handle op) (snd (stat_for_close
    (clq_flags req AND FLAG_POSTQUERY_ATTRIB \<noteq> 0) (open_handle op) st1))"
  have st': "st' = (if open_delete_on_close op
      then snd (run_io (be_unlink (sb_backend (tree_share tree)) (open_last_path op)) st3) else st3)"
    using assms(2,4) req op
    by (auto simp: handle_close_def Let_def case_prod_unfold st1_def st3_def)
  have h: "opened_by (sb_backend (tree_share tree)) h" if "open_handle op = Some h" for h
    using lookup_open_ok [OF assms(1,2) op] that by (simp add: open_ok_def)
  have quiet: "view (st_world st3) = view (st_world st)"
    using share_backend.stat_view [OF assms(3) h] share_backend.close_view [OF assms(3) h]
    by (auto simp: st3_def st1_def close_handle_def stat_for_close_def case_prod_unfold
        split: option.splits bool.splits)
  have conn3: "st_conn st3 = update_tree hdr ?f (st_conn st)"
    by (auto simp: st3_def st1_def close_handle_def stat_for_close_def case_prod_unfold
        split: option.splits bool.splits)
  then have conn: "st_conn st' = update_tree hdr ?f (st_conn st)" by (simp add: st')
  have "lookup_session_tree (st_conn st') hdr = Inr (?f tree)"
    using assms(2) by (auto simp: conn lookup_session_tree_Inr update_tree_get)
  moreover have "lookup_open (?f tree) fid
      = (if fid = clq_file_id req then None else lookup_open tree fid)" for fid
    by (simp add: lookup_open_def)
  ultimately show ?thesis using req op quiet st' by (auto intro!: exI [of _ "st_world st3"])
qed

definition sample_close :: close_request where
  "sample_close = \<lparr>clq_structure_size = 24, clq_flags = 0, clq_reserved = 0, clq_file_id = fid1\<rparr>"

lemma sample_close_parse [simp]:
  "close_request_parse (put_close_request sample_close) = Some sample_close"
  using close_request.parse_put [of sample_close "[]"]
  by (simp add: close_request_parse_def wf_close_request_def sample_close_def)

theorem close_ends_one_open_witness:
  "\<exists>tree'. lookup_session_tree (st_conn (snd (handle_close mem_server (hdr1 Close)
     (put_close_request sample_close) (mem_st ReadOnlyAccess False)))) (hdr1 Close) = Inr tree' \<and>
     lookup_open tree' fid1 = None"
proof -
  let ?run = "handle_close mem_server (hdr1 Close) (put_close_request sample_close)
    (mem_st ReadOnlyAccess False)"
  have fid: "clq_file_id sample_close = fid1" by (simp add: sample_close_def)
  then have "hr_status (fst ?run) = STATUS_SUCCESS"
    by (simp add: handle_close_def Let_def case_prod_unfold)
  then show ?thesis
    using close_ends_one_open [OF _ _ _ prod.collapse [symmetric], of "mem_st ReadOnlyAccess False"
        "hdr1 Close" "sample_tree ReadOnlyAccess False" "\<lambda>g. g" mem_server
        "put_close_request sample_close"] memfs.share_backend_axioms fid
    by auto
qed

end
