(* ===== verification/Handlers_Query.thy ===== *)
theory Handlers_Query
  imports Sample_State Wildcard
begin

text \<open>
  Metadata: \<open>query_info.rs\<close>, \<open>set_info.rs\<close> and \<open>query_directory.rs\<close> of \<open>src/src/handlers\<close>.
\<close>

section \<open>QUERY_INFO\<close>

definition FILE_DEVICE_DISK :: u32 where "FILE_DEVICE_DISK = 0x00000007"
definition FILE_REMOTE_DEVICE :: u32 where "FILE_REMOTE_DEVICE = 0x00000010"
definition FILE_NAMED_STREAMS :: u32 where "FILE_NAMED_STREAMS = 0x00040000"

definition FS_BASE_ATTRIBUTES :: u32 where
  "FS_BASE_ATTRIBUTES = 0x00000001 OR 0x00000002 OR 0x00000004 OR 0x00000008 OR 0x00000010 OR
     0x00400000 OR 0x00800000"

definition query_file_buffer :: "u8 \<Rightarrow> u64 \<Rightarrow> file_info \<Rightarrow> u32 + bytes" where
  "query_file_buffer cls file_index i =
     (if cls = FILE_BASIC_INFORMATION then Inr (encode_file_basic_information i)
      else if cls = FILE_STANDARD_INFORMATION then Inr (encode_file_standard_information i)
      else if cls = FILE_INTERNAL_INFORMATION then Inr (encode_file_internal_information file_index)
      else if cls = FILE_EA_INFORMATION then Inr encode_file_ea_information
      else if cls = FILE_FULL_EA_INFORMATION then Inl STATUS_NO_EAS_ON_FILE
      else if cls = FILE_ACCESS_INFORMATION then Inr (encode_file_access_information 0x001F01FF)
      else if cls = FILE_POSITION_INFORMATION then Inr encode_file_position_information
      else if cls = FILE_MODE_INFORMATION then Inr (encode_file_mode_information 0)
      else if cls = FILE_ALIGNMENT_INFORMATION then Inr encode_file_alignment_information
      else if cls = FILE_NAME_INFORMATION then Inr (encode_file_name_information (fi_name i))
      else if cls = FILE_ALL_INFORMATION
      then Inr (encode_file_all_information i file_index 0x001F01FF)
      else if cls = FILE_NETWORK_OPEN_INFORMATION
      then Inr (encode_file_network_open_information i)
      else if cls = FILE_STREAM_INFORMATION then Inr (encode_file_stream_information i)
      else Inl STATUS_INVALID_INFO_CLASS)"

definition query_fs_buffer :: "u8 \<Rightarrow> u64 \<Rightarrow> backend_capabilities \<Rightarrow> u32 + bytes" where
  "query_fs_buffer cls creation_time caps =
     (if cls = FS_VOLUME_INFORMATION
      then Inr (encode_fs_volume_information creation_time 0xCAFEBABE (lit ''smb-server''))
      else if cls = FS_SIZE_INFORMATION
      then Inr (encode_fs_size_information (2 ^ 40) (2 ^ 39) 1 4096)
      else if cls = FS_DEVICE_INFORMATION
      then Inr (encode_fs_device_information FILE_DEVICE_DISK FILE_REMOTE_DEVICE)
      else if cls = FS_ATTRIBUTE_INFORMATION
      then Inr (encode_fs_attribute_information
        (if bc_supports_named_streams caps then FS_BASE_ATTRIBUTES OR FILE_NAMED_STREAMS
         else FS_BASE_ATTRIBUTES) 255 (lit ''NTFS''))
      else if cls = FS_FULL_SIZE_INFORMATION
      then Inr (encode_fs_full_size_information (2 ^ 40) (2 ^ 39) (2 ^ 39) 1 4096)
      else Inl STATUS_INVALID_INFO_CLASS)"

definition query_buffer ::
    "info_type \<Rightarrow> u8 \<Rightarrow> u64 \<Rightarrow> smb_error + file_info \<Rightarrow> backend_capabilities \<Rightarrow> u32 + bytes" where
  "query_buffer ty cls file_index info_res caps =
     (case ty of
        FileInfoType \<Rightarrow> attempt (io_status info_res) (query_file_buffer cls file_index)
      | FileSystemInfoType \<Rightarrow>
          query_fs_buffer cls (case info_res of Inr i \<Rightarrow> fi_creation_time i | Inl _ \<Rightarrow> 0) caps
      | SecurityInfoType \<Rightarrow> Inr encode_minimal_security_descriptor
      | QuotaInfoType \<Rightarrow> Inl STATUS_NOT_SUPPORTED)"

definition query_info_response_for :: "bytes \<Rightarrow> query_info_response" where
  "query_info_response_for buf =
     \<lparr>qir_structure_size = 9, qir_output_buffer_offset = 72,
      qir_output_buffer_length = of_nat (length buf), qir_buffer = buf\<rparr>"

definition handle_query_info :: "'w server \<Rightarrow> smb2_header \<Rightarrow> bytes \<Rightarrow> 'w st \<Rightarrow> 'w handled" where
  "handle_query_info srv hdr body st =
     or_fail (or_status STATUS_INVALID_PARAMETER (query_info_request_parse body)) st (\<lambda>req.
     or_fail (or_status STATUS_INVALID_INFO_CLASS (info_type_from_u8 (qiq_info_type req))) st (\<lambda>ty.
     or_fail (lookup_session_tree (st_conn st) hdr) st (\<lambda>tree.
     or_fail (or_status STATUS_FILE_CLOSED (lookup_open tree (qiq_file_id req))) st (\<lambda>op.
     or_fail (or_status STATUS_FILE_CLOSED (open_handle op)) st (\<lambda>h.
       let (info_res, st1) = run_io (h_stat h) st in
       or_fail (query_buffer ty (qiq_file_information_class req)
           (fid_volatile (open_file_id op)) info_res
           (be_capabilities (sb_backend (tree_share tree)))) st1 (\<lambda>buf.
         if qiq_output_buffer_length req < of_nat (length buf)
         then (response_err STATUS_INFO_LENGTH_MISMATCH, st1)
         else (response_ok (put_query_info_response (query_info_response_for buf)), st1)))))))"

section \<open>SET_INFO\<close>

definition to_some_time :: "u64 \<Rightarrow> u64 option" where
  "to_some_time v = (if v = 0 \<or> v = - 1 then None else Some v)"

text \<open>The slices of the buffer; \<open>None\<close> is the panic of one that is out of bounds.\<close>

definition times_of_buffer :: "bytes \<Rightarrow> file_times option" where
  "times_of_buffer b = do {
     creation \<leftarrow> get_range 0 8 b;
     access \<leftarrow> get_range 8 8 b;
     write \<leftarrow> get_range 16 8 b;
     change \<leftarrow> get_range 24 8 b;
     Some \<lparr>ft_creation_time = to_some_time (de64 creation),
      ft_last_access_time = to_some_time (de64 access),
      ft_last_write_time = to_some_time (de64 write),
      ft_change_time = to_some_time (de64 change)\<rparr> }"

text \<open>The new path of a rename buffer.\<close>

definition rename_path :: "bytes \<Rightarrow> (u32 + smb_path) option" where
  "rename_path b =
     (if length b < 20 then Some (Inl STATUS_INFO_LENGTH_MISMATCH)
      else do {
        len \<leftarrow> get_range 16 4 b;
        let name_len = unat (de32 len);
        if length b < 20 + name_len then Some (Inl STATUS_INFO_LENGTH_MISMATCH)
        else do {
          name_bytes \<leftarrow> get_range 20 name_len b;
          Some (wire_path name_bytes) } })"

definition finish_set_info :: "smb_error + unit \<Rightarrow> 'w st \<Rightarrow> 'w handled" where
  "finish_set_info r st =
     or_fail (io_status r) st (\<lambda>_. (response_ok (put_set_info_response set_info_response_default), st))"

definition set_rename ::
    "'w server \<Rightarrow> smb2_header \<Rightarrow> file_id \<Rightarrow> 'w backend \<Rightarrow> smb_path \<Rightarrow> bytes \<Rightarrow> 'w st \<Rightarrow> 'w handled"
    where
  "set_rename srv hdr fid b from_path buffer st =
     or_panic (rename_path buffer) st (\<lambda>name. or_fail name st (\<lambda>new_path.
     or_panic (get_at 0 buffer) st (\<lambda>first.
       let replace_if_exists = (first \<noteq> 0);
           st1 = record_event srv (SetInfoRenameEvent replace_if_exists
             (display_backslash new_path) (display_backslash from_path)) st;
           (r, st2) = run_io (be_rename b from_path new_path replace_if_exists) st1
       in case r of
            Inr u \<Rightarrow> finish_set_info (Inr u) (put_conn (update_open hdr fid
              (\<lambda>op. op\<lparr>open_last_path := new_path\<rparr>) (st_conn st2)) st2)
          | Inl e \<Rightarrow> finish_set_info (Inl e) st2)))"

definition handle_set_info :: "'w server \<Rightarrow> smb2_header \<Rightarrow> bytes \<Rightarrow> 'w st \<Rightarrow> 'w handled" where
  "handle_set_info srv hdr body st =
     or_fail (or_status STATUS_INVALID_PARAMETER (set_info_request_parse body)) st (\<lambda>req.
     or_fail (or_status STATUS_INVALID_INFO_CLASS (info_type_from_u8 (siq_info_type req))) st (\<lambda>ty.
       if ty \<noteq> FileInfoType then (response_err STATUS_NOT_SUPPORTED, st)
       else
       or_fail (lookup_session_tree (st_conn st) hdr) st (\<lambda>tree.
       or_fail (or_status STATUS_FILE_CLOSED (lookup_open tree (siq_file_id req))) st (\<lambda>op.
         let cls = siq_file_information_class req;
             buffer = siq_buffer req;
             fid = siq_file_id req;
             st1 = (if cls \<noteq> FILE_RENAME_INFORMATION
                    then record_event srv (SetInfoOtherEvent cls) st else st)
         in
         if cls = FILE_BASIC_INFORMATION then
           if length buffer < 36 then (response_err STATUS_INFO_LENGTH_MISMATCH, st1)
           else or_panic (times_of_buffer buffer) st1 (\<lambda>ts.
             or_fail (or_status STATUS_FILE_CLOSED (open_handle op)) st1 (\<lambda>h.
             let (r, st2) = run_io (h_set_times h ts) st1
             in finish_set_info r st2))
         else if cls = FILE_END_OF_FILE_INFORMATION then
           if length buffer < 8 then (response_err STATUS_INFO_LENGTH_MISMATCH, st1)
           else or_panic (get_range 0 8 buffer) st1 (\<lambda>len_bytes.
             or_fail (or_status STATUS_FILE_CLOSED (open_handle op)) st1 (\<lambda>h.
             let (r, st2) = run_io (h_truncate h (de64 len_bytes)) st1
             in finish_set_info r st2))
         else if cls = FILE_DISPOSITION_INFORMATION then
           if buffer = [] then (response_err STATUS_INFO_LENGTH_MISMATCH, st1)
           else or_panic (get_at 0 buffer) st1 (\<lambda>first.
             finish_set_info (Inr ()) (put_conn (update_open hdr fid
               (\<lambda>op. op\<lparr>open_delete_on_close := (first \<noteq> 0)\<rparr>) (st_conn st1)) st1))
         else if cls = FILE_RENAME_INFORMATION then
           set_rename srv hdr fid (sb_backend (tree_share tree)) (open_last_path op) buffer st1
         else if cls = FILE_ALLOCATION_INFORMATION then finish_set_info (Inr ()) st1
         else (response_err STATUS_NOT_SUPPORTED, st1)))))"

section \<open>QUERY_DIRECTORY\<close>

text \<open>
  The loop that fills the output buffer: it returns the next cursor position and the buffer.
  \<open>last_pos\<close> is the position of the previous entry, whose \<open>NextEntryOffset\<close> is patched when one
  more entry is appended.
\<close>

fun fill_entries ::
    "u8 \<Rightarrow> nat \<Rightarrow> bool \<Rightarrow> dir_entry list \<Rightarrow> nat \<Rightarrow> bytes \<Rightarrow> nat option \<Rightarrow> (nat \<times> bytes) option"
    where
  "fill_entries cls cap single [] nxt buf last_pos = Some (nxt, buf)"
| "fill_entries cls cap single (e # es) nxt buf last_pos =
     (let enc = encode_dir_entry cls e (fi_file_index e) in
      if enc = [] then fill_entries cls cap single es (nxt + 1) buf last_pos
      else
        let entry_aligned = align_up8 (length enc);
            prev_len = length buf;
            total_after = prev_len + entry_aligned
        in if cap < total_after \<and> buf \<noteq> [] then Some (nxt, buf)
           else do {
             buf1 \<leftarrow> (case last_pos of
                 Some p \<Rightarrow> write_at p (le32 (of_nat (prev_len - p))) buf
               | None \<Rightarrow> Some buf);
             let buf2 = buf1 @ enc @ replicate (entry_aligned - length enc) 0;
             if single then Some (nxt + 1, buf2)
             else fill_entries cls cap single es (nxt + 1) buf2 (Some prev_len) })"

definition search_pattern :: "query_directory_request \<Rightarrow> rstring option" where
  "search_pattern req =
     (let p = utf16le_to_string (qdq_file_name req)
      in if p = [] \<or> p = lit ''*'' then None else Some p)"

definition matches_pattern :: "rstring option \<Rightarrow> dir_entry \<Rightarrow> bool" where
  "matches_pattern pattern e =
     (case pattern of None \<Rightarrow> True | Some p \<Rightarrow> dos_pattern_matches p (fi_name e) = Some True)"

text \<open>The cursor to continue with: the one of the open, or a fresh listing.\<close>

definition refresh_cursor ::
    "rstring option \<Rightarrow> bool \<Rightarrow> 'w open_file \<Rightarrow> 'w st \<Rightarrow> (u32 + dir_cursor) \<times> 'w st" where
  "refresh_cursor pattern restart op st =
     (if \<not> open_is_directory op then (Inl STATUS_INVALID_PARAMETER, st)
      else case (open_search_state op, restart) of
        (Some cursor, False) \<Rightarrow> (Inr cursor, st)
      | _ \<Rightarrow>
          (case open_handle op of
             None \<Rightarrow> (Inl STATUS_FILE_CLOSED, st)
           | Some h \<Rightarrow>
               (let (r, st1) = run_io (h_list_dir h pattern) st
                in (attempt (io_status r) (\<lambda>entries. Inr
                      \<lparr>dc_entries = filter (matches_pattern pattern) entries, dc_next = 0,
                       dc_pattern = pattern\<rparr>), st1))))"

definition query_directory_response_for :: "bytes \<Rightarrow> query_directory_response" where
  "query_directory_response_for buf =
     \<lparr>qdr_structure_size = 9, qdr_output_buffer_offset = 72,
      qdr_output_buffer_length = of_nat (length buf), qdr_buffer = buf\<rparr>"

definition handle_query_directory ::
    "'w server \<Rightarrow> smb2_header \<Rightarrow> bytes \<Rightarrow> 'w st \<Rightarrow> 'w handled" where
  "handle_query_directory srv hdr body st =
     or_fail (or_status STATUS_INVALID_PARAMETER (query_directory_request_parse body)) st (\<lambda>req.
     or_fail (or_status STATUS_INVALID_INFO_CLASS
         (file_info_class_from_u8 (qdq_file_information_class req))) st (\<lambda>_.
     or_fail (lookup_session_tree (st_conn st) hdr) st (\<lambda>tree.
     or_fail (or_status STATUS_FILE_CLOSED (lookup_open tree (qdq_file_id req))) st (\<lambda>op.
       let restart = (qdq_flags req AND FLAG_RESTART_SCANS \<noteq> 0 \<or>
                      qdq_flags req AND FLAG_REOPEN \<noteq> 0);
           single = (qdq_flags req AND FLAG_RETURN_SINGLE_ENTRY \<noteq> 0);
           (r, st1) = refresh_cursor (search_pattern req) restart op st in
       or_fail r st1 (\<lambda>cursor.
       or_panic (fill_entries (qdq_file_information_class req)
           (unat (qdq_output_buffer_length req)) single
           (drop (dc_next cursor) (dc_entries cursor)) (dc_next cursor) [] None) st1 (\<lambda>(nxt, buf).
         let st2 = put_conn (update_open hdr (qdq_file_id req)
               (\<lambda>op. op\<lparr>open_search_state := Some (cursor\<lparr>dc_next := nxt\<rparr>)\<rparr>) (st_conn st1)) st1
         in if buf = [] then (response_err STATUS_NO_MORE_FILES, st2)
            else (response_ok (put_query_directory_response (query_directory_response_for buf)),
                  st2)))))))"

section \<open>The contract\<close>

lemma handle_query_info_step: "step_ok srv hdr st (snd (handle_query_info srv hdr body st))"
  unfolding handle_query_info_def by (auto simp: Let_def case_prod_unfold intro!: step_intros)

lemma step_finish: "step_ok srv hdr st st' \<Longrightarrow> step_ok srv hdr st (snd (finish_set_info r st'))"
  by (cases r) (simp_all add: finish_set_info_def)

lemma open_ok_fields:
  "open_ok b g fid op \<Longrightarrow> open_ok b g fid (op\<lparr>open_delete_on_close := d\<rparr>)"
  "open_ok b g fid op \<Longrightarrow> open_ok b g fid (op\<lparr>open_search_state := s\<rparr>)"
  "open_ok b g fid op \<Longrightarrow> valid_path p \<Longrightarrow> open_ok b g fid (op\<lparr>open_last_path := p\<rparr>)"
  by (simp_all add: open_ok_def)

lemma rename_path_valid: "rename_path b = Some (Inr p) \<Longrightarrow> valid_path p"
  by (auto simp: rename_path_def Let_def wire_path_valid Option.bind_eq_Some_conv split: if_splits)

lemma set_rename_step:
  "step_ok srv hdr st st' \<Longrightarrow>
    step_ok srv hdr st (snd (set_rename srv hdr fid b from_path buffer st'))"
  unfolding set_rename_def
  by (auto simp: Let_def case_prod_unfold split: sum.splits intro!: step_intros step_finish
      step_update_open open_ok_fields dest: rename_path_valid)

lemma handle_set_info_step: "step_ok srv hdr st (snd (handle_set_info srv hdr body st))"
  unfolding handle_set_info_def
  by (auto simp: Let_def case_prod_unfold intro!: step_intros step_finish set_rename_step
      step_update_open open_ok_fields)

lemma step_refresh:
  "step_ok srv hdr st st' \<Longrightarrow> step_ok srv hdr st (snd (refresh_cursor pattern restart op st'))"
  by (auto simp: refresh_cursor_def case_prod_unfold Let_def split: option.splits bool.splits)

lemma handle_query_directory_step:
  "step_ok srv hdr st (snd (handle_query_directory srv hdr body st))"
  unfolding handle_query_directory_def
  by (auto simp: Let_def case_prod_unfold intro!: step_intros step_refresh step_update_open
      open_ok_fields)

text \<open>
  The tests of the lengths guard every slice of SET_INFO, and the offsets that QUERY_DIRECTORY
  patches are those of entries it has written.
\<close>

lemma times_of_buffer_total [simp]: "(\<exists>t. times_of_buffer b = Some t) \<longleftrightarrow> 32 \<le> length b"
  by (simp add: times_of_buffer_def get_range_def)

lemma rename_path_total: "rename_path b \<noteq> None"
  by (simp add: rename_path_def Let_def)

lemma rename_path_length: "rename_path b = Some (Inr p) \<Longrightarrow> 20 \<le> length b"
  by (auto simp: rename_path_def split: if_splits)

lemma finish_returns [simp, intro!]: "returns (finish_set_info r st)"
  unfolding finish_set_info_def by (rule returns_or_fail) simp

lemma set_rename_returns: "returns (set_rename srv hdr fid b from_path buffer st)"
  unfolding set_rename_def
  by (intro returns_intros rename_path_total)
    (auto simp: Let_def case_prod_unfold get_at_def dest!: rename_path_length split: sum.splits)

lemma handle_set_info_returns: "returns (handle_set_info srv hdr body st)"
  unfolding handle_set_info_def
  by (auto simp: Let_def case_prod_unfold get_at_def get_range_def
      intro!: returns_intros set_rename_returns)

lemma length_dir_entry: "encode_dir_entry cls e i \<noteq> [] \<Longrightarrow> 4 \<le> length (encode_dir_entry cls e i)"
  using encode_dir_entry_next(1) [of cls e i] by (simp add: encode_dir_entry_Nil_iff)

lemma fill_entries_total:
  "(case last_pos of Some p \<Rightarrow> p + 4 \<le> length buf | None \<Rightarrow> True) \<Longrightarrow>
    fill_entries cls cap single es nxt buf last_pos \<noteq> None"
proof (induction es arbitrary: nxt buf last_pos)
  case (Cons e es)
  let ?enc = "encode_dir_entry cls e (fi_file_index e)"
  show ?case
  proof (cases "?enc = []")
    case False
    then have "4 \<le> length ?enc" by (rule length_dir_entry)
    then have rest: "fill_entries cls cap single es (Suc nxt) (b @ ?enc @ p) (Some (length buf)) \<noteq> None"
      if "length b = length buf" for b p
      using that by (intro Cons.IH) simp
    show ?thesis
      using False Cons.prems rest [of buf] rest [OF length_patch]
      by (cases last_pos; cases single) (auto simp: Let_def)
  qed (use Cons in simp)
qed simp

lemma handle_query_info_returns: "returns (handle_query_info srv hdr body st)"
  unfolding handle_query_info_def
  by (auto simp: Let_def case_prod_unfold intro!: returns_intros)

lemma handle_query_directory_returns:
  "returns (handle_query_directory srv hdr body st)"
  unfolding handle_query_directory_def
  by (auto simp: Let_def case_prod_unfold simp del: fill_entries.simps
      intro!: returns_intros fill_entries_total)

interpretation query_info: handler handle_query_info
  by unfold_locales (rule handle_query_info_step, rule handle_query_info_returns)

interpretation set_info: handler handle_set_info
  by unfold_locales (rule handle_set_info_step, rule handle_set_info_returns)

interpretation query_directory: handler handle_query_directory
  by unfold_locales (rule handle_query_directory_step, rule handle_query_directory_returns)

section \<open>The directory buffer as a chain\<close>

text \<open>An entry as it is stored: padded to a multiple of eight.\<close>

definition padded :: "u8 \<Rightarrow> dir_entry \<Rightarrow> bytes" where
  "padded cls e = (let enc = encode_dir_entry cls e (fi_file_index e)
     in enc @ replicate (align_up8 (length enc) - length enc) 0)"

fun chain :: "bytes list \<Rightarrow> bytes" where
  "chain [] = []"
| "chain [x] = x"
| "chain (x # y # xs) = le32 (of_nat (length x)) @ drop 4 x @ chain (y # xs)"

text \<open>The client's walk along the \<open>NextEntryOffset\<close> fields: what follows each of them.\<close>

function read_chain :: "bytes \<Rightarrow> bytes list" where
  "read_chain b =
     (let n = unat (de32 (take 4 b)) in
      if n = 0 \<or> length b \<le> n then [drop 4 b] else slice 4 (n - 4) b # read_chain (drop n b))"
  by pat_completeness auto
termination
  by (relation "measure length") auto

declare read_chain.simps [simp del]

definition chain_item :: "bytes \<Rightarrow> bool" where
  "chain_item x \<longleftrightarrow> 4 \<le> length x \<and> take 4 x = le32 0 \<and> length x < 2 ^ 32"

lemma chain_item_split: "chain_item x \<Longrightarrow> x = le32 0 @ drop 4 x"
  unfolding chain_item_def by (metis append_take_drop_id)

lemma length_chain: "list_all chain_item xs \<Longrightarrow> length (chain xs) = sum_list (map length xs)"
  by (induction xs rule: chain.induct) (auto simp: chain_item_def)

lemma read_chain_chain:
  "xs \<noteq> [] \<Longrightarrow> list_all chain_item xs \<Longrightarrow> read_chain (chain xs) = map (drop 4) xs"
proof (induction xs rule: chain.induct)
  case (2 x)
  then have "take 4 x = le32 0" by (simp add: chain_item_def)
  then show ?case by (simp add: read_chain.simps [of x] Let_def)
next
  case (3 x y xs)
  let ?r = "chain (y # xs)"
  have x: "4 \<le> length x" "length x < 2 ^ 32" using "3.prems" by (simp_all add: chain_item_def)
  have n: "unat (of_nat (length x) :: u32) = length x"
    using x(2) by (simp add: unat_of_nat take_bit_eq_mod)
  have "length ?r = length y + sum_list (map length xs)" "4 \<le> length y"
    using length_chain [of "y # xs"] "3.prems" by (simp_all add: chain_item_def [of y])
  then have r: "0 < length ?r" by linarith
  have "read_chain (chain (x # y # xs)) = drop 4 x # read_chain ?r"
    using x r n by (subst read_chain.simps) (auto simp add: Let_def slice_def)
  then show ?case using "3.IH" "3.prems" by simp
qed simp

lemma chain_snoc:
  assumes "list_all chain_item (ps @ [p])"
  shows "patch (sum_list (map length ps)) (le32 (of_nat (length p))) (chain (ps @ [p])) @ q
    = chain (ps @ [p, q])"
  using assms
proof (induction ps rule: chain.induct)
  case 1
  then show ?case by (simp add: patch_def chain_item_def)
next
  case (2 x)
  then have "4 \<le> length x" by (simp add: chain_item_def)
  then show ?case using 2 by (simp add: patch_def chain_item_def)
next
  case (3 x y xs)
  have x: "4 \<le> length x" using "3.prems" by (simp add: chain_item_def)
  let ?h = "le32 (of_nat (length x)) @ drop 4 x"
  have h: "length ?h = length x" using x by simp
  have eq: "chain ((x # y # xs) @ [p]) = ?h @ chain ((y # xs) @ [p])" by simp
  have "patch (sum_list (map length (x # y # xs))) d (chain ((x # y # xs) @ [p]))
      = ?h @ patch (sum_list (map length (y # xs))) d (chain ((y # xs) @ [p]))" for d
    unfolding eq using h by (subst patch_append_right) auto
  then show ?case using "3.IH" "3.prems" by simp
qed

section \<open>The loop fills the buffer with such a chain\<close>

lemma length_padded: "length (padded cls e) = align_up8 (length (encode_dir_entry cls e (fi_file_index e)))"
  by (simp add: padded_def Let_def)

lemma chain_item_padded:
  assumes "cls \<in> dir_classes" and "length (padded cls e) < 2 ^ 32"
  shows "chain_item (padded cls e)"
proof -
  note enc = encode_dir_entry_next [OF assms(1), of e "fi_file_index e"]
  have "4 \<le> length (padded cls e)"
    unfolding length_padded using enc(1) by (intro order_trans [OF _ align_up8_ge]) simp
  then show ?thesis using enc assms(2) by (simp add: chain_item_def padded_def Let_def)
qed

definition last_start :: "bytes list \<Rightarrow> nat option" where
  "last_start ps = (if ps = [] then None else Some (sum_list (map length (butlast ps))))"

lemma chain_append_item:
  assumes "list_all chain_item ps"
  obtains b where "(case last_start ps of
      Some p \<Rightarrow> write_at p (le32 (of_nat (length (chain ps) - p))) (chain ps)
    | None \<Rightarrow> Some (chain ps)) = Some b" and "b @ q = chain (ps @ [q])"
proof (cases ps rule: rev_cases)
  case (snoc qs p)
  have "length (chain ps) - sum_list (map length qs) = length p"
      "sum_list (map length qs) + 4 \<le> length (chain ps)"
    using length_chain [OF assms] assms by (simp_all add: snoc chain_item_def)
  then show ?thesis
    using that [of "patch (sum_list (map length qs)) (le32 (of_nat (length p))) (chain ps)"]
      chain_snoc [of qs p q] assms
    by (simp add: snoc last_start_def)
qed (use that in \<open>simp add: last_start_def\<close>)

lemma fill_entries_chain:
  assumes "cls \<in> dir_classes" and "list_all (\<lambda>e. length (padded cls e) < 2 ^ 32) es"
    and "list_all chain_item ps"
  shows "\<exists>k \<le> length es. fill_entries cls cap single es nxt (chain ps) (last_start ps)
      = Some (nxt + k, chain (ps @ map (padded cls) (take k es))) \<and>
    (ps = [] \<and> es \<noteq> [] \<longrightarrow> 0 < k) \<and>
    length (chain (ps @ map (padded cls) (take k es)))
      \<le> max (length (chain ps)) (max cap (case es of e # _ \<Rightarrow> if ps = [] then length (padded cls e)
          else 0 | [] \<Rightarrow> 0))"
  using assms(2,3)
proof (induction es arbitrary: nxt ps)
  case (Cons e es)
  let ?x = "padded cls e"
  have item: "chain_item ?x" using chain_item_padded [OF assms(1)] Cons.prems(1) by simp
  have enc: "encode_dir_entry cls e (fi_file_index e) \<noteq> []"
    using assms(1) by (simp add: encode_dir_entry_Nil_iff)
  have nil: "chain ps = [] \<longleftrightarrow> ps = []"
    using length_chain [OF Cons.prems(2)] Cons.prems(2)
    by (cases ps) (auto simp: chain_item_def)
  have items: "list_all chain_item (ps @ [?x])" using Cons.prems(2) item by simp
  have len: "length (chain (ps @ [?x])) = length (chain ps) + length ?x"
    using length_chain [OF items] length_chain [OF Cons.prems(2)] by simp
  have start: "last_start (ps @ [?x]) = Some (length (chain ps))"
    using length_chain [OF Cons.prems(2)] by (simp add: last_start_def)
  obtain b1 where b1: "(case last_start ps of
      Some p \<Rightarrow> write_at p (le32 (of_nat (length (chain ps) - p))) (chain ps)
    | None \<Rightarrow> Some (chain ps)) = Some b1" and app: "b1 @ ?x = chain (ps @ [?x])"
    by (rule chain_append_item [OF Cons.prems(2)])
  let ?stop = "cap < length (chain ps) + length ?x \<and> ps \<noteq> []"
  have step: "fill_entries cls cap single (e # es) nxt (chain ps) (last_start ps) =
    (if ?stop then Some (nxt, chain ps)
     else if single then Some (nxt + 1, chain (ps @ [?x]))
     else fill_entries cls cap single es (nxt + 1) (chain (ps @ [?x])) (last_start (ps @ [?x])))"
    using enc nil app b1
    by (simp add: Let_def length_padded start cong: option.case_cong) (simp add: padded_def Let_def)
  show ?case
  proof (cases ?stop)
    case True
    then show ?thesis unfolding step by (intro exI [of _ 0]) simp
  next
    case go: False
    show ?thesis
    proof (cases single)
      case True
      with go show ?thesis
        unfolding step by (intro exI [of _ 1]) (auto simp: len)
    next
      case False
      obtain k where k: "k \<le> length es"
          "fill_entries cls cap single es (nxt + 1) (chain (ps @ [?x])) (last_start (ps @ [?x]))
            = Some (nxt + 1 + k, chain ((ps @ [?x]) @ map (padded cls) (take k es)))"
          "length (chain ((ps @ [?x]) @ map (padded cls) (take k es)))
            \<le> max (length (chain (ps @ [?x]))) cap"
        using Cons.IH [of "ps @ [?x]" "nxt + 1"] Cons.prems items by (auto split: list.splits)
      with go False show ?thesis
        unfolding step by (intro exI [of _ "Suc k"]) (auto simp: len)
    qed
  qed
qed simp

section \<open>Properties\<close>

lemma class_in_dir_classes: "file_info_class_from_u8 v = Some x \<Longrightarrow> v \<in> dir_classes"
  by (auto simp: file_info_class_from_u8_def dir_classes_def file_class_defs split: if_splits)

lemma query_directory_response_parse_for:
  "length buf < 2 ^ 32 \<Longrightarrow>
    query_directory_response_parse (put_query_directory_response (query_directory_response_for buf))
      = Some (query_directory_response_for buf)"
  using query_directory_response.parse_put [of "query_directory_response_for buf" "[]"]
  by (simp add: query_directory_response_parse_def wf_query_directory_response_def
      query_directory_response_for_def unat_of_nat take_bit_eq_mod)

definition no_restart :: "query_directory_request \<Rightarrow> bool" where
  "no_restart req \<longleftrightarrow> qdq_flags req AND FLAG_RESTART_SCANS = 0 \<and> qdq_flags req AND FLAG_REOPEN = 0"

text \<open>One page: what the loop fills in for the entries that are left.\<close>

lemma fill_page:
  fixes cap32 :: u32
  assumes cls: "cls \<in> dir_classes" and small: "list_all (\<lambda>e. length (padded cls e) < 2 ^ 32) es"
  obtains k where "k \<le> length es" "es \<noteq> [] \<Longrightarrow> 0 < k"
    "fill_entries cls (unat cap32) single es nxt [] None
      = Some (nxt + k, chain (map (padded cls) (take k es)))"
    "list_all chain_item (map (padded cls) (take k es))"
    "length (chain (map (padded cls) (take k es))) < 2 ^ 32"
    "chain (map (padded cls) (take k es)) = [] \<longleftrightarrow> es = []"
proof -
  obtain k where k: "k \<le> length es"
      and fill: "fill_entries cls (unat cap32) single es nxt [] None
        = Some (nxt + k, chain (map (padded cls) (take k es)))"
      and pos: "es \<noteq> [] \<Longrightarrow> 0 < k"
      and len: "length (chain (map (padded cls) (take k es)))
        \<le> max 0 (max (unat cap32) (case es of e # _ \<Rightarrow> length (padded cls e) | [] \<Rightarrow> 0))"
    using fill_entries_chain [OF cls small, of "[]" "unat cap32" single nxt]
    by (auto simp: last_start_def split: list.splits)
  have items: "list_all chain_item (map (padded cls) (take k es))"
    using small chain_item_padded [OF cls] by (auto simp: list_all_iff dest: in_set_takeD)
  have "unat cap32 < 2 ^ 32" using unsigned_less [of cap32, where ?'a = nat] by simp
  then have "length (chain (map (padded cls) (take k es))) < 2 ^ 32"
    using len small by (cases es) auto
  moreover have "chain (map (padded cls) (take k es)) = [] \<longleftrightarrow> es = []"
    using pos length_chain [OF items] items by (cases k; cases es) (auto simp: chain_item_def)
  ultimately show thesis using that k pos fill items by blast
qed

text \<open>
  C32: a directory listing is paged without loss or repetition. A QUERY_DIRECTORY that continues a
  scan returns, as a chain the client can walk, the encodings of the next \<open>k\<close> entries of the
  cursor, in order, with at least one as long as any is left, and moves the cursor past exactly
  these; when none is left it answers STATUS_NO_MORE_FILES and the cursor stays.
\<close>

theorem query_directory_page:
  fixes st :: "'w st" and op :: "'w open_file"
  assumes "lookup_session_tree (st_conn st) hdr = Inr tree"
    and "lookup_open tree (qdq_file_id req) = Some op"
    and "open_is_directory op" and "open_search_state op = Some cur"
    and "query_directory_request_parse body = Some req" and "no_restart req"
    and "file_info_class_from_u8 (qdq_file_information_class req) = Some fc"
    and "list_all (\<lambda>e. length (padded (qdq_file_information_class req) e) < 2 ^ 32) (dc_entries cur)"
  shows "\<exists>resp st' tree' op' k. handle_query_directory srv hdr body st = (resp, st') \<and>
    lookup_session_tree (st_conn st') hdr = Inr tree' \<and>
    lookup_open tree' (qdq_file_id req) = Some op' \<and>
    open_search_state op' = Some (cur\<lparr>dc_next := dc_next cur + k\<rparr>) \<and>
    (if drop (dc_next cur) (dc_entries cur) = []
     then hr_status resp = STATUS_NO_MORE_FILES \<and> k = 0
     else hr_status resp = STATUS_SUCCESS \<and> 0 < k \<and>
       map_option (read_chain \<circ> qdr_buffer) (query_directory_response_parse (hr_body resp))
         = Some (map (\<lambda>e. drop 4 (padded (qdq_file_information_class req) e))
             (take k (drop (dc_next cur) (dc_entries cur)))))"
proof -
  let ?cls = "qdq_file_information_class req"
  let ?es = "drop (dc_next cur) (dc_entries cur)"
  let ?single = "qdq_flags req AND FLAG_RETURN_SINGLE_ENTRY \<noteq> 0"
  let ?cap = "unat (qdq_output_buffer_length req)"
  have cls: "?cls \<in> dir_classes" using assms(7) by (rule class_in_dir_classes)
  have small: "list_all (\<lambda>e. length (padded ?cls e) < 2 ^ 32) ?es"
    using assms(8) by (auto simp: list_all_iff dest: in_set_dropD)
  obtain k where k: "k \<le> length ?es" and pos: "?es \<noteq> [] \<Longrightarrow> 0 < k"
      and fill: "fill_entries ?cls ?cap ?single ?es (dc_next cur) [] None
        = Some (dc_next cur + k, chain (map (padded ?cls) (take k ?es)))"
      and items: "list_all chain_item (map (padded ?cls) (take k ?es))"
      and buf32: "length (chain (map (padded ?cls) (take k ?es))) < 2 ^ 32"
      and empty: "chain (map (padded ?cls) (take k ?es)) = [] \<longleftrightarrow> ?es = []"
    using fill_page [OF cls small] by metis
  let ?buf = "chain (map (padded ?cls) (take k ?es))"
  define f :: "'w open_file \<Rightarrow> 'w open_file"
    where "f = (\<lambda>op. op\<lparr>open_search_state := Some (cur\<lparr>dc_next := dc_next cur + k\<rparr>)\<rparr>)"
  define st2 where "st2 = put_conn (update_open hdr (qdq_file_id req) f (st_conn st)) st"
  have run: "handle_query_directory srv hdr body st
      = (if ?buf = [] then (response_err STATUS_NO_MORE_FILES, st2)
         else (response_ok (put_query_directory_response (query_directory_response_for ?buf)), st2))"
    using assms fill
    by (simp add: handle_query_directory_def refresh_cursor_def no_restart_def Let_def st2_def f_def)
  obtain tree' where "lookup_session_tree (st_conn st2) hdr = Inr tree'"
      "lookup_open tree' (qdq_file_id req) = Some (f op)"
    using lookup_update_open [OF assms(1,2), of f] by (auto simp: st2_def)
  moreover have "read_chain ?buf = map (\<lambda>e. drop 4 (padded ?cls e)) (take k ?es)" if "?es \<noteq> []"
    using read_chain_chain [OF _ items] that pos by (cases k) auto
  moreover note query_directory_response_parse_for [OF buf32]
  ultimately show ?thesis
    using run empty pos k
    by (intro exI [of _ "fst (handle_query_directory srv hdr body st)"] exI [of _ st2]
        exI [of _ tree'] exI [of _ "f op"] exI [of _ k])
      (auto simp: f_def query_directory_response_for_def)
qed

definition sample_entry :: dir_entry where
  "sample_entry = \<lparr>fi_name = [97], fi_end_of_file = 3, fi_allocation_size = 8, fi_creation_time = 0,
     fi_last_access_time = 0, fi_last_write_time = 0, fi_change_time = 0, fi_is_directory = False,
     fi_file_index = 0\<rparr>"

definition listing_open :: "mem_fs open_file" where
  "listing_open = (sample_open ReadOnlyAccess False)\<lparr>open_is_directory := True,
     open_search_state := Some \<lparr>dc_entries = [sample_entry], dc_next = 0, dc_pattern = None\<rparr>\<rparr>"

definition listing_st :: "mem_fs st" where
  "listing_st = put_conn (update_open (hdr1 QueryDirectory) fid1 (\<lambda>_. listing_open)
     (mem_conn ReadOnlyAccess False)) (mem_st ReadOnlyAccess False)"

definition sample_listing :: query_directory_request where
  "sample_listing = \<lparr>qdq_structure_size = 33,
     qdq_file_information_class = FILE_DIRECTORY_INFORMATION, qdq_flags = 0, qdq_file_index = 0,
     qdq_file_id = fid1, qdq_file_name_offset = 0, qdq_file_name_length = 0,
     qdq_output_buffer_length = 1024, qdq_file_name = []\<rparr>"

lemma sample_listing_parses:
  "query_directory_request_parse (put_query_directory_request sample_listing) = Some sample_listing"
  using query_directory_request.parse_put [of sample_listing "[]"]
  by (simp add: query_directory_request_parse_def wf_query_directory_request_def sample_listing_def)

theorem query_directory_page_witness:
  "hr_status (fst (handle_query_directory mem_server (hdr1 QueryDirectory)
     (put_query_directory_request sample_listing) listing_st)) = STATUS_SUCCESS"
proof -
  obtain tree where t: "lookup_session_tree (st_conn listing_st) (hdr1 QueryDirectory) = Inr tree"
      "lookup_open tree fid1 = Some listing_open"
    using lookup_update_open [OF sample_lookup_tree sample_lookup_open,
      where f = "\<lambda>_. listing_open"]
    by (force simp: listing_st_def)
  have fields: "qdq_file_id sample_listing = fid1" "no_restart sample_listing"
      "file_info_class_from_u8 (qdq_file_information_class sample_listing) = Some FileDirectoryInformation"
    by (simp_all add: sample_listing_def no_restart_def file_info_class_from_u8_def
        file_class_defs)
  have cur: "open_is_directory listing_open" "open_search_state listing_open
      = Some \<lparr>dc_entries = [sample_entry], dc_next = 0, dc_pattern = None\<rparr>"
    by (simp_all add: listing_open_def)
  have small: "list_all (\<lambda>e. length (padded (qdq_file_information_class sample_listing) e) < 2 ^ 32)
      (dc_entries \<lparr>dc_entries = [sample_entry], dc_next = 0, dc_pattern = None\<rparr>)"
    by (simp add: length_padded sample_listing_def sample_entry_def encode_dir_entry_def align_up8_def
        utf16le_def file_class_defs encode_utf16_def encode_char_def)
  show ?thesis
    using query_directory_page [OF t(1) _ cur sample_listing_parses fields(2,3) small,
        of mem_server] t(2) fields(1)
    by auto
qed

end
