(* ===== verification/Handlers_Create.thy ===== *)
theory Handlers_Create
  imports Handlers_File
begin

text \<open>
  Opening and creating files: \<open>src/src/handlers/create.rs\<close>, with the access checks, the translation
  of dispositions and options, and the answer to Apple's create context.
\<close>

section \<open>Model\<close>

definition FILE_READ_DATA :: u32 where "FILE_READ_DATA = 0x00000001"
definition FILE_WRITE_DATA :: u32 where "FILE_WRITE_DATA = 0x00000002"
definition FILE_APPEND_DATA :: u32 where "FILE_APPEND_DATA = 0x00000004"
definition FILE_READ_ATTRIBUTES :: u32 where "FILE_READ_ATTRIBUTES = 0x00000080"
definition FILE_WRITE_ATTRIBUTES :: u32 where "FILE_WRITE_ATTRIBUTES = 0x00000100"
definition DELETE :: u32 where "DELETE = 0x00010000"
definition GENERIC_READ :: u32 where "GENERIC_READ = 0x80000000"
definition GENERIC_WRITE :: u32 where "GENERIC_WRITE = 0x40000000"
definition GENERIC_ALL :: u32 where "GENERIC_ALL = 0x10000000"
definition MAX_ALLOWED :: u32 where "MAX_ALLOWED = 0x02000000"

definition FILE_DIRECTORY_FILE :: u32 where "FILE_DIRECTORY_FILE = 0x00000001"
definition FILE_NON_DIRECTORY_FILE :: u32 where "FILE_NON_DIRECTORY_FILE = 0x00000040"
definition FILE_DELETE_ON_CLOSE :: u32 where "FILE_DELETE_ON_CLOSE = 0x00001000"

definition FILE_SUPERSEDE :: u32 where "FILE_SUPERSEDE = 0"
definition FILE_OPEN :: u32 where "FILE_OPEN = 1"
definition FILE_CREATE :: u32 where "FILE_CREATE = 2"
definition FILE_OPEN_IF :: u32 where "FILE_OPEN_IF = 3"
definition FILE_OVERWRITE :: u32 where "FILE_OVERWRITE = 4"
definition FILE_OVERWRITE_IF :: u32 where "FILE_OVERWRITE_IF = 5"

definition FILE_OPENED :: u32 where "FILE_OPENED = 1"
definition FILE_CREATED :: u32 where "FILE_CREATED = 2"

lemmas disposition_defs = FILE_SUPERSEDE_def FILE_OPEN_def FILE_CREATE_def FILE_OPEN_IF_def
  FILE_OVERWRITE_def FILE_OVERWRITE_IF_def

lemmas access_mask_defs = FILE_READ_DATA_def FILE_WRITE_DATA_def FILE_APPEND_DATA_def
  FILE_READ_ATTRIBUTES_def FILE_WRITE_ATTRIBUTES_def DELETE_def GENERIC_READ_def GENERIC_WRITE_def
  GENERIC_ALL_def MAX_ALLOWED_def

definition intent_of :: "u32 \<Rightarrow> open_intent option" where
  "intent_of disposition =
     (if disposition = FILE_SUPERSEDE \<or> disposition = FILE_OVERWRITE_IF
      then Some IntentOverwriteOrCreate
      else if disposition = FILE_OPEN then Some IntentOpen
      else if disposition = FILE_CREATE then Some IntentCreate
      else if disposition = FILE_OPEN_IF then Some IntentOpenOrCreate
      else if disposition = FILE_OVERWRITE then Some IntentTruncate
      else None)"

definition wants_read :: "u32 \<Rightarrow> bool" where
  "wants_read desired \<longleftrightarrow>
     desired AND (FILE_READ_DATA OR FILE_READ_ATTRIBUTES OR GENERIC_READ OR GENERIC_ALL OR
                  MAX_ALLOWED) \<noteq> 0"

definition wants_write :: "u32 \<Rightarrow> bool" where
  "wants_write desired \<longleftrightarrow>
     desired AND (FILE_WRITE_DATA OR FILE_APPEND_DATA OR FILE_WRITE_ATTRIBUTES OR DELETE OR
                  GENERIC_WRITE OR GENERIC_ALL OR MAX_ALLOWED) \<noteq> 0"

definition creating_intent :: "open_intent \<Rightarrow> bool" where
  "creating_intent intent \<longleftrightarrow> intent \<in>
     {IntentCreate, IntentOpenOrCreate, IntentOverwriteOrCreate, IntentTruncate}"

text \<open>The options of the backend call, once all checks between the path and the call pass.\<close>

definition create_options_for ::
    "access \<Rightarrow> smb_path \<Rightarrow> create_request \<Rightarrow> u32 + open_options" where
  "create_options_for granted path req =
     attempt (or_status STATUS_INVALID_PARAMETER (intent_of (crq_create_disposition req)))
       (\<lambda>intent.
         let want_read = wants_read (crq_desired_access req);
             want_write = wants_write (crq_desired_access req);
             directory = (crq_create_options req AND FILE_DIRECTORY_FILE \<noteq> 0);
             non_directory = (crq_create_options req AND FILE_NON_DIRECTORY_FILE \<noteq> 0)
         in if want_write \<and> \<not> allows_write granted then Inl STATUS_ACCESS_DENIED
            else if \<not> allows_write granted \<and> creating_intent intent then Inl STATUS_ACCESS_DENIED
            else if directory \<and> non_directory then Inl STATUS_INVALID_PARAMETER
            else if directory \<and> intent \<in> {IntentOverwriteOrCreate, IntentTruncate}
            then Inl STATUS_INVALID_PARAMETER
            else if directory \<and> stream path \<noteq> None then Inl STATUS_INVALID_PARAMETER
            else Inr \<lparr>oo_read = want_read \<or> \<not> want_write, oo_write = want_write,
                  oo_intent = intent, oo_directory = directory, oo_non_directory = non_directory,
                  oo_delete_on_close = (crq_create_options req AND FILE_DELETE_ON_CLOSE \<noteq> 0)\<rparr>)"

definition AAPL_CMD_SERVER_QUERY :: u32 where "AAPL_CMD_SERVER_QUERY = 1"
definition AAPL_REQ_SERVER_CAPS :: u64 where "AAPL_REQ_SERVER_CAPS = 1"
definition AAPL_REQ_VOLUME_CAPS :: u64 where "AAPL_REQ_VOLUME_CAPS = 2"
definition AAPL_SERVER_CAPS_UNIX_BASED :: u64 where "AAPL_SERVER_CAPS_UNIX_BASED = 4"

text \<open>
  The inner option is the code's result; the outer one is \<open>None\<close> for the panic of a slice that is
  out of bounds.
\<close>

definition build_aapl_response_context :: "create_context \<Rightarrow> create_context option option" where
  "build_aapl_response_context aapl =
     (if length (ctx_data aapl) \<noteq> 24 then Some None
      else do {
        command_code \<leftarrow> get_range 0 4 (ctx_data aapl);
        if de32 command_code \<noteq> AAPL_CMD_SERVER_QUERY then Some None
        else do {
          bitmap \<leftarrow> get_range 8 8 (ctx_data aapl);
          let request_bitmap = de64 bitmap;
          let server_caps = (request_bitmap AND AAPL_REQ_SERVER_CAPS \<noteq> 0);
          let volume_caps = (request_bitmap AND AAPL_REQ_VOLUME_CAPS \<noteq> 0);
          let reply_bitmap = (if server_caps then AAPL_REQ_SERVER_CAPS else 0) OR
                             (if volume_caps then AAPL_REQ_VOLUME_CAPS else 0);
          let dat = (if server_caps then le64 AAPL_SERVER_CAPS_UNIX_BASED else []) @
                (if volume_caps then le64 0 else []);
          Some (Some \<lparr>ctx_name = NAME_AAPL,
             ctx_data = le32 AAPL_CMD_SERVER_QUERY @ le32 0 @ le64 reply_bitmap @ dat\<rparr>) } })"

text \<open>The contexts of the response: offset and bytes.\<close>

definition response_contexts :: "create_context list \<Rightarrow> (u32 \<times> bytes) option" where
  "response_contexts contexts = do {
     aapl_response \<leftarrow> (case List.find (\<lambda>c. ctx_name c = NAME_AAPL) contexts of
         None \<Rightarrow> Some None
       | Some c \<Rightarrow> build_aapl_response_context c);
     Some (case aapl_response of
         Some ctx \<Rightarrow> (152, create_context_encode_chain [ctx] [])
       | None \<Rightarrow> (0, [])) }"

definition create_response_for ::
    "open_intent \<Rightarrow> file_info \<Rightarrow> file_id \<Rightarrow> u32 \<times> bytes \<Rightarrow> create_response" where
  "create_response_for intent info fid contexts =
     (case contexts of (offset, chain) \<Rightarrow>
      \<lparr>crr_structure_size = 89, crr_oplock_level = 0, crr_flags = 0,
       crr_create_action = (if intent = IntentCreate then FILE_CREATED else FILE_OPENED),
       crr_creation_time = fi_creation_time info, crr_last_access_time = fi_last_access_time info,
       crr_last_write_time = fi_last_write_time info, crr_change_time = fi_change_time info,
       crr_allocation_size = fi_allocation_size info, crr_end_of_file = fi_end_of_file info,
       crr_file_attributes = fi_attributes info, crr_reserved2 = 0, crr_file_id = fid,
       crr_create_contexts_offset = offset, crr_create_contexts_length = of_nat (length chain),
       crr_create_contexts = chain\<rparr>)"

definition record_create_trace ::
    "'w server \<Rightarrow> create_request \<Rightarrow> smb_path \<Rightarrow> open_options \<Rightarrow> create_context list \<Rightarrow>
     file_id option \<Rightarrow> 'w st \<Rightarrow> 'w st" where
  "record_create_trace srv req path opts contexts fid =
     record_event srv (CreateEvent
       \<lparr>ce_path = display_backslash path, ce_create_options = crq_create_options req,
        ce_directory = oo_directory opts, ce_non_directory = oo_non_directory opts,
        ce_create_disposition = crq_create_disposition req,
        ce_desired_access = crq_desired_access req, ce_file_id = map_option file_id_bytes fid,
        ce_contexts = map (\<lambda>c. \<lparr>cci_name = ctx_name c,
          cci_data_len = of_nat (length (ctx_data c))\<rparr>) contexts\<rparr>)"

text \<open>A fresh identifier and the open under it.\<close>

definition register_open ::
    "'w handle \<Rightarrow> access \<Rightarrow> smb_path \<Rightarrow> bool \<Rightarrow> bool \<Rightarrow> 'w tree_connect \<Rightarrow> 'w tree_connect" where
  "register_open h granted path is_directory delete_on_close tree =
     (let (fid, tree) = alloc_file_id tree
      in tree\<lparr>tree_opens := tbl_insert fid
           (open_new fid h granted path is_directory delete_on_close) (tree_opens tree)\<rparr>)"

definition handle_create :: "'w server \<Rightarrow> smb2_header \<Rightarrow> bytes \<Rightarrow> 'w st \<Rightarrow> 'w handled" where
  "handle_create srv hdr body st =
     or_fail (or_status STATUS_INVALID_PARAMETER (create_request_parse body)) st (\<lambda>req.
     or_fail (lookup_session_tree (st_conn st) hdr) st (\<lambda>tree.
     or_fail (wire_path (crq_name req)) st (\<lambda>path.
     or_fail (create_options_for (tree_granted_access tree) path req) st (\<lambda>opts.
       let contexts = (case create_context_parse_chain (crq_create_contexts req) of
                         Inr cs \<Rightarrow> cs | Inl _ \<Rightarrow> []);
           trace = record_create_trace srv req path opts contexts;
           (r, st1) = run_io (be_open (sb_backend (tree_share tree)) path opts) st
       in case r of
            Inl e \<Rightarrow> (response_err (to_nt_status e), trace None st1)
          | Inr h \<Rightarrow>
              (let (i, st2) = run_io (h_stat h) st1
               in case i of
                    Inl e \<Rightarrow> (response_err (to_nt_status e),
                      trace None (snd (run_io (h_close h) st2)))
                  | Inr info \<Rightarrow>
                      let fid = fst (alloc_file_id tree);
                          granted = (if oo_write opts then tree_granted_access tree
                                     else ReadOnlyAccess);
                          st3 = put_conn (update_tree hdr (register_open h granted path
                            (fi_is_directory info) (oo_delete_on_close opts)) (st_conn st2)) st2
                      in or_panic (response_contexts contexts) (trace (Some fid) st3) (\<lambda>reply.
                           (response_ok (put_create_response
                              (create_response_for (oo_intent opts) info fid reply)),
                            trace (Some fid) st3)))))))"

section \<open>The contract\<close>

lemma step_create_trace:
  "step_ok srv hdr st st' \<Longrightarrow>
    step_ok srv hdr st (record_create_trace srv req path opts contexts fid st')"
  unfolding record_create_trace_def by (rule step_record)

lemma ReadOnlyAccess_least [simp]: "ReadOnlyAccess \<le> a"
  by (cases a) (simp_all add: less_eq_access_def)

lemma tree_ok_register_open:
  assumes "tree_ok tid t" and "opened_by (sb_backend (tree_share t)) h" and "valid_path path"
    and "granted \<le> tree_granted_access t"
  shows "tree_ok tid (register_open h granted path d del t)"
  using assms
  by (auto simp: register_open_def alloc_file_id_def Let_def tree_ok_def open_ok_def open_new_def)

lemma opened_by_fst: "fst (be_open b p opts w) = Inr h \<Longrightarrow> valid_path p \<Longrightarrow> opened_by b h"
  by (rule opened_byI [of p b opts w h "snd (be_open b p opts w)"]) (simp_all add: prod_eq_iff)

text \<open>A change of the one tree that the request designates.\<close>

lemma step_update_this_tree:
  assumes "step_ok srv hdr st st'" and "lookup_session_tree c hdr = Inr t"
    and "\<And>tid. tree_ok tid t \<Longrightarrow> tree_ok tid (f t)" and c: "c = st_conn st'"
    and "\<And>x. tree_share (f x) = tree_share x \<and> tree_granted_access (f x) = tree_granted_access x"
  shows "step_ok srv hdr st (put_conn (update_tree hdr f c) st')"
  unfolding c
proof (rule step_put_conn [OF assms(1)])
  obtain tid s where at: "hdr_tree_id hdr = Some tid"
      "tbl_get (conn_sessions (st_conn st')) (session_id hdr) = Some s"
      "tbl_get (sess_trees s) tid = Some t"
    using assms(2) by (auto simp: lookup_session_tree_Inr c)
  assume ok: "conn_ok (st_conn st')"
  note s = conn_ok_sessions [OF ok at(2)]
  show "conn_ok (update_tree hdr f (st_conn st'))"
    using conn_ok_put_session [OF ok session_ok_put_tree [OF s assms(3) [OF session_ok_trees [OF s at(3)]]]]
    by (simp add: update_tree_def update_session_def at)
qed (simp_all add: update_tree_get update_tree_allowed assms(5))

lemma step_register_open:
  assumes "step_ok srv hdr st st'" and "lookup_session_tree c hdr = Inr t"
    and "fst (be_open (sb_backend (tree_share t)) path opts w) = Inr h" and "valid_path path"
    and "granted \<le> tree_granted_access t" and "c = st_conn st'"
  shows "step_ok srv hdr st (put_conn (update_tree hdr (register_open h granted path d del) c) st')"
  using assms
  by (intro step_update_this_tree tree_ok_register_open opened_by_fst)
    (simp_all add: register_open_def alloc_file_id_def Let_def)

lemma create_options_write:
  "create_options_for granted path req = Inr opts \<Longrightarrow> \<not> allows_write granted \<Longrightarrow>
    \<not> oo_write opts \<and> oo_intent opts = IntentOpen"
  by (cases "intent_of (crq_create_disposition req)"; cases "the (intent_of (crq_create_disposition req))")
    (auto simp: create_options_for_def Let_def creating_intent_def split: if_splits)

lemma create_options_read_only:
  assumes "create_options_for granted path req = Inr opts" and "\<not> allows_write granted"
  shows "opts = \<lparr>oo_read = True, oo_write = False, oo_intent = IntentOpen,
    oo_directory = (crq_create_options req AND FILE_DIRECTORY_FILE \<noteq> 0),
    oo_non_directory = (crq_create_options req AND FILE_NON_DIRECTORY_FILE \<noteq> 0),
    oo_delete_on_close = (crq_create_options req AND FILE_DELETE_ON_CLOSE \<noteq> 0)\<rparr>"
  using create_options_write [OF assms] assms(1)
  by (cases "intent_of (crq_create_disposition req)")
    (auto simp: create_options_for_def Let_def split: if_splits)

lemma create_options_fails [simp]: "create_options_for granted path req \<noteq> Inl STATUS_SUCCESS"
  by (cases "intent_of (crq_create_disposition req)") (simp_all add: create_options_for_def Let_def)

lemma handle_create_step: "step_ok srv hdr st (snd (handle_create srv hdr body st))"
  unfolding handle_create_def
  by (auto simp: Let_def case_prod_unfold split: sum.splits
      intro!: step_intros step_create_trace)
    (rule step_register_open [OF _ _ _ wire_path_valid], (rule step_intros)+, assumption+, simp_all)+

text \<open>A server query has the length that its slices need.\<close>

lemma build_aapl_total: "build_aapl_response_context c \<noteq> None"
  by (simp add: build_aapl_response_context_def Let_def)

lemma response_contexts_total: "response_contexts cs \<noteq> None"
  using build_aapl_total
  by (auto simp: response_contexts_def bind_eq_None_conv split: option.splits)

lemma or_panic_contexts [simp]:
  "or_panic (response_contexts cs) st f = f (the (response_contexts cs))"
  by (rule or_panic_total) (rule response_contexts_total)

lemma handle_create_returns: "returns (handle_create srv hdr body st)"
  unfolding handle_create_def
  by (auto simp: Let_def case_prod_unfold split: sum.splits intro!: returns_intros)

interpretation create: handler handle_create
  by unfold_locales (rule handle_create_step, rule handle_create_returns)

section \<open>Apple's create context\<close>

lemma wf_aapl_response:
  assumes "build_aapl_response_context c = Some (Some r)"
  shows "wf_create_context r" and "length (chain_of [r]) \<le> 56"
proof -
  have "ctx_name r = NAME_AAPL" "length (ctx_data r) \<le> 32"
    using assms
    by (auto simp: build_aapl_response_context_def Let_def Option.bind_eq_Some_conv split: if_splits)
  then show "wf_create_context r" "length (chain_of [r]) \<le> 56"
    by (simp_all add: wf_create_context_def data_offset_of_def entry_stride_def entry_size_def
        NAME_AAPL_def pad_to8_def)
qed

lemma length_response_contexts: "response_contexts cs = Some reply \<Longrightarrow> length (snd reply) < 2 ^ 32"
  by (auto simp: response_contexts_def encode_chain_eq Option.bind_eq_Some_conv
      dest!: wf_aapl_response(2) split: option.splits)

lemma length_the_contexts: "length (snd (the (response_contexts cs))) < 2 ^ 32"
  using response_contexts_total [of cs] length_response_contexts by auto

section \<open>Properties\<close>

lemma create_response_parse_for:
  "length (snd cs) < 2 ^ 32 \<Longrightarrow>
    create_response_parse (put_create_response (create_response_for intent info fid cs))
      = Some (create_response_for intent info fid cs)"
proof -
  assume "length (snd cs) < 2 ^ 32"
  then have "wf_create_response (create_response_for intent info fid cs)"
    by (simp add: wf_create_response_def create_response_for_def Let_def case_prod_unfold
        unat_of_nat take_bit_eq_mod)
  then show ?thesis
    using create_response.parse_put [of "create_response_for intent info fid cs" "[]"]
    by (simp add: create_response_parse_def)
qed

lemma crr_file_id_for [simp]: "crr_file_id (create_response_for intent info fid cs) = fid"
  by (simp add: create_response_for_def Let_def case_prod_unfold)

lemma lookup_register_open:
  "lookup_open (register_open h g p d del t) k =
    (if k = fst (alloc_file_id t) then Some (open_new k h g p d del) else lookup_open t k)"
  by (simp add: register_open_def lookup_open_def alloc_file_id_def Let_def)

text \<open>The identifiers in use are below the counter of their tree.\<close>

definition fids_below :: "'w tree_connect \<Rightarrow> bool" where
  "fids_below t \<longleftrightarrow> (\<forall>k. lookup_open t k \<noteq> None \<longrightarrow> fid_volatile k < tree_next_volatile t)"

lemma fids_below_new: "fids_below (tree_connect_new i share granted)"
  by (simp add: fids_below_def lookup_open_def tree_connect_new_def tbl_get_def)

lemma fids_below_fresh: "fids_below t \<Longrightarrow> lookup_open t (fst (alloc_file_id t)) = None"
  by (rule ccontr) (auto simp: fids_below_def alloc_file_id_def Let_def)

lemma alloc_file_id_fields [simp]:
  "fid_volatile (fst (alloc_file_id t)) = tree_next_volatile t"
  "fid_persistent (fst (alloc_file_id t)) = tree_next_volatile t"
  by (simp_all add: alloc_file_id_def Let_def)

lemma register_open_next:
  "tree_next_volatile (register_open h g p d del t) = tree_next_volatile t + 1"
  by (simp add: register_open_def alloc_file_id_def Let_def)

lemma fids_below_register:
  assumes "fids_below t" and "tree_next_volatile t + 1 \<noteq> 0"
  shows "fids_below (register_open h g p d del t)"
proof -
  have up: "tree_next_volatile t < tree_next_volatile t + 1"
    using assms(2) by (simp add: word_less_nat_alt unatSuc add.commute)
  then show ?thesis
    using assms(1)
    by (auto simp: fids_below_def lookup_register_open register_open_next
        intro: less_trans split: if_splits)
qed

text \<open>
  C26: CREATE registers what the backend opened and nothing else. When it succeeds, the name in the
  request is a valid path, the access checks passed, the backend opened that path with the options
  these checks produced, the reply names the file identifier that the tree's counter gives, under
  which the tree now has an open for that handle and path, with no more access than was asked for
  and the tree grants, every other identifier of the tree designates what it did before, and the
  counter has moved on by one. As long as all identifiers in use are below the counter, as they are
  from the start (\<open>fids_below_new\<close>), the identifier was not in use, and they still are afterwards
  unless the 64-bit counter wraps around.
\<close>

theorem create_registers_open:
  fixes st :: "'w st"
  assumes "handle_create srv hdr body st = (resp, st')" and "hr_status resp = STATUS_SUCCESS"
  shows "\<exists>req tree path opts h (info :: file_info) fid tree'.
    create_request_parse body = Some req \<and> lookup_session_tree (st_conn st) hdr = Inr tree \<and>
    wire_path (crq_name req) = Inr path \<and> valid_path path \<and>
    create_options_for (tree_granted_access tree) path req = Inr opts \<and>
    fst (be_open (sb_backend (tree_share tree)) path opts (st_world st)) = Inr h \<and>
    map_option crr_file_id (create_response_parse (hr_body resp)) = Some fid \<and>
    lookup_session_tree (st_conn st') hdr = Inr tree' \<and>
    fid_volatile fid = tree_next_volatile tree \<and> fid_persistent fid = tree_next_volatile tree \<and>
    tree_next_volatile tree' = tree_next_volatile tree + 1 \<and>
    (fids_below tree \<longrightarrow> lookup_open tree fid = None \<and>
       (tree_next_volatile tree' \<noteq> 0 \<longrightarrow> fids_below tree')) \<and>
    (\<forall>k. lookup_open tree' k = (if k = fid
       then Some (open_new fid h (if oo_write opts then tree_granted_access tree else ReadOnlyAccess)
         path (fi_is_directory info) (oo_delete_on_close opts))
       else lookup_open tree k))"
proof -
  obtain req tree path opts where req: "create_request_parse body = Some req" "lookup_session_tree (st_conn st) hdr = Inr tree"
      "wire_path (crq_name req) = Inr path"
      "create_options_for (tree_granted_access tree) path req = Inr opts"
    using assms unfolding handle_create_def
    by (auto dest!: or_fail_success)
  let ?cs = "case create_context_parse_chain (crq_create_contexts req) of Inr cs \<Rightarrow> cs | Inl _ \<Rightarrow> []"
  let ?granted = "if oo_write opts then tree_granted_access tree else ReadOnlyAccess"
  let ?fid = "fst (alloc_file_id tree)"
  obtain h where h: "fst (be_open (sb_backend (tree_share tree)) path opts (st_world st)) = Inr h"
    using assms req by (auto simp: handle_create_def Let_def case_prod_unfold split: sum.splits)
  obtain info where "resp = response_ok (put_create_response
        (create_response_for (oo_intent opts) info ?fid (the (response_contexts ?cs))))"
      "st_conn st' = update_tree hdr (register_open h ?granted path (fi_is_directory info)
        (oo_delete_on_close opts)) (st_conn st)"
    using assms req h
    by (auto simp: handle_create_def Let_def case_prod_unfold record_create_trace_def
        split: sum.splits)
  then show ?thesis
    using req h lookup_update_tree [OF req(2)] wire_path_valid [OF req(3)]
    by (intro exI [of _ req] exI [of _ tree] exI [of _ path] exI [of _ opts] exI [of _ h]
        exI [of _ info] exI [of _ ?fid] exI [of _ "register_open h ?granted path
          (fi_is_directory info) (oo_delete_on_close opts) tree"])
      (simp add: create_response_parse_for [OF length_the_contexts] lookup_register_open
        register_open_next fids_below_fresh fids_below_register)
qed

definition sample_create :: create_request where
  "sample_create =
     \<lparr>crq_structure_size = 57, crq_security_flags = 0, crq_requested_oplock_level = 0,
      crq_impersonation_level = 2, crq_smb_create_flags = 0, crq_reserved = 0,
      crq_desired_access = FILE_READ_DATA, crq_file_attributes = 0, crq_share_access = 7,
      crq_create_disposition = FILE_OPEN, crq_create_options = FILE_DELETE_ON_CLOSE,
      crq_name_offset = 120, crq_name_length = 2, crq_create_contexts_offset = 0,
      crq_create_contexts_length = 0, crq_name = utf16le [97], crq_create_contexts = []\<rparr>"

lemma sample_create_parse [simp]:
  "create_request_parse (put_create_request sample_create) = Some sample_create"
proof -
  have "wf_create_request sample_create"
    by (simp add: wf_create_request_def sample_create_def utf16le_def encode_utf16_def encode_char_def)
  then show ?thesis
    using create_request.parse_put [of sample_create "[]"] by (simp add: create_request_parse_def)
qed

lemma sample_create_path [simp]: "wire_path (crq_name sample_create) = Inr path_a"
proof -
  have "from_utf16 (encode_utf16 [97]) = Some [97]"
    by (rule from_utf16_encode) (simp add: is_scalar_def)
  moreover have "parse_components [97] = Inr path_a" by code_simp
  ultimately show ?thesis
    by (simp add: wire_path_def utf16le_to_units_utf16le path_from_utf16_def sample_create_def)
qed

definition delete_options :: open_options where
  "delete_options = open_options_default\<lparr>oo_delete_on_close := True\<rparr>"

lemma sample_create_options [simp]:
  "create_options_for ReadOnlyAccess path_a sample_create = Inr delete_options"
  by (simp add: create_options_for_def sample_create_def intent_of_def disposition_defs Let_def
      wants_read_def wants_write_def access_mask_defs creating_intent_def delete_options_def
      open_options_default_def FILE_DIRECTORY_FILE_def FILE_NON_DIRECTORY_FILE_def
      FILE_DELETE_ON_CLOSE_def)

lemma sample_create_open [simp]:
  "be_open memfs_backend path_a delete_options sample_fs
    = (Inr (mem_handle_of sample_file), sample_fs)"
  by (simp add: memfs_backend_def mem_open_def path_a_def mem_key_def display_backslash_def
      sample_fs_def with_file_def memfs_new_def delete_options_def open_options_default_def
      apply_intent_def sample_file_def tbl_get_def tbl_insert_def Let_def)

lemma sample_stat [simp]: "mem_stat sample_file sample_fs = (Inr (mem_info [97] 3 False), sample_fs)"
proof -
  have "\<not> mh_is_dir sample_file" "mh_key sample_file = [97]" "rsplit_once 92 [97] = None"
    by (simp_all add: sample_file_def rsplit_once_def)
  then show ?thesis by (simp add: mem_stat_def sample_file_data numeral_3_eq_3)
qed

abbreviation created :: "mem_fs handled" where
  "created \<equiv> handle_create mem_server (hdr1 Create) (put_create_request sample_create)
     (mem_st ReadOnlyAccess False)"

lemma sample_created:
  "created = (response_ok (put_create_response (create_response_for IntentOpen
      (mem_info [97] 3 False) (fst (alloc_file_id (sample_tree ReadOnlyAccess False))) (0, []))),
    snd created)" and
  sample_created_world: "st_world (snd created) = sample_fs" and
  sample_created_conn: "st_conn (snd created) = update_tree (hdr1 Create)
    (register_open (mem_handle_of sample_file) ReadOnlyAccess path_a False True)
    (mem_conn ReadOnlyAccess False)"
proof -
  have opts: "oo_intent delete_options = IntentOpen" "\<not> oo_write delete_options"
    "oo_delete_on_close delete_options"
    by (simp_all add: delete_options_def open_options_default_def)
  have cs: "create_context_parse_chain (crq_create_contexts sample_create) = Inr []"
      "response_contexts [] = Some (0, [])"
    by (simp_all add: sample_create_def create_context_parse_chain_def response_contexts_def)
  show "created = (response_ok (put_create_response (create_response_for IntentOpen
      (mem_info [97] 3 False) (fst (alloc_file_id (sample_tree ReadOnlyAccess False))) (0, []))),
    snd created)"
    by (simp add: handle_create_def Let_def case_prod_unfold opts cs mem_handle_of_def prod_eq_iff)
  show "st_world (snd created) = sample_fs"
    by (simp add: handle_create_def Let_def case_prod_unfold opts cs mem_handle_of_def
      record_create_trace_def)
  show "st_conn (snd created) = update_tree (hdr1 Create)
      (register_open (mem_handle_of sample_file) ReadOnlyAccess path_a False True)
      (mem_conn ReadOnlyAccess False)"
    by (simp add: handle_create_def Let_def case_prod_unfold opts cs mem_handle_of_def
      record_create_trace_def mem_info_def)
qed

theorem create_registers_open_witness:
  "\<exists>fid tree'. lookup_session_tree (st_conn (snd created)) (hdr1 Create) = Inr tree' \<and>
    lookup_open (sample_tree ReadOnlyAccess False) fid = None \<and> lookup_open tree' fid \<noteq> None \<and>
    fids_below tree'"
proof -
  have below: "fids_below (sample_tree ReadOnlyAccess False)"
    by (simp add: fids_below_def lookup_open_def sample_tree_def tbl_get_def fid1_def)
  have tree: "tree_next_volatile (sample_tree ReadOnlyAccess False) + 1 \<noteq> 0"
      "lookup_session_tree (st_conn (mem_st ReadOnlyAccess False)) (hdr1 Create)
        = Inr (sample_tree ReadOnlyAccess False)"
    by (simp_all add: sample_tree_def)
  have "hr_status (fst created) = STATUS_SUCCESS" by (subst sample_created) simp
  from create_registers_open [OF prod.collapse [symmetric] this] below tree show ?thesis by force
qed

text \<open>
  C27: what a tree without write access asks of its backend. Whatever CREATE arrives for it, the
  backend is either not called, or it opens the valid path that the request names with options that
  are fixed up to three bits of the request: to open what exists, for reading, not for writing, with
  the two bits that say whether a directory is meant, and with the delete-on-close bit, which the
  code passes on unchecked (see \<open>read_only_delete_on_close\<close> for what that does); a stat and at
  most a close follow.
\<close>

theorem create_read_only_tree:
  fixes st :: "'w st"
  assumes "lookup_session_tree (st_conn st) hdr = Inr tree"
    and "tree_granted_access tree = ReadOnlyAccess"
    and "handle_create srv hdr body st = (resp, st')"
  shows "st_world st' = st_world st \<or>
    (\<exists>req path r w. create_request_parse body = Some req \<and> wire_path (crq_name req) = Inr path \<and>
       valid_path path \<and>
       be_open (sb_backend (tree_share tree)) path
         \<lparr>oo_read = True, oo_write = False, oo_intent = IntentOpen,
          oo_directory = (crq_create_options req AND FILE_DIRECTORY_FILE \<noteq> 0),
          oo_non_directory = (crq_create_options req AND FILE_NON_DIRECTORY_FILE \<noteq> 0),
          oo_delete_on_close = (crq_create_options req AND FILE_DELETE_ON_CLOSE \<noteq> 0)\<rparr>
         (st_world st) = (r, w) \<and>
       (case r of
          Inl _ \<Rightarrow> st_world st' = w
        | Inr h \<Rightarrow> st_world st' = snd (h_stat h w) \<or>
            st_world st' = snd (h_close h (snd (h_stat h w)))))"
proof (cases "create_request_parse body")
  case (Some req)
  show ?thesis
  proof (cases "\<exists>path opts. wire_path (crq_name req) = Inr path \<and>
      create_options_for (tree_granted_access tree) path req = Inr opts")
    case True
    then obtain path opts where p: "wire_path (crq_name req) = Inr path"
        "create_options_for (tree_granted_access tree) path req = Inr opts" by blast
    obtain r w where o: "be_open (sb_backend (tree_share tree)) path opts (st_world st) = (r, w)"
      by fastforce
    have "case r of Inl _ \<Rightarrow> st_world st' = w
        | Inr h \<Rightarrow> st_world st' = snd (h_stat h w) \<or>
            st_world st' = snd (h_close h (snd (h_stat h w)))"
      using assms(1,3) Some p o
      by (auto simp: handle_create_def Let_def case_prod_unfold record_create_trace_def
          split: sum.splits)
    then show ?thesis
      using o Some p(1) create_options_read_only [OF p(2)] wire_path_valid [OF p(1)] assms(2)
      by auto
  next
    case False
    then show ?thesis
      using assms Some
      by (cases "wire_path (crq_name req)";
          cases "create_options_for (tree_granted_access tree) (projr (wire_path (crq_name req))) req")
        (auto simp: handle_create_def)
  qed
qed (use assms in \<open>auto simp: handle_create_def\<close>)

lemma sample_create_read_only:
  "\<lparr>oo_read = True, oo_write = False, oo_intent = IntentOpen,
    oo_directory = (crq_create_options sample_create AND FILE_DIRECTORY_FILE \<noteq> 0),
    oo_non_directory = (crq_create_options sample_create AND FILE_NON_DIRECTORY_FILE \<noteq> 0),
    oo_delete_on_close = (crq_create_options sample_create AND FILE_DELETE_ON_CLOSE \<noteq> 0)\<rparr>
    = delete_options"
  by (simp add: sample_create_def delete_options_def open_options_default_def
      FILE_DIRECTORY_FILE_def FILE_NON_DIRECTORY_FILE_def FILE_DELETE_ON_CLOSE_def)

theorem create_read_only_tree_witness:
  "st_world (snd created) = sample_fs \<or>
    (\<exists>r w. be_open memfs_backend path_a delete_options sample_fs = (r, w) \<and>
       (case r of
          Inl _ \<Rightarrow> st_world (snd created) = w
        | Inr h \<Rightarrow> st_world (snd created) = snd (h_stat h w) \<or>
            st_world (snd created) = snd (h_close h (snd (h_stat h w)))))"
  using create_read_only_tree [OF _ _ prod.collapse [symmetric], of "mem_st ReadOnlyAccess False"
      "hdr1 Create" "sample_tree ReadOnlyAccess False" mem_server "put_create_request sample_create"]
  by (auto simp: sample_create_read_only)

lemma and_exp_cases: "(b :: u64) AND 2 ^ n = (if bit b n then 2 ^ n else 0)"
  by (rule bit_word_eqI) (auto simp: bit_simps)

lemma and_or_distrib: "(b :: u64) AND (x OR y) = (b AND x) OR (b AND y)"
  by (rule bit_word_eqI) (auto simp: bit_simps)

text \<open>
  Apple's server query is answered with exactly what was asked for. When the first such context
  of a request is a well-formed query, the reply's chain parses to one context whose bitmap is the
  requested one restricted to the two capabilities the server knows, followed by eight bytes for
  each of these.
\<close>

theorem aapl_query_answered:
  assumes "List.find (\<lambda>c. ctx_name c = NAME_AAPL) contexts = Some c"
    and "length (ctx_data c) = 24" and "de32 (slice 0 4 (ctx_data c)) = AAPL_CMD_SERVER_QUERY"
  shows "\<exists>offset chain reply. response_contexts contexts = Some (offset, chain) \<and>
    create_context_parse_chain chain = Inr [\<lparr>ctx_name = NAME_AAPL, ctx_data = reply\<rparr>] \<and>
    de64 (slice 8 8 reply) = de64 (slice 8 8 (ctx_data c)) AND
      (AAPL_REQ_SERVER_CAPS OR AAPL_REQ_VOLUME_CAPS) \<and>
    length reply = 16 +
      (if de64 (slice 8 8 (ctx_data c)) AND AAPL_REQ_SERVER_CAPS \<noteq> 0 then 8 else 0) +
      (if de64 (slice 8 8 (ctx_data c)) AND AAPL_REQ_VOLUME_CAPS \<noteq> 0 then 8 else 0)"
proof -
  let ?b = "de64 (slice 8 8 (ctx_data c)) :: u64"
  obtain r where r: "build_aapl_response_context c = Some (Some r)"
    using assms by (auto simp: build_aapl_response_context_def Let_def)
  have mask: "(if ?b AND AAPL_REQ_SERVER_CAPS \<noteq> 0 then AAPL_REQ_SERVER_CAPS else 0) OR
      (if ?b AND AAPL_REQ_VOLUME_CAPS \<noteq> 0 then AAPL_REQ_VOLUME_CAPS else 0)
      = ?b AND (AAPL_REQ_SERVER_CAPS OR AAPL_REQ_VOLUME_CAPS)"
    unfolding and_or_distrib
    using and_exp_cases [of ?b 0] and_exp_cases [of ?b 1]
    by (simp add: AAPL_REQ_SERVER_CAPS_def AAPL_REQ_VOLUME_CAPS_def)
  have whole: "slice 0 8 (le64 v) = le64 v" for v by (simp add: slice_def)
  have "response_contexts contexts = Some (152, chain_of [r])"
      "create_context_parse_chain (chain_of [r]) = Inr [r]"
    using parse_chain_of_all [of "[r]"] wf_aapl_response(1) [OF r] assms(1) r
    by (simp_all add: response_contexts_def encode_chain_eq)
  moreover have "ctx_name r = NAME_AAPL"
    and "de64 (slice 8 8 (ctx_data r)) = ?b AND (AAPL_REQ_SERVER_CAPS OR AAPL_REQ_VOLUME_CAPS)"
    and "length (ctx_data r) = 16 + (if ?b AND AAPL_REQ_SERVER_CAPS \<noteq> 0 then 8 else 0) +
      (if ?b AND AAPL_REQ_VOLUME_CAPS \<noteq> 0 then 8 else 0)"
    using r assms(2,3) mask whole
    by (auto simp: build_aapl_response_context_def Let_def slice_append_right split: if_splits)
  ultimately show ?thesis
    by (intro exI [of _ 152] exI [of _ "chain_of [r]"] exI [of _ "ctx_data r"]) (cases r; simp)
qed

theorem aapl_query_answered_witness:
  "\<exists>offset chain reply. response_contexts [\<lparr>ctx_name = NAME_AAPL,
      ctx_data = le32 1 @ le32 0 @ le64 3 @ le64 0\<rparr>] = Some (offset, chain) \<and>
    create_context_parse_chain chain = Inr [\<lparr>ctx_name = NAME_AAPL, ctx_data = reply\<rparr>] \<and> length reply = 32"
  using aapl_query_answered [of "[\<lparr>ctx_name = NAME_AAPL, ctx_data = le32 1 @ le32 0 @ le64 3 @ le64 0\<rparr>]"]
  by (fastforce simp: slice_def AAPL_CMD_SERVER_QUERY_def AAPL_REQ_SERVER_CAPS_def
      AAPL_REQ_VOLUME_CAPS_def)

text \<open>
  An open may be marked for deletion through a tree without write access and without asking for
  the right to delete: closing it then removes the file.
\<close>

definition created_fid :: file_id where
  "created_fid = \<lparr>fid_persistent = 2, fid_volatile = 2\<rparr>"

lemma read_only_delete_on_close:
  "tree_granted_access (sample_tree ReadOnlyAccess False) = ReadOnlyAccess"
  "tbl_get (mem_files sample_fs) [97] = Some [1, 2, 3]"
  "mem_files (st_world (snd (handle_close mem_server (hdr1 Close)
     (put_close_request (sample_close\<lparr>clq_file_id := created_fid\<rparr>)) (snd created)))) = []"
proof -
  have parse: "close_request_parse (put_close_request (sample_close\<lparr>clq_file_id := created_fid\<rparr>))
      = Some (sample_close\<lparr>clq_file_id := created_fid\<rparr>)"
    using close_request.parse_put [of "sample_close\<lparr>clq_file_id := created_fid\<rparr>" "[]"]
    by (simp add: close_request_parse_def wf_close_request_def)
  let ?t = "register_open (mem_handle_of sample_file) ReadOnlyAccess path_a False True
    (sample_tree ReadOnlyAccess False)"
  have "lookup_session_tree c (hdr1 Close) = lookup_session_tree c (hdr1 Create)" for c :: "mem_fs connection"
    by (simp add: lookup_session_tree_def)
  then have tree: "lookup_session_tree (st_conn (snd created)) (hdr1 Close) = Inr ?t"
    using lookup_update_tree [OF sample_lookup_tree, of Create] by (simp add: sample_created_conn)
  have op: "lookup_open ?t created_fid
      = Some (open_new created_fid (mem_handle_of sample_file) ReadOnlyAccess path_a False True)"
    by (simp add: lookup_register_open created_fid_def alloc_file_id_def sample_tree_def)
  have share: "sb_backend (tree_share ?t) = memfs_backend"
    by (simp add: register_open_def alloc_file_id_def Let_def)
  have closed: "h_close (mem_handle_of sample_file) g = (Inr (), g)" for g
    by (simp add: mem_handle_of_def)
  have noflags: "clq_flags sample_close = 0" by (simp add: sample_close_def)
  have unlinked: "mem_files (snd (be_unlink memfs_backend path_a sample_fs)) = []"
    by (simp add: memfs_backend_def mem_unlink_def mem_key_def path_a_def display_backslash_def
        sample_fs_def with_file_def memfs_new_def tbl_get_def tbl_insert_def tbl_remove_def)
  show "tree_granted_access (sample_tree ReadOnlyAccess False) = ReadOnlyAccess"
    "tbl_get (mem_files sample_fs) [97] = Some [1, 2, 3]"
    by (simp_all add: sample_fs_def with_file_def)
  show "mem_files (st_world (snd (handle_close mem_server (hdr1 Close)
     (put_close_request (sample_close\<lparr>clq_file_id := created_fid\<rparr>)) (snd created)))) = []"
    using sample_created_world
    by (simp add: handle_close_def parse tree op share Let_def case_prod_unfold stat_for_close_def
        close_handle_def noflags open_new_def closed unlinked)
qed

end
