(* ===== verification/Handlers_Setup.thy ===== *)
theory Handlers_Setup
  imports Handlers_Session Spnego Sample_State
begin

text \<open>
  Setting up a connection and a session: \<open>negotiate.rs\<close> and \<open>session_setup.rs\<close> of
  \<open>src/src/handlers\<close>. The choice of the dialect, the negotiate contexts of SMB 3.1.1, and the
  two rounds of the NTLM exchange, inside SPNEGO or raw.
\<close>

section \<open>NEGOTIATE\<close>

definition SUPPORTED :: "u16 list" where
  "SUPPORTED = [0x0202, 0x0210, 0x0300, 0x0302, 0x0311]"

definition choose_dialect :: "u16 list \<Rightarrow> u16 option" where
  "choose_dialect dialects =
     foldl (\<lambda>chosen d.
       if d \<in> set SUPPORTED then
         (case chosen of None \<Rightarrow> Some d | Some prev \<Rightarrow> if prev < d then Some d else Some prev)
       else chosen) None dialects"

definition signing_algo_for :: "dialect \<Rightarrow> signing_algo" where
  "signing_algo_for d = (if d = Smb202 \<or> d = Smb210 then HmacSha256 else AesCmac)"

definition preauth_context :: "bytes \<Rightarrow> negotiate_context" where
  "preauth_context salt =
     (let dat = put_preauth_integrity_capabilities
            \<lparr>pic_hash_algorithm_count = 1, pic_salt_length = 32,
             pic_hash_algorithms = [HASH_SHA512], pic_salt = salt\<rparr>
      in \<lparr>nc_context_type = TYPE_PREAUTH_INTEGRITY, nc_data_length = of_nat (length dat),
          nc_reserved = 0, nc_data = dat\<rparr>)"

definition signing_context :: negotiate_context where
  "signing_context =
     (let dat = put_signing_capabilities
            \<lparr>sgc_signing_algorithm_count = 1, sgc_signing_algorithms = [ALGORITHM_AES_CMAC]\<rparr>
      in \<lparr>nc_context_type = TYPE_SIGNING, nc_data_length = of_nat (length dat), nc_reserved = 0,
          nc_data = dat\<rparr>)"

definition negotiate_response_for ::
    "'w server \<Rightarrow> 'w connection \<Rightarrow> u16 \<Rightarrow> u16 \<Rightarrow> u32 \<Rightarrow> u32 \<Rightarrow> u64 \<Rightarrow> negotiate_response" where
  "negotiate_response_for srv c chosen context_count context_offset caps now =
     \<lparr>ngr_structure_size = 65, ngr_security_mode = NEGOTIATE_SECURITY_MODE,
      ngr_dialect_revision = chosen, ngr_negotiate_context_count_or_reserved = context_count,
      ngr_server_guid = cfg_server_guid (srv_config srv), ngr_capabilities = caps,
      ngr_max_transact_size = conn_max_read_size c, ngr_max_read_size = conn_max_read_size c,
      ngr_max_write_size = conn_max_write_size c, ngr_system_time = now,
      ngr_server_start_time = srv_start_filetime srv, ngr_security_buffer_offset = 64 + 64,
      ngr_security_buffer_length = of_nat (length encode_init_response),
      ngr_negotiate_context_offset_or_reserved2 = context_offset,
      ngr_security_buffer = encode_init_response\<rparr>"

text \<open>The contexts with their offset: after the security buffer, rounded up to eight.\<close>

definition negotiate_contexts :: "'w server \<Rightarrow> dialect \<Rightarrow> 'w st \<Rightarrow> (u16 \<times> u32 \<times> bytes) \<times> 'w st" where
  "negotiate_contexts srv d st =
     (if d = Smb311 then
        let (salt, st1) = fill_random srv 32 st;
            ctxs = [preauth_context salt, signing_context];
            post_security = 128 + of_nat (length encode_init_response) :: u32
        in ((of_nat (length ctxs), (post_security + 7) AND NOT 7,
             negotiate_context_encode_list ctxs []), st1)
      else ((0, 0, []), st))"

definition handle_negotiate :: "'w server \<Rightarrow> smb2_header \<Rightarrow> bytes \<Rightarrow> 'w st \<Rightarrow> 'w handled" where
  "handle_negotiate srv hdr body st =
     or_fail (or_status STATUS_INVALID_PARAMETER (negotiate_request_parse body)) st (\<lambda>req.
     or_fail (or_status STATUS_NOT_SUPPORTED (choose_dialect (ngq_dialects req))) st (\<lambda>chosen.
     or_fail (or_status STATUS_NOT_SUPPORTED (dialect_from_u16 chosen)) st (\<lambda>d.
       let st1 = put_conn ((st_conn st)\<lparr>conn_dialect := Some d,
             conn_client_guid := ngq_client_guid req,
             conn_signing_algo := signing_algo_for d\<rparr>) st;
           ((context_count, context_offset, contexts), st2) = negotiate_contexts srv d st1;
           (now, st3) = now_filetime srv st2;
           body_out = put_negotiate_response (negotiate_response_for srv (st_conn st1) chosen
             context_count context_offset NEGOTIATE_CAPABILITIES now);
           cur = 64 + length body_out;
           pad = (if cur < unat context_offset then unat context_offset - cur else 0);
           body_all = (if d = Smb311 \<and> 0 < context_count
             then body_out @ replicate pad 0 @ contexts else body_out)
       in ((response_ok body_all)\<lparr>hr_skip_signing := True\<rparr>, st3))))"

definition multi_protocol_response :: "'w server \<Rightarrow> u16 \<Rightarrow> 'w st \<Rightarrow> 'w handled" where
  "multi_protocol_response srv chosen st =
     (let (now, st1) = now_filetime srv st;
          body = put_negotiate_response (negotiate_response_for srv (st_conn st) chosen 0 0 0 now)
      in ((response_ok body)\<lparr>hr_skip_signing := True\<rparr>, st1))"

section \<open>SESSION_SETUP\<close>

text \<open>What the security blob holds: the NTLM token, whether it opens the exchange, and its form.\<close>

record setup_token =
  tok_inner :: bytes
  tok_first :: bool
  tok_raw :: bool

text \<open>The outer \<open>None\<close> is the panic of an index beyond the blob.\<close>

definition setup_token_of :: "bytes \<Rightarrow> (u32 + setup_token) option" where
  "setup_token_of blob =
     (if take 8 blob = NTLMSSP_SIGNATURE then do {
        msg_type \<leftarrow> (if 12 \<le> length blob then map_option de32 (get_range 8 4 blob) else Some 0);
        Some (Inr \<lparr>tok_inner = blob, tok_first = (msg_type = 1), tok_raw = True\<rparr>) }
      else do {
        first \<leftarrow> get_at 0 blob;
        Some (if first = 0x60 then
          (case decode_init_token blob of
             Inl _ \<Rightarrow> Inl STATUS_LOGON_FAILURE
           | Inr t \<Rightarrow>
               if OID_NTLMSSP \<notin> set (init_mech_types t) then Inl STATUS_NOT_SUPPORTED
               else Inr \<lparr>tok_inner = (case init_mech_token t of Some x \<Rightarrow> x | None \<Rightarrow> []),
                         tok_first = True, tok_raw = False\<rparr>)
        else
          (case decode_resp_token blob of
             Inl _ \<Rightarrow> Inl STATUS_LOGON_FAILURE
           | Inr t \<Rightarrow>
               Inr \<lparr>tok_inner = (case resp_response_token t of Some x \<Rightarrow> x | None \<Rightarrow> []),
                    tok_first = False, tok_raw = False\<rparr>)) })"

definition build_session_setup_response :: "bytes \<Rightarrow> u16 \<Rightarrow> bytes" where
  "build_session_setup_response spnego_blob session_flags =
     put_session_setup_response
       \<lparr>ssr_structure_size = 9, ssr_session_flags = session_flags,
        ssr_security_buffer_offset = 64 + 8,
        ssr_security_buffer_length = of_nat (length spnego_blob),
        ssr_security_buffer = spnego_blob\<rparr>"

definition empty_completed :: bytes where
  "empty_completed = encode_resp_token AcceptCompleted None None None"

definition FLAG_IS_GUEST :: u16 where "FLAG_IS_GUEST = 0x0001"

text \<open>The first round: a fresh session identifier, a fresh challenge, and the pending acceptor.\<close>

definition setup_first :: "'w server \<Rightarrow> setup_token \<Rightarrow> 'w st \<Rightarrow> 'w handled" where
  "setup_first srv tok st =
     (let (new_sid, c1) = alloc_session_id (st_conn st);
          (challenge, st2) = fill_random srv 8 (put_conn c1 st);
          netbios = cfg_netbios_name (srv_config srv);
          (now, st3) = now_filetime srv st2;
          acceptor = ntlm_server_new challenge
            \<lparr>ti_target_name = netbios, ti_nb_domain = netbios, ti_nb_computer = netbios,
             ti_dns_domain = [], ti_dns_computer = []\<rparr> now
      in case step1_negotiate acceptor (tok_inner tok) of
           Inl _ \<Rightarrow> (response_err STATUS_LOGON_FAILURE, st3)
         | Inr acceptor1 \<Rightarrow>
             let (blob, acceptor2) = ntlm_challenge acceptor1;
                 outbound = (if tok_raw tok then blob
                   else encode_resp_token AcceptIncomplete (Some OID_NTLMSSP) (Some blob) None);
                 c4 = (st_conn st3)\<lparr>conn_pending_auths :=
                   tbl_insert new_sid (acceptor2, tok_raw tok) (conn_pending_auths (st_conn st3))\<rparr>
             in (\<lparr>hr_body = build_session_setup_response outbound 0,
                  hr_status = STATUS_MORE_PROCESSING_REQUIRED, hr_override_tree_id = None,
                  hr_override_session_id = Some new_sid, hr_skip_signing = True,
                  hr_take_preauth_snapshot = None, hr_panicked = False\<rparr>, put_conn c4 st3))"

definition session_signing_key :: "'w server \<Rightarrow> dialect \<Rightarrow> bytes \<Rightarrow> bytes" where
  "session_signing_key srv d base_key =
     (if d = Smb311 then replicate 16 0 else signing_key_30 (srv_crypto srv) base_key)"

text \<open>The second round: the pending acceptor is taken out, whatever comes of it.\<close>

definition setup_second ::
    "'w server \<Rightarrow> smb2_header \<Rightarrow> setup_token \<Rightarrow> 'w st \<Rightarrow> 'w handled" where
  "setup_second srv hdr tok st =
     (let sid = session_id hdr; c = st_conn st in
      if sid = 0 then (response_err STATUS_INVALID_PARAMETER, st)
      else
        (case tbl_get (conn_pending_auths c) sid of
           None \<Rightarrow> (response_err STATUS_USER_SESSION_DELETED, st)
         | Some (acceptor, raw_form) \<Rightarrow>
             let c1 = c\<lparr>conn_pending_auths := tbl_remove sid (conn_pending_auths c)\<rparr>;
                 st1 = put_conn c1 st in
             (case authenticate (srv_crypto srv) acceptor (tok_inner tok)
                     (\<lambda>u _. tbl_get (srv_users srv) u) of
                Inl _ \<Rightarrow> (response_err STATUS_LOGON_FAILURE, st1)
              | Inr outcome \<Rightarrow>
                  let guest = (ao_identity outcome = Anonymous) in
                  if guest \<and> \<not> anonymous_allowed srv
                  then (response_err STATUS_LOGON_FAILURE, st1)
                  else (case conn_dialect c of
                      None \<Rightarrow> (response_err STATUS_INVALID_PARAMETER, st1)
                    | Some d \<Rightarrow>
                        let sess = session_new sid (ao_identity outcome) (ao_session_key outcome)
                              (session_signing_key srv d (ao_session_key outcome)) False None;
                            c2 = c1\<lparr>conn_sessions := tbl_insert sid sess (conn_sessions c1)\<rparr>;
                            success_buf = (if raw_form then [] else empty_completed)
                        in (\<lparr>hr_body = build_session_setup_response success_buf
                               (if guest then FLAG_IS_GUEST else 0),
                             hr_status = STATUS_SUCCESS, hr_override_tree_id = None,
                             hr_override_session_id = Some sid, hr_skip_signing = guest,
                             hr_take_preauth_snapshot = (if d = Smb311 then Some sid else None),
                             hr_panicked = False\<rparr>, put_conn c2 st)))))"

definition handle_session_setup :: "'w server \<Rightarrow> smb2_header \<Rightarrow> bytes \<Rightarrow> 'w st \<Rightarrow> 'w handled" where
  "handle_session_setup srv hdr body st =
     or_fail (or_status STATUS_INVALID_PARAMETER (session_setup_request_parse body)) st (\<lambda>req.
       if ssq_security_buffer req = [] then (response_err STATUS_INVALID_PARAMETER, st)
       else or_panic (setup_token_of (ssq_security_buffer req)) st (\<lambda>token.
         or_fail token st (\<lambda>tok.
           if tok_first tok then setup_first srv tok st else setup_second srv hdr tok st)))"

section \<open>The contract\<close>

text \<open>The identity of an outcome is a user of the table, or anonymous.\<close>

lemma known_outcome:
  "authenticate c s blob (\<lambda>u _. tbl_get (srv_users srv) u) = Inr out \<Longrightarrow> known srv (ao_identity out)"
  by (cases "ao_identity out")
    (auto simp: known_def lookup_user_def dest: authenticate_known_user)

lemma handle_negotiate_step: "step_ok srv hdr st (snd (handle_negotiate srv hdr body st))"
  unfolding handle_negotiate_def negotiate_contexts_def
  by (auto simp: Let_def case_prod_unfold conn_ok_def conn_allowed_def
      intro!: step_intros step_put_conn)

lemma multi_protocol_step: "step_ok srv hdr st (snd (multi_protocol_response srv chosen st))"
  unfolding multi_protocol_response_def
  by (auto simp: Let_def case_prod_unfold intro!: step_intros)

lemma setup_first_step: "step_ok srv hdr st (snd (setup_first srv tok st))"
  unfolding setup_first_def alloc_session_id_def
  by (auto simp: Let_def case_prod_unfold conn_ok_def conn_allowed_def split: sum.splits
      intro!: step_intros step_put_conn)

lemma setup_second_step: "step_ok srv hdr st (snd (setup_second srv hdr tok st))"
  unfolding setup_second_def
  by (auto simp: Let_def conn_ok_def conn_allowed_def split: sum.splits option.splits
      intro!: step_intros step_put_conn tbl_all_insert session_ok_new session_allowed_new
      dest: known_outcome)

lemma handle_session_setup_step:
  "step_ok srv hdr st (snd (handle_session_setup srv hdr body st))"
  unfolding handle_session_setup_def
  by (auto intro!: step_intros setup_first_step setup_second_step)

text \<open>A blob that is not empty has the bytes that decide its form.\<close>

lemma setup_token_total: "blob \<noteq> [] \<Longrightarrow> setup_token_of blob \<noteq> None"
  by (simp add: setup_token_of_def)

lemma or_panic_token [simp]:
  "blob \<noteq> [] \<Longrightarrow> or_panic (setup_token_of blob) st f = f (the (setup_token_of blob))"
  by (rule or_panic_total) (rule setup_token_total)

lemma setup_first_returns: "returns (setup_first srv tok st)"
  by (simp add: setup_first_def Let_def case_prod_unfold returns_def split: sum.splits)

lemma setup_second_returns: "returns (setup_second srv hdr tok st)"
  by (simp add: setup_second_def Let_def returns_def split: sum.splits option.splits)

lemma handle_session_setup_returns: "returns (handle_session_setup srv hdr body st)"
  unfolding handle_session_setup_def
  by (auto intro!: returns_intros setup_first_returns setup_second_returns)

lemma handle_negotiate_returns: "returns (handle_negotiate srv hdr body st)"
  unfolding handle_negotiate_def
  by (auto simp: Let_def case_prod_unfold intro!: returns_intros)

lemma multi_protocol_returns: "returns (multi_protocol_response srv chosen st)"
  by (simp add: multi_protocol_response_def Let_def case_prod_unfold)

interpretation negotiate: handler handle_negotiate
  by unfold_locales (rule handle_negotiate_step, rule handle_negotiate_returns)

interpretation session_setup: handler handle_session_setup
  by unfold_locales (rule handle_session_setup_step, rule handle_session_setup_returns)

section \<open>The dialect\<close>

definition offered :: "u16 list \<Rightarrow> u16 set" where
  "offered dialects = set dialects \<inter> set SUPPORTED"

lemma offered_snoc [simp]:
  "offered (ds @ [d]) = (if d \<in> set SUPPORTED then insert d (offered ds) else offered ds)"
  by (auto simp: offered_def)

lemma finite_offered [simp]: "finite (offered ds)"
  by (simp add: offered_def)

lemma choose_dialect_snoc: "choose_dialect (ds @ [d]) =
    (if d \<in> set SUPPORTED then
       (case choose_dialect ds of None \<Rightarrow> Some d | Some prev \<Rightarrow> if prev < d then Some d else Some prev)
     else choose_dialect ds)"
  by (simp add: choose_dialect_def)

lemma choose_dialect_Max:
  "choose_dialect ds = (if offered ds = {} then None else Some (Max (offered ds)))"
proof (induction ds rule: rev_induct)
  case Nil
  then show ?case by (simp add: choose_dialect_def offered_def)
next
  case (snoc d ds)
  then show ?case
    by (cases "offered ds = {}")
      (auto simp add: choose_dialect_snoc max_def simp del: Max_less_iff Max_ge_iff)
qed

lemma supported_dialect:
  "v \<in> set SUPPORTED \<Longrightarrow> \<exists>d. dialect_from_u16 v = Some d \<and> dialect_as_u16 d = v"
  by (auto simp: SUPPORTED_def dialect_from_u16_def)

text \<open>
  C36: NEGOTIATE picks the highest dialect that the client offers and the server supports. A request
  that does not parse, or offers none, fails and changes nothing; otherwise the connection takes
  that dialect, its signing algorithm and the client's GUID, and nothing else of it changes.
\<close>

theorem negotiate_picks_highest:
  "case negotiate_request_parse body of
     None \<Rightarrow> handle_negotiate srv hdr body st = (response_err STATUS_INVALID_PARAMETER, st)
   | Some req \<Rightarrow>
       (if offered (ngq_dialects req) = {}
        then handle_negotiate srv hdr body st = (response_err STATUS_NOT_SUPPORTED, st)
        else \<exists>d resp st'. handle_negotiate srv hdr body st = (resp, st') \<and>
          dialect_as_u16 d = Max (offered (ngq_dialects req)) \<and> hr_status resp = STATUS_SUCCESS \<and>
          st_conn st' = (st_conn st)\<lparr>conn_dialect := Some d,
            conn_client_guid := ngq_client_guid req, conn_signing_algo := signing_algo_for d\<rparr> \<and>
          st_world st' = st_world st)"
proof (cases "negotiate_request_parse body")
  case (Some req)
  show ?thesis
  proof (cases "offered (ngq_dialects req) = {}")
    case False
    then have "Max (offered (ngq_dialects req)) \<in> offered (ngq_dialects req)" by simp
    then obtain d where "dialect_from_u16 (Max (offered (ngq_dialects req))) = Some d"
        "dialect_as_u16 d = Max (offered (ngq_dialects req))"
      using supported_dialect by (fastforce simp: offered_def)
    with Some False show ?thesis
      by (auto simp: handle_negotiate_def choose_dialect_Max Let_def case_prod_unfold
          negotiate_contexts_def)
  qed (simp add: handle_negotiate_def Some choose_dialect_Max)
qed (simp add: handle_negotiate_def)

lemma length_init_response: "length encode_init_response = 30"
  by code_simp

lemma negotiate_contexts_311:
  "negotiate_contexts srv Smb311 (put_conn c st) =
    ((2, 160, negotiate_context_encode_list
        [preauth_context (srv_random srv (st_draws st) 32), signing_context] []),
     snd (fill_random srv 32 (put_conn c st)))"
  by (simp add: negotiate_contexts_def fill_random_def put_conn_def Let_def length_init_response)

text \<open>
  C37: the reply to an SMB 3.1.1 NEGOTIATE is laid out as it says. The client reads back the chosen
  dialect and the security blob; the negotiate contexts start at the advertised offset, a multiple
  of eight behind the security blob, and parse, with the advertised count, to the preauth integrity
  context with this connection's salt and the signing context.
\<close>

theorem negotiate_reply_layout:
  assumes "negotiate_request_parse body = Some req" and "0x0311 \<in> set (ngq_dialects req)"
    and "length (cfg_server_guid (srv_config srv)) = 16"
    and "length (srv_random srv (st_draws st) 32) = 32"
    and "handle_negotiate srv hdr body st = (resp, st')"
  shows "\<exists>m. negotiate_response_parse (hr_body resp) = Some m \<and>
    ngr_dialect_revision m = 0x0311 \<and> ngr_security_buffer m = encode_init_response \<and>
    8 dvd unat (ngr_negotiate_context_offset_or_reserved2 m) \<and>
    negotiate_context_parse_list
      (drop (unat (ngr_negotiate_context_offset_or_reserved2 m) - 64) (hr_body resp))
      (ngr_negotiate_context_count_or_reserved m)
    = Inr [preauth_context (srv_random srv (st_draws st) 32), signing_context]"
proof -
  let ?salt = "srv_random srv (st_draws st) 32"
  let ?ctxs = "[preauth_context ?salt, signing_context]"
  have "Max (offered (ngq_dialects req)) = 0x0311" "offered (ngq_dialects req) \<noteq> {}"
    using assms(2) by (auto simp: offered_def SUPPORTED_def intro!: Max_eqI)
  then have chosen: "choose_dialect (ngq_dialects req) = Some 0x0311" by (simp add: choose_dialect_Max)
  have d: "dialect_from_u16 0x0311 = Some Smb311" by (simp add: dialect_from_u16_def)
  obtain c now where "hr_body resp =
      (let body_out = put_negotiate_response
             (negotiate_response_for srv c 0x0311 2 160 NEGOTIATE_CAPABILITIES now)
       in body_out @ replicate (160 - (64 + length body_out)) 0 @
            negotiate_context_encode_list ?ctxs [])"
    using assms(5)
    by (simp add: handle_negotiate_def assms(1) chosen d negotiate_contexts_311 case_prod_unfold)
      (force simp: Let_def)
  then obtain m where m: "hr_body resp = put_negotiate_response m @ replicate (160 - (64 +
        length (put_negotiate_response m))) 0 @ negotiate_context_encode_list ?ctxs []"
      and fields: "ngr_dialect_revision m = 0x0311" "ngr_security_buffer m = encode_init_response"
      "ngr_negotiate_context_offset_or_reserved2 m = 160"
      "ngr_negotiate_context_count_or_reserved m = 2" "wf_negotiate_response m"
    using assms(3)
    by (auto simp: Let_def negotiate_response_for_def wf_negotiate_response_def length_init_response)
  have len: "length (put_negotiate_response m) = 94"
    using fields(2,5)
    by (simp add: put_negotiate_response_def wf_negotiate_response_def length_init_response)
  have "list_all wf_negotiate_context ?ctxs"
    using assms(4)
    by (simp add: wf_negotiate_context_def preauth_context_def signing_context_def
        put_preauth_integrity_capabilities_def put_signing_capabilities_def Let_def)
  then have "negotiate_context_parse_list (negotiate_context_encode_list ?ctxs []) 2 = Inr ?ctxs"
    using parse_encoded_contexts [of ?ctxs 2 "[]"] by simp
  then show ?thesis
    using m fields len negotiate_response.parse_put [OF fields(5)]
    by (intro exI [of _ m]) (simp add: negotiate_response_parse_def)
qed

section \<open>Logging on\<close>

definition permitted :: "'w server \<Rightarrow> identity \<Rightarrow> bool" where
  "permitted srv who \<longleftrightarrow>
     (case who of Anonymous \<Rightarrow> anonymous_allowed srv | User u _ \<Rightarrow> lookup_user srv u \<noteq> None)"

lemma permitted_outcome:
  assumes "authenticate c a blob (\<lambda>u _. tbl_get (srv_users srv) u) = Inr out"
    and "ao_identity out = Anonymous \<Longrightarrow> anonymous_allowed srv"
  shows "permitted srv (ao_identity out)"
  using assms(2) authenticate_known_user [OF assms(1)]
  by (auto simp: permitted_def lookup_user_def split: identity.splits)

lemma setup_second_sessions:
  assumes "setup_second srv hdr tok st = (resp, st')"
    and "tbl_get (conn_sessions (st_conn st')) k \<noteq> tbl_get (conn_sessions (st_conn st)) k"
  shows "k = session_id hdr \<and> hr_status resp = STATUS_SUCCESS \<and>
    (\<exists>acceptor raw out d. tbl_get (conn_pending_auths (st_conn st)) k = Some (acceptor, raw) \<and>
       authenticate (srv_crypto srv) acceptor (tok_inner tok) (\<lambda>u _. tbl_get (srv_users srv) u)
         = Inr out \<and>
       (ao_identity out = Anonymous \<longrightarrow> anonymous_allowed srv) \<and>
       conn_dialect (st_conn st) = Some d \<and>
       conn_pending_auths (st_conn st') = tbl_remove k (conn_pending_auths (st_conn st)) \<and>
       tbl_get (conn_sessions (st_conn st')) k = Some (session_new k (ao_identity out)
         (ao_session_key out) (session_signing_key srv d (ao_session_key out)) False None))"
  using assms
  by (auto simp: setup_second_def Let_def split: if_splits option.splits sum.splits) blast+

text \<open>
  The answer to a challenge that a request carries: its security blob is a raw NTLM message that is
  not the first of an exchange, or a SPNEGO NegTokenResp with the answer inside.
\<close>

definition answers :: "bytes \<Rightarrow> bytes \<Rightarrow> bool" where
  "answers body token \<longleftrightarrow>
     (\<exists>req. session_setup_request_parse body = Some req \<and> ssq_security_buffer req \<noteq> [] \<and>
        (if take 8 (ssq_security_buffer req) = map of_char ''NTLMSSP'' @ [0]
         then token = ssq_security_buffer req \<and>
           (length token < 12 \<or> de32 (slice 8 4 token) \<noteq> (1 :: u32))
         else hd (ssq_security_buffer req) \<noteq> 0x60 \<and>
           (\<exists>t. decode_resp_token (ssq_security_buffer req) = Inr t \<and>
              token = (case resp_response_token t of Some x \<Rightarrow> x | None \<Rightarrow> []))))"

lemma answers_iff:
  "answers body token \<longleftrightarrow>
    (\<exists>req tok. session_setup_request_parse body = Some req \<and> ssq_security_buffer req \<noteq> [] \<and>
       setup_token_of (ssq_security_buffer req) = Some (Inr tok) \<and> \<not> tok_first tok \<and>
       tok_inner tok = token)"
proof -
  have "(\<exists>tok. setup_token_of b = Some (Inr tok) \<and> \<not> tok_first tok \<and> tok_inner tok = token) \<longleftrightarrow>
    (if take 8 b = map of_char ''NTLMSSP'' @ [0]
     then token = b \<and> (length token < 12 \<or> de32 (slice 8 4 token) \<noteq> (1 :: u32))
     else hd b \<noteq> 0x60 \<and> (\<exists>t. decode_resp_token b = Inr t \<and>
       token = (case resp_response_token t of Some x \<Rightarrow> x | None \<Rightarrow> [])))"
    if "b \<noteq> []" for b
    using that
    by (auto simp: setup_token_of_def NTLMSSP_SIGNATURE_def hd_conv_nth not_le split: sum.splits)
  then show ?thesis unfolding answers_def by blast
qed

text \<open>The three ways a SESSION_SETUP ends, by what it carries.\<close>

lemma more_processing:
  "STATUS_INVALID_PARAMETER \<noteq> STATUS_MORE_PROCESSING_REQUIRED"
  "STATUS_LOGON_FAILURE \<noteq> STATUS_MORE_PROCESSING_REQUIRED"
  "STATUS_NOT_SUPPORTED \<noteq> STATUS_MORE_PROCESSING_REQUIRED"
  "STATUS_USER_SESSION_DELETED \<noteq> STATUS_MORE_PROCESSING_REQUIRED"
  "STATUS_SUCCESS \<noteq> STATUS_MORE_PROCESSING_REQUIRED"
  by (simp_all add: status_defs)

lemma session_setup_cases:
  assumes "handle_session_setup srv hdr body st = (resp, st')"
  obtains (nothing) s where "\<nexists>token. answers body token" "resp = response_err s"
      "s \<noteq> STATUS_SUCCESS" "st' = st" "s \<noteq> STATUS_MORE_PROCESSING_REQUIRED"
  | (first) tok where "\<nexists>token. answers body token" "setup_first srv tok st = (resp, st')"
  | (answer) tok where "answers body (tok_inner tok)" "setup_second srv hdr tok st = (resp, st')"
proof (cases "session_setup_request_parse body")
  case None
  show ?thesis
    by (rule nothing [of STATUS_INVALID_PARAMETER])
      (use assms None in \<open>auto simp: handle_session_setup_def answers_def more_processing\<close>)
next
  case (Some req)
  show ?thesis
  proof (cases "ssq_security_buffer req = []")
    case True
    show ?thesis
      by (rule nothing [of STATUS_INVALID_PARAMETER])
        (use assms Some True in \<open>auto simp: handle_session_setup_def answers_def more_processing\<close>)
  next
    case False
    then obtain r where r: "setup_token_of (ssq_security_buffer req) = Some r"
      using setup_token_total by blast
    show ?thesis
    proof (cases r)
      case (Inl s)
      have "s \<noteq> STATUS_SUCCESS" "s \<noteq> STATUS_MORE_PROCESSING_REQUIRED"
        using r Inl by (auto simp: setup_token_of_def more_processing Option.bind_eq_Some_conv
            split: if_splits sum.splits)
      show ?thesis
        by (rule nothing [of s])
          (use assms Some False r Inl \<open>s \<noteq> STATUS_SUCCESS\<close>
            \<open>s \<noteq> STATUS_MORE_PROCESSING_REQUIRED\<close> in
            \<open>auto simp: handle_session_setup_def answers_iff\<close>)
    next
      case (Inr tok)
      then show ?thesis
        using assms first answer Some False r
        by (cases "tok_first tok") (auto simp: handle_session_setup_def answers_iff)
    qed
  qed
qed

lemma setup_first_tables:
  assumes "setup_first srv tok st = (resp, st')"
  shows "hr_status resp \<noteq> STATUS_SUCCESS \<and>
    conn_sessions (st_conn st') = conn_sessions (st_conn st) \<and>
    (\<forall>k. k \<noteq> conn_next_session_id (st_conn st) \<longrightarrow>
      tbl_get (conn_pending_auths (st_conn st')) k = tbl_get (conn_pending_auths (st_conn st)) k)"
  using assms
  by (auto simp: setup_first_def alloc_session_id_def Let_def case_prod_unfold split: sum.splits)

text \<open>The identifiers in the reply: the challenge names the session that it opens.\<close>

lemma setup_first_ids:
  assumes "setup_first srv tok st = (resp, st')"
  shows "hr_override_tree_id resp = None"
    "hr_override_session_id resp = (if hr_status resp = STATUS_MORE_PROCESSING_REQUIRED
       then Some (conn_next_session_id (st_conn st)) else None)"
  using assms
  by (auto simp: setup_first_def alloc_session_id_def Let_def case_prod_unfold more_processing
      split: sum.splits)

lemma setup_second_ids:
  assumes "setup_second srv hdr tok st = (resp, st')"
  shows "hr_override_tree_id resp = None" "hr_status resp \<noteq> STATUS_MORE_PROCESSING_REQUIRED"
    "hr_override_session_id resp = None \<or> hr_override_session_id resp = Some (session_id hdr)"
  using assms
  by (auto simp: setup_second_def Let_def more_processing split: if_splits sum.splits option.splits)

text \<open>
  C11: a session comes into being only through a completed logon. When a SESSION_SETUP changes what
  is stored under some session identifier, it is the one its header names, an acceptor was pending
  under it and is so no more, that acceptor accepted the very answer that the request carries as an
  identity the server permits (a user in the table, or anonymous if some share is public), the
  dialect was negotiated, and what is stored is a fresh session of that identity with the keys
  derived from the exchange.
\<close>

theorem session_setup_sound:
  fixes st :: "'w st"
  assumes "handle_session_setup srv hdr body st = (resp, st')"
    and "tbl_get (conn_sessions (st_conn st')) k \<noteq> tbl_get (conn_sessions (st_conn st)) k"
  shows "k = session_id hdr \<and> hr_status resp = STATUS_SUCCESS \<and>
    tbl_get (conn_pending_auths (st_conn st')) k = None \<and>
    (\<exists>acceptor raw token (outcome :: auth_outcome) d.
       answers body token \<and>
       tbl_get (conn_pending_auths (st_conn st)) k = Some (acceptor, raw) \<and>
       authenticate (srv_crypto srv) acceptor token (\<lambda>u _. tbl_get (srv_users srv) u) = Inr outcome \<and>
       permitted srv (ao_identity outcome) \<and> conn_dialect (st_conn st) = Some d \<and>
       tbl_get (conn_sessions (st_conn st')) k = Some (session_new k (ao_identity outcome)
         (ao_session_key outcome) (session_signing_key srv d (ao_session_key outcome)) False None))"
  using assms(1)
proof (cases rule: session_setup_cases)
  case (first tok)
  with assms(2) setup_first_tables [OF first(2)] show ?thesis by simp
next
  case (answer tok)
  from setup_second_sessions [OF answer(2) assms(2)] obtain acceptor raw out d where
      "k = session_id hdr" "hr_status resp = STATUS_SUCCESS"
      "tbl_get (conn_pending_auths (st_conn st)) k = Some (acceptor, raw)"
    and auth: "authenticate (srv_crypto srv) acceptor (tok_inner tok)
      (\<lambda>u _. tbl_get (srv_users srv) u) = Inr out"
    and "ao_identity out = Anonymous \<Longrightarrow> anonymous_allowed srv"
      "conn_dialect (st_conn st) = Some d"
      "conn_pending_auths (st_conn st') = tbl_remove k (conn_pending_auths (st_conn st))"
      "tbl_get (conn_sessions (st_conn st')) k = Some (session_new k (ao_identity out)
         (ao_session_key out) (session_signing_key srv d (ao_session_key out)) False None)"
    by blast
  with answer(1) permitted_outcome [OF auth] show ?thesis by auto
qed (use assms(2) in simp)

text \<open>
  C22: a challenge is good for one answer. Once a SESSION_SETUP carries an answer for a session
  identifier, no acceptor is pending under that identifier any more, whether the answer was accepted
  or not. A SESSION_SETUP that carries none (it does not parse, its blob does not decode, or it opens
  an exchange of its own) is not a success, makes no session, and leaves every pending acceptor as
  it was, except that it may put a new one under the identifier that is next in turn: an undecodable
  follow-up therefore does not use the challenge up.
\<close>

theorem setup_challenge_single_use:
  "case handle_session_setup srv hdr body st of (resp, st') \<Rightarrow>
    if \<exists>token. answers body token
    then session_id hdr = 0 \<or> tbl_get (conn_pending_auths (st_conn st')) (session_id hdr) = None
    else hr_status resp \<noteq> STATUS_SUCCESS \<and>
      conn_sessions (st_conn st') = conn_sessions (st_conn st) \<and>
      (\<forall>k. k \<noteq> conn_next_session_id (st_conn st) \<longrightarrow>
        tbl_get (conn_pending_auths (st_conn st')) k = tbl_get (conn_pending_auths (st_conn st)) k)"
proof -
  obtain resp st' where run: "handle_session_setup srv hdr body st = (resp, st')" by fastforce
  from run show ?thesis
  proof (cases rule: session_setup_cases)
    case (first tok)
    with setup_first_tables [OF first(2)] show ?thesis by (simp add: run)
  next
    case (answer tok)
    then have "session_id hdr \<noteq> 0 \<longrightarrow>
        tbl_get (conn_pending_auths (st_conn st')) (session_id hdr) = None"
      by (auto simp: setup_second_def Let_def split: option.splits sum.splits if_splits)
    with answer(1) show ?thesis by (auto simp: run)
  qed (simp add: run)
qed

section \<open>A concrete logon\<close>

text \<open>A connection on which a challenge is pending, and the client's raw NTLM answer to it.\<close>

definition setup_server :: "mem_fs server" where
  "setup_server = mem_server\<lparr>srv_users :=
     ([117], \<lparr>uc_nt_hash = replicate 16 0\<rparr>) # srv_users mem_server\<rparr>"

definition pending_st :: "mem_fs st" where
  "pending_st = put_conn ((mem_conn ReadOnlyAccess False)\<lparr>conn_pending_auths :=
     [(3, (sample_acceptor, True))]\<rparr>) (mem_st ReadOnlyAccess False)"

definition hdr3 :: smb2_header where
  "hdr3 = (hdr1 SessionSetup)\<lparr>session_id := 3\<rparr>"

definition sample_setup :: session_setup_request where
  "sample_setup = \<lparr>ssq_structure_size = 25, ssq_flags = 0, ssq_security_mode = 1,
     ssq_capabilities = 0, ssq_channel = 0, ssq_security_buffer_offset = 88,
     ssq_security_buffer_length = of_nat (length sample_authenticate_blob),
     ssq_previous_session_id = 0, ssq_security_buffer = sample_authenticate_blob\<rparr>"

abbreviation logged_on :: "mem_fs handled" where
  "logged_on \<equiv> handle_session_setup setup_server hdr3 (put_session_setup_request sample_setup)
     pending_st"

lemma sample_setup_parse:
  "session_setup_request_parse (put_session_setup_request sample_setup) = Some sample_setup"
  using session_setup_request.parse_put [of sample_setup "[]"]
  by (simp add: session_setup_request_parse_def wf_session_setup_request_def sample_setup_def
      sample_blob_bytes)

lemma sample_token: "setup_token_of (ssq_security_buffer sample_setup)
    = Some (Inr \<lparr>tok_inner = sample_authenticate_blob, tok_first = False, tok_raw = True\<rparr>)"
  by (simp add: setup_token_of_def sample_setup_def sample_blob_bytes NTLMSSP_SIGNATURE_def
      slice_def de32_def)

lemma sample_setup_facts:
  "ssq_security_buffer sample_setup \<noteq> []" "session_id hdr3 = 3"
  "tbl_get (conn_pending_auths (st_conn pending_st)) 3 = Some (sample_acceptor, True)"
  "tbl_get (conn_sessions (st_conn pending_st)) 3 = None"
  "conn_dialect (st_conn pending_st) = Some Smb302"
  "srv_crypto setup_server = sample_crypto"
  "tbl_get (srv_users setup_server) [117] = Some \<lparr>uc_nt_hash = replicate 16 0\<rparr>"
  by (simp_all add: sample_setup_def sample_blob_bytes hdr3_def pending_st_def mem_conn_def
      tbl_get_def setup_server_def mem_server_def)

lemma logged_on_session: "\<exists>s. tbl_get (conn_sessions (st_conn (snd logged_on))) 3 = Some s"
  by (simp add: handle_session_setup_def sample_setup_parse sample_token sample_setup_facts
      setup_second_def Let_def sample_authenticate_by)

theorem session_setup_sound_witness:
  "hr_status (fst logged_on) = STATUS_SUCCESS \<and>
    tbl_get (conn_pending_auths (st_conn (snd logged_on))) 3 = None"
  using session_setup_sound [OF prod.collapse [symmetric],
      of setup_server hdr3 "put_session_setup_request sample_setup" pending_st 3]
    logged_on_session sample_setup_facts(4)
  by auto

theorem setup_challenge_single_use_witness:
  "tbl_get (conn_pending_auths (st_conn (snd logged_on))) 3 = None"
proof -
  have "answers (put_session_setup_request sample_setup) sample_authenticate_blob"
    using sample_setup_parse sample_setup_facts(1) sample_token by (auto simp: answers_iff)
  with setup_challenge_single_use [where body = "put_session_setup_request sample_setup"
      and hdr = hdr3 and srv = setup_server and st = pending_st]
  show ?thesis by (auto simp: sample_setup_facts case_prod_unfold split: if_splits)
qed

definition sample_negotiate :: negotiate_request where
  "sample_negotiate = \<lparr>ngq_structure_size = 36, ngq_dialect_count = 2, ngq_security_mode = 1,
     ngq_reserved = 0, ngq_capabilities = 0, ngq_client_guid = replicate 16 9,
     ngq_negotiate_context_offset_or_client_start_time = 0, ngq_dialects = [0x0302, 0x0311]\<rparr>"

theorem negotiate_reply_layout_witness:
  "\<exists>m. negotiate_response_parse (hr_body (fst (handle_negotiate mem_server (hdr1 Negotiate)
      (put_negotiate_request sample_negotiate) (mem_st ReadOnlyAccess False)))) = Some m \<and>
    ngr_dialect_revision m = 0x0311"
proof -
  have "negotiate_request_parse (put_negotiate_request sample_negotiate) = Some sample_negotiate"
    using negotiate_request.parse_put [of sample_negotiate "[]"]
    by (simp add: negotiate_request_parse_def wf_negotiate_request_def sample_negotiate_def)
  from negotiate_reply_layout [OF this _ _ _ prod.collapse [symmetric], of mem_server
      "mem_st ReadOnlyAccess False"]
  show ?thesis by (auto simp: sample_negotiate_def mem_server_def)
qed

end
