(* ===== verification/Dispatch.thy ===== *)
theory Dispatch
  imports Handlers_Query Handlers_Create Handlers_Setup
begin

text \<open>
  The dispatcher, \<open>src/src/dispatch.rs\<close>, with the command router of \<open>src/src/handlers/mod.rs\<close>: from
  a frame to the bytes of its reply. A slice that is out of bounds and an \<open>expect\<close> on an absent
  value panic in the code, in the dispatcher itself or in a handler that it runs; all of these are
  the value \<open>None\<close> of the outer option here, and \<open>dispatch_frame_total\<close> in the theory
  \<open>Dispatch_Compound\<close> shows that no frame has that value.
\<close>

section \<open>The router\<close>

definition dispatch_command :: "'w server \<Rightarrow> smb2_header \<Rightarrow> bytes \<Rightarrow> 'w st \<Rightarrow> 'w handled" where
  "dispatch_command srv hdr body st =
     (case hdr_command hdr of
        Negotiate \<Rightarrow> handle_negotiate srv hdr body st
      | SessionSetup \<Rightarrow> handle_session_setup srv hdr body st
      | Logoff \<Rightarrow> handle_logoff srv hdr body st
      | TreeConnect \<Rightarrow> handle_tree_connect srv hdr body st
      | TreeDisconnect \<Rightarrow> handle_tree_disconnect srv hdr body st
      | Create \<Rightarrow> handle_create srv hdr body st
      | Close \<Rightarrow> handle_close srv hdr body st
      | Flush \<Rightarrow> handle_flush srv hdr body st
      | Read \<Rightarrow> handle_read srv hdr body st
      | Write \<Rightarrow> handle_write srv hdr body st
      | Lock \<Rightarrow> handle_lock srv hdr body st
      | Ioctl \<Rightarrow> handle_ioctl srv hdr body st
      | Echo \<Rightarrow> handle_echo srv hdr body st
      | QueryDirectory \<Rightarrow> handle_query_directory srv hdr body st
      | ChangeNotify \<Rightarrow> handle_change_notify srv hdr body st
      | QueryInfo \<Rightarrow> handle_query_info srv hdr body st
      | SetInfo \<Rightarrow> handle_set_info srv hdr body st
      | OplockBreak \<Rightarrow> handle_oplock_break srv hdr body st
      | Cancel \<Rightarrow> (response_err STATUS_INVALID_PARAMETER, st))"

primrec command_name :: "command \<Rightarrow> string" where
  "command_name Negotiate = ''Negotiate''"
| "command_name SessionSetup = ''SessionSetup''"
| "command_name Logoff = ''Logoff''"
| "command_name TreeConnect = ''TreeConnect''"
| "command_name TreeDisconnect = ''TreeDisconnect''"
| "command_name Create = ''Create''"
| "command_name Close = ''Close''"
| "command_name Flush = ''Flush''"
| "command_name Read = ''Read''"
| "command_name Write = ''Write''"
| "command_name Lock = ''Lock''"
| "command_name Ioctl = ''Ioctl''"
| "command_name Cancel = ''Cancel''"
| "command_name Echo = ''Echo''"
| "command_name QueryDirectory = ''QueryDirectory''"
| "command_name ChangeNotify = ''ChangeNotify''"
| "command_name QueryInfo = ''QueryInfo''"
| "command_name SetInfo = ''SetInfo''"
| "command_name OplockBreak = ''OplockBreak''"

section \<open>Bytes in place\<close>

definition read_u32 :: "bytes \<Rightarrow> nat \<Rightarrow> u32 option" where
  "read_u32 buf offset = map_option de32 (get_range offset 4 buf)"

definition read_u64 :: "bytes \<Rightarrow> nat \<Rightarrow> u64 option" where
  "read_u64 buf offset = map_option de64 (get_range offset 8 buf)"

section \<open>Request signatures\<close>

definition verify_request_signature ::
    "'w server \<Rightarrow> 'w connection \<Rightarrow> smb2_header \<Rightarrow> bytes \<Rightarrow> u32 + unit" where
  "verify_request_signature srv c hdr frame =
     (if hdr_command hdr = Negotiate then Inr ()
      else if session_id hdr = 0 then Inr ()
      else
        (case tbl_get (conn_sessions c) (session_id hdr) of
           None \<Rightarrow> if flags hdr AND SMB2_FLAGS_SIGNED = 0 then Inr ()
                   else Inl STATUS_USER_SESSION_DELETED
         | Some sess \<Rightarrow>
             if flags hdr AND SMB2_FLAGS_SIGNED \<noteq> 0
             then if sess_identity sess = Anonymous then Inr ()
                  else (case verify (srv_crypto srv) frame (sess_signing_key sess)
                            (conn_signing_algo c) of
                      Inl _ \<Rightarrow> Inl STATUS_ACCESS_DENIED
                    | Inr _ \<Rightarrow> Inr ())
             else if hdr_command hdr \<noteq> SessionSetup
             then if sess_signing_required sess \<and> sess_identity sess \<noteq> Anonymous
                  then Inl STATUS_ACCESS_DENIED else Inr ()
             else Inr ()))"

section \<open>Response bytes\<close>

definition is_session_setup_success :: "smb2_header \<Rightarrow> handler_response \<Rightarrow> bool" where
  "is_session_setup_success req resp \<longleftrightarrow>
     hdr_command req = SessionSetup \<and> hr_status resp = STATUS_SUCCESS"

definition response_header :: "smb2_header \<Rightarrow> handler_response \<Rightarrow> smb2_header" where
  "response_header req resp =
     req\<lparr>flags := (flags req OR SMB2_FLAGS_SERVER_TO_REDIR) AND NOT SMB2_FLAGS_ASYNC_COMMAND,
         next_command := 0, channel_sequence_status := hr_status resp,
         hdr_tail := tail_sync (case hr_override_tree_id resp of
             Some tid \<Rightarrow> tid
           | None \<Rightarrow> (case hdr_tree_id req of Some tid \<Rightarrow> tid | None \<Rightarrow> 0)),
         session_id := (case hr_override_session_id resp of Some sid \<Rightarrow> sid | None \<Rightarrow> session_id req),
         signature := replicate 16 0\<rparr>"

text \<open>The key the response is signed with, if it is signed.\<close>

definition response_key ::
    "'w connection \<Rightarrow> smb2_header \<Rightarrow> handler_response \<Rightarrow> bytes option" where
  "response_key c req resp =
     (let sid = session_id (response_header req resp) in
      if \<not> hr_skip_signing resp \<and> sid \<noteq> 0 \<and>
         (flags req AND SMB2_FLAGS_SIGNED \<noteq> 0 \<or> is_session_setup_success req resp)
      then (case tbl_get (conn_sessions c) sid of
          None \<Rightarrow> None
        | Some sess \<Rightarrow>
            let is_guest_response = is_session_setup_success req resp \<and>
                  4 \<le> length (hr_body resp) \<and> hr_body resp ! 2 AND 1 \<noteq> 0
            in if sess_identity sess \<noteq> Anonymous \<and> \<not> is_guest_response \<and>
                  sess_signing_key sess \<noteq> replicate 16 0
               then Some (sess_signing_key sess) else None)
      else None)"

definition build_response_bytes ::
    "'w server \<Rightarrow> 'w connection \<Rightarrow> smb2_header \<Rightarrow> handler_response \<Rightarrow> bytes" where
  "build_response_bytes srv c req resp =
     (let hdr = response_header req resp in
      case response_key c req resp of
        None \<Rightarrow>
          smb2_header_write (hdr\<lparr>flags := flags hdr AND NOT SMB2_FLAGS_SIGNED\<rparr>) @ hr_body resp
      | Some key \<Rightarrow>
          let out = smb2_header_write (hdr\<lparr>flags := flags hdr OR SMB2_FLAGS_SIGNED\<rparr>) @ hr_body resp
          in (case sign (srv_crypto srv) out key (conn_signing_algo c) of
                Inl _ \<Rightarrow> out
              | Inr signed_msg \<Rightarrow> signed_msg))"

section \<open>One request\<close>

definition take_session_preauth ::
    "'w connection \<Rightarrow> u64 \<Rightarrow> preauth_integrity \<times> 'w connection" where
  "take_session_preauth c sid =
     (case (if sid \<noteq> 0 then tbl_get (conn_session_preauth c) sid else None) of
        Some preauth \<Rightarrow>
          (preauth, c\<lparr>conn_session_preauth := tbl_remove sid (conn_session_preauth c)\<rparr>)
      | None \<Rightarrow> (conn_preauth c, c))"

text \<open>The preauthentication hash before the handler runs.\<close>

definition preauth_request ::
    "'w server \<Rightarrow> smb2_header \<Rightarrow> bytes \<Rightarrow> 'w st \<Rightarrow> preauth_integrity option \<times> 'w st" where
  "preauth_request srv hdr frame st =
     (let c = st_conn st; update = preauth_update (srv_crypto srv) in
      if hdr_command hdr = Negotiate
      then (None, put_conn (c\<lparr>conn_preauth := update (conn_preauth c) frame\<rparr>) st)
      else if hdr_command hdr = SessionSetup \<and> conn_dialect c = Some Smb311
      then (let (p, c1) = take_session_preauth c (session_id hdr)
            in (Some (update p frame), put_conn c1 st))
      else (None, st))"

text \<open>The snapshot that the handler asked for.\<close>

definition stash_snapshot ::
    "'w server \<Rightarrow> preauth_integrity option \<Rightarrow> handler_response \<Rightarrow> 'w st \<Rightarrow> 'w st option" where
  "stash_snapshot srv preauth resp st =
     (case hr_take_preauth_snapshot resp of
        None \<Rightarrow> Some st
      | Some sid \<Rightarrow>
          (case preauth of
             None \<Rightarrow> None
           | Some snap \<Rightarrow>
               Some (put_conn (update_session sid (\<lambda>sess.
                 if conn_dialect (st_conn st) = Some Smb311
                 then sess\<lparr>sess_preauth_snapshot := Some snap,
                   sess_signing_key := signing_key_311 (srv_crypto srv) (sess_base_key sess) snap\<rparr>
                 else sess\<lparr>sess_preauth_snapshot := Some snap\<rparr>) (st_conn st)) st)))"

text \<open>The preauthentication hash after the response is built.\<close>

definition preauth_response ::
    "'w server \<Rightarrow> smb2_header \<Rightarrow> dialect option \<Rightarrow> preauth_integrity option \<Rightarrow> bytes \<Rightarrow> 'w st \<Rightarrow>
     'w st option" where
  "preauth_response srv hdr dialect preauth bytes st =
     (let c = st_conn st; update = preauth_update (srv_crypto srv) in
      if hdr_command hdr = Negotiate
      then Some (put_conn (c\<lparr>conn_preauth := update (conn_preauth c) bytes\<rparr>) st)
      else if hdr_command hdr = SessionSetup \<and> dialect = Some Smb311
      then do {
        status \<leftarrow> read_u32 bytes 0x08;
        if status = STATUS_MORE_PROCESSING_REQUIRED
        then (case preauth of
            None \<Rightarrow> Some st
          | Some p \<Rightarrow> do {
              sid \<leftarrow> read_u64 bytes 0x28;
              Some (put_conn (c\<lparr>conn_session_preauth :=
                tbl_insert sid (update p bytes) (conn_session_preauth c)\<rparr>) st) })
        else Some (put_conn (c\<lparr>conn_session_preauth :=
               tbl_remove (session_id hdr) (conn_session_preauth c)\<rparr>) st) }
      else Some st)"

definition record_as :: "'w server \<Rightarrow> trace_key option \<Rightarrow> trace_event \<Rightarrow> 'w st \<Rightarrow> 'w st" where
  "record_as srv key event st =
     st\<lparr>st_log := trace_record (srv_trace_armed srv) key event (st_log st)\<rparr>"

text \<open>The body of the trace scope.\<close>

definition dispatch_scoped ::
    "'w server \<Rightarrow> trace_key option \<Rightarrow> smb2_header \<Rightarrow> bytes \<Rightarrow> bytes \<Rightarrow> 'w st \<Rightarrow>
     (bytes option \<times> 'w st) option" where
  "dispatch_scoped srv key hdr body frame st =
     (case verify_request_signature srv (st_conn st) hdr frame of
        Inl status \<Rightarrow>
          Some (Some (build_response_bytes srv (st_conn st) hdr (response_err status)),
                record_as srv key (ResponseEvent status) st)
      | Inr _ \<Rightarrow>
          if hdr_command hdr = Cancel then Some (None, st)
          else
            let dialect = conn_dialect (st_conn st);
                (preauth, st1) = preauth_request srv hdr frame st;
                (resp, st2) = dispatch_command srv hdr body st1
            in if hr_panicked resp then None else do {
              st3 \<leftarrow> stash_snapshot srv preauth resp st2;
              let bytes = build_response_bytes srv (st_conn st3) hdr resp;
              status \<leftarrow> read_u32 bytes 0x08;
              st4 \<leftarrow> preauth_response srv hdr dialect preauth bytes
                       (record_as srv key (ResponseEvent status) st3);
              Some (Some bytes, st4) })"

definition trace_key_for :: "'w server \<Rightarrow> 'w st \<Rightarrow> smb2_header \<Rightarrow> u32 \<Rightarrow> trace_key option" where
  "trace_key_for srv st hdr ordinal =
     (if srv_trace_armed srv
      then Some \<lparr>tk_connection_id = conn_id (st_conn st), tk_message_id = message_id hdr,
             tk_compound_ordinal = ordinal\<rparr>
      else None)"

text \<open>\<open>scoped\<close> binds a key for the duration of a computation, and nothing if there is no key.\<close>

definition scoped :: "trace_key option \<Rightarrow> ('w st \<Rightarrow> ('a \<times> 'w st) option) \<Rightarrow> 'w st \<Rightarrow> ('a \<times> 'w st) option"
    where
  "scoped key f st =
     (case key of
        None \<Rightarrow> f st
      | Some k \<Rightarrow> map_option (apsnd (\<lambda>st'. st'\<lparr>st_key := st_key st\<rparr>)) (f (st\<lparr>st_key := Some k\<rparr>)))"

definition dispatch_one ::
    "'w server \<Rightarrow> bytes \<Rightarrow> u32 \<Rightarrow> 'w st \<Rightarrow> (bytes option \<times> 'w st) option" where
  "dispatch_one srv frame ordinal st =
     (case smb2_header_parse frame of
        Inl _ \<Rightarrow> Some (None, st)
      | Inr (hdr, body) \<Rightarrow>
          let key = trace_key_for srv st hdr ordinal;
              tid = (case hdr_tree_id hdr of Some t \<Rightarrow> t | None \<Rightarrow> 0);
              st1 = record_as srv key
                (RequestEvent (command_name (hdr_command hdr)) (session_id hdr) tid) st
          in scoped key (dispatch_scoped srv key hdr body frame) st1)"

section \<open>Compound requests\<close>

text \<open>The loop variables of \<open>dispatch_frame\<close>.\<close>

record compound =
  cp_responses :: "bytes list"
  cp_session_id :: u64
  cp_tree_id :: u32
  cp_create_file_id :: "bytes option"
  cp_ordinal :: u32

definition compound_start :: compound where
  "compound_start =
     \<lparr>cp_responses = [], cp_session_id = 0, cp_tree_id = 0, cp_create_file_id = None,
      cp_ordinal = 0\<rparr>"

definition file_id_body_offset :: "command \<Rightarrow> nat option" where
  "file_id_body_offset cmd =
     (if cmd \<in> {Close, Flush, Lock, Ioctl, QueryDirectory, ChangeNotify, OplockBreak} then Some 8
      else if cmd \<in> {Read, Write} then Some 16
      else if cmd = QueryInfo then Some 24
      else if cmd = SetInfo then Some 16
      else None)"

text \<open>The identifiers of a related request that stand for those of its predecessor.\<close>

definition inherit_session ::
    "u64 \<Rightarrow> bytes \<times> smb2_header \<Rightarrow> (bytes \<times> smb2_header) option" where
  "inherit_session prev s =
     (case s of (frame, hdr) \<Rightarrow> do {
        sid \<leftarrow> read_u64 frame 0x28;
        if sid = - 1
        then do { frame1 \<leftarrow> write_at 0x28 (le64 prev) frame; Some (frame1, hdr\<lparr>session_id := prev\<rparr>) }
        else Some (frame, hdr) })"

definition inherit_tree ::
    "u32 \<Rightarrow> bytes \<times> smb2_header \<Rightarrow> (bytes \<times> smb2_header) option" where
  "inherit_tree prev s =
     (case s of (frame, hdr) \<Rightarrow> do {
        tid \<leftarrow> read_u32 frame 0x24;
        if tid = - 1
        then do {
          frame1 \<leftarrow> write_at 0x24 (le32 prev) frame;
          Some (frame1, case hdr_tail hdr of
              SyncTail reserved _ \<Rightarrow> hdr\<lparr>hdr_tail := SyncTail reserved prev\<rparr>
            | AsyncTail _ \<Rightarrow> hdr) }
        else Some (frame, hdr) })"

definition inherit_file ::
    "bytes option \<Rightarrow> bytes \<times> smb2_header \<Rightarrow> (bytes \<times> smb2_header) option" where
  "inherit_file prev s =
     (case s of (frame, hdr) \<Rightarrow>
        (case (prev, file_id_body_offset (hdr_command hdr)) of
           (Some file_id, Some body_offset) \<Rightarrow>
             let offset = SMB2_HEADER_LEN + body_offset in
             if offset + 16 \<le> length frame
             then do {
               persistent \<leftarrow> read_u64 frame offset;
               volatile \<leftarrow> read_u64 frame (offset + 8);
               if persistent = - 1 \<and> volatile = - 1
               then do { frame1 \<leftarrow> write_at offset file_id frame; Some (frame1, hdr) }
               else Some (frame, hdr) }
             else Some (frame, hdr)
         | _ \<Rightarrow> Some (frame, hdr)))"

definition inherit_related_context ::
    "u64 \<Rightarrow> u32 \<Rightarrow> bytes option \<Rightarrow> bytes \<times> smb2_header \<Rightarrow> (bytes \<times> smb2_header) option" where
  "inherit_related_context prev_session_id prev_tree_id prev_create_file_id s = do {
     s1 \<leftarrow> inherit_session prev_session_id s;
     s2 \<leftarrow> inherit_tree prev_tree_id s1;
     inherit_file prev_create_file_id s2 }"

definition capture_create_file_id :: "bytes \<Rightarrow> bytes option option" where
  "capture_create_file_id response =
     (if length response < SMB2_HEADER_LEN + 80 then Some None
      else do {
        status \<leftarrow> read_u32 response 0x08;
        if status \<noteq> STATUS_SUCCESS then Some None
        else map_option Some (get_range (SMB2_HEADER_LEN + 64) 16 response) })"

text \<open>
  One element of a frame: its header, its bytes and what follows them; nothing if the rest of
  the frame is not a request.
\<close>

definition split_command :: "bytes \<Rightarrow> (smb2_header \<times> bytes \<times> bytes) option" where
  "split_command available =
     (if length available < SMB2_HEADER_LEN then None
      else case smb2_header_parse available of
        Inl _ \<Rightarrow> None
      | Inr (hdr, _) \<Rightarrow>
          let next = unat (next_command hdr) in
          if next = 0 then Some (hdr, available, [])
          else if next < SMB2_HEADER_LEN \<or> next > length available then None
          else Some (hdr, take next available, drop next available))"

definition dispatch_sub ::
    "'w server \<Rightarrow> smb2_header \<Rightarrow> bytes \<Rightarrow> compound \<Rightarrow> 'w st \<Rightarrow> (compound \<times> 'w st) option" where
  "dispatch_sub srv hdr0 sub0 cp st = do {
     (sub, hdr) \<leftarrow>
       (if flags hdr0 AND SMB2_FLAGS_RELATED_OPERATIONS \<noteq> 0
        then inherit_related_context (cp_session_id cp) (cp_tree_id cp) (cp_create_file_id cp)
               (sub0, hdr0)
        else Some (sub0, hdr0));
     let cp1 = cp\<lparr>cp_session_id := session_id hdr,
                  cp_tree_id := (case hdr_tree_id hdr of Some t \<Rightarrow> t | None \<Rightarrow> 0)\<rparr>;
     (r, st1) \<leftarrow> dispatch_one srv sub (cp_ordinal cp) st;
     cp2 \<leftarrow>
       (case r of
          None \<Rightarrow> Some cp1
        | Some response \<Rightarrow> do {
            captured \<leftarrow>
              (if hdr_command hdr = Create then capture_create_file_id response
               else Some (cp_create_file_id cp1));
            Some (cp1\<lparr>cp_create_file_id := captured, cp_responses := cp_responses cp1 @ [response]\<rparr>) });
     Some (cp2\<lparr>cp_ordinal := (if cp_ordinal cp = - 1 then - 1 else cp_ordinal cp + 1)\<rparr>, st1) }"

lemma split_command_length: "split_command b = Some (hdr, sub, rest) \<Longrightarrow> length rest < length b"
  by (auto simp: split_command_def Let_def SMB2_HEADER_LEN_def split: if_splits sum.splits)

text \<open>The loop itself. A fault in a later element discards the responses to the earlier ones.\<close>

function dispatch_compound ::
    "'w server \<Rightarrow> bytes \<Rightarrow> compound \<Rightarrow> 'w st \<Rightarrow> (bytes list option \<times> 'w st) option" where
  "dispatch_compound srv available cp st =
     (if available = [] then Some (Some (cp_responses cp), st)
      else case split_command available of
        None \<Rightarrow> Some (None, st)
      | Some (hdr, sub, rest) \<Rightarrow>
          (case dispatch_sub srv hdr sub cp st of
             None \<Rightarrow> None
           | Some (cp1, st1) \<Rightarrow> dispatch_compound srv rest cp1 st1))"
  by pat_completeness auto
termination
  by (relation "measure (\<lambda>(_, available, _). length available)") (auto dest: split_command_length)

declare dispatch_compound.simps [simp del]

section \<open>Compound responses\<close>

fun stitch_layout :: "bytes list \<Rightarrow> bytes \<Rightarrow> (nat \<times> nat) list \<Rightarrow> (bytes \<times> (nat \<times> nat) list) option"
    where
  "stitch_layout [] out ranges = Some (out, ranges)"
| "stitch_layout [response] out ranges =
     Some (out @ response, ranges @ [(length out, length response)])"
| "stitch_layout (response # responses) out ranges = do {
     let actual_len = length response;
     response1 \<leftarrow> write_at 0x14 (le32 (of_nat (align_up8 actual_len))) response;
     stitch_layout responses (out @ response1 @ replicate (align_up8 actual_len - actual_len) 0)
       (ranges @ [(length out, actual_len)]) }"

definition resign ::
    "'w server \<Rightarrow> 'w connection \<Rightarrow> nat \<times> nat \<Rightarrow> bytes \<Rightarrow> bytes option" where
  "resign srv c part_range out =
     (case part_range of (start, len) \<Rightarrow> do {
        fl \<leftarrow> read_u32 out (start + 0x10);
        if fl AND SMB2_FLAGS_SIGNED = 0 then Some out
        else do {
          sid \<leftarrow> read_u64 out (start + 0x28);
          (case tbl_get (conn_sessions c) sid of
             None \<Rightarrow> Some out
           | Some sess \<Rightarrow>
               if sess_identity sess = Anonymous then Some out
               else do {
                 part \<leftarrow> get_range start len out;
                 (case sign (srv_crypto srv) part (sess_signing_key sess) (conn_signing_algo c) of
                    Inl _ \<Rightarrow> Some out
                  | Inr signed_msg \<Rightarrow> write_at start signed_msg out) }) } })"

fun resign_all ::
    "'w server \<Rightarrow> 'w connection \<Rightarrow> (nat \<times> nat) list \<Rightarrow> bytes \<Rightarrow> bytes option" where
  "resign_all srv c [] out = Some out"
| "resign_all srv c (r # ranges) out = do {
     out1 \<leftarrow> resign srv c r out;
     resign_all srv c ranges out1 }"

definition stitch_responses ::
    "'w server \<Rightarrow> 'w connection \<Rightarrow> bytes list \<Rightarrow> bytes option" where
  "stitch_responses srv c responses = do {
     (out, ranges) \<leftarrow> stitch_layout responses [] [];
     resign_all srv c ranges out }"

section \<open>SMB1 multi-protocol negotiation\<close>

text \<open>
  The dialect strings of the loop. A string is compared with ASCII literals only, and one that is
  not UTF-8 counts as the empty string, so the comparison is one of bytes.
\<close>

function smb1_dialects :: "bytes \<Rightarrow> bytes list" where
  "smb1_dialects blob =
     (case blob of
        [] \<Rightarrow> []
      | b # rest \<Rightarrow>
          if b \<noteq> 2 then []
          else if 0 \<notin> set rest then []
          else takeWhile (\<lambda>x. x \<noteq> 0) rest # smb1_dialects (tl (dropWhile (\<lambda>x. x \<noteq> 0) rest)))"
  by pat_completeness auto
termination
  by (relation "measure length")
    (auto simp: less_Suc_eq_le intro: order_trans [OF diff_le_self length_dropWhile_le])

declare smb1_dialects.simps [simp del]

definition smb1_choice :: "bytes \<Rightarrow> u16 option" where
  "smb1_choice blob =
     (let strings = smb1_dialects blob in
      if map of_char ''SMB 2.???'' \<in> set strings then Some (dialect_as_u16 Smb2Wildcard)
      else if map of_char ''SMB 2.002'' \<in> set strings then Some (dialect_as_u16 Smb202)
      else None)"

definition handle_smb1_multi_protocol ::
    "'w server \<Rightarrow> bytes \<Rightarrow> 'w st \<Rightarrow> (bytes option \<times> 'w st) option" where
  "handle_smb1_multi_protocol srv frame st =
     (if length frame < 35 then Some (None, st)
      else do {
        magic \<leftarrow> get_range 0 4 frame;
        cmd \<leftarrow> get_at 4 frame;
        if magic \<noteq> [0xFF, 0x53, 0x4D, 0x42] \<or> cmd \<noteq> 0x72 then Some (None, st)
        else do {
          count \<leftarrow> get_range 33 2 frame;
          let blob_end = min (35 + unat (de16 count)) (length frame);
          blob \<leftarrow> get_range 35 (blob_end - 35) frame;
          (case smb1_choice blob of
             None \<Rightarrow> Some (None, st)
           | Some chosen \<Rightarrow>
               let req_hdr = default_header\<lparr>hdr_tail := SyncTail 0 0xFFFF\<rparr>;
                   (resp, st1) = multi_protocol_response srv chosen st
               in Some (Some (build_response_bytes srv (st_conn st1) req_hdr resp), st1)) } })"

section \<open>Frames\<close>

definition dispatch_frame ::
    "'w server \<Rightarrow> bytes \<Rightarrow> 'w st \<Rightarrow> (bytes option \<times> 'w st) option" where
  "dispatch_frame srv frame st =
     do {
       (smb1, st1) \<leftarrow> handle_smb1_multi_protocol srv frame st;
       (case smb1 of
          Some bytes \<Rightarrow> Some (Some bytes, st1)
        | None \<Rightarrow>
            if length frame < SMB2_HEADER_LEN then Some (None, st1)
            else do {
              (responses, st2) \<leftarrow> dispatch_compound srv frame compound_start st1;
              (case responses of
                 None \<Rightarrow> Some (None, st2)
               | Some [] \<Rightarrow> Some (None, st2)
               | Some rs \<Rightarrow> do {
                   out \<leftarrow> stitch_responses srv (st_conn st2) rs;
                   Some (Some out, st2) }) }) }"

section \<open>The contract of a request\<close>

text \<open>Only SESSION_SETUP asks for a snapshot, for the session it names, under SMB 3.1.1.\<close>

lemma or_fail_plain:
  "(\<And>x. r = Inr x \<Longrightarrow> hr_take_preauth_snapshot (fst (f x)) = None) \<Longrightarrow>
    hr_take_preauth_snapshot (fst (or_fail r st f)) = None"
  by (cases r) simp_all

lemma or_panic_plain:
  "(\<And>x. p = Some x \<Longrightarrow> hr_take_preauth_snapshot (fst (f x)) = None) \<Longrightarrow>
    hr_take_preauth_snapshot (fst (or_panic p st f)) = None"
  by (cases p) simp_all

lemma no_snapshot:
  assumes "hdr_command hdr \<noteq> SessionSetup"
  shows "hr_take_preauth_snapshot (fst (dispatch_command srv hdr body st)) = None"
  unfolding dispatch_command_def handle_negotiate_def handle_logoff_def handle_tree_connect_def
    handle_tree_disconnect_def handle_create_def handle_close_def handle_flush_def handle_read_def
    handle_write_def handle_lock_def handle_ioctl_def handle_echo_def handle_query_directory_def
    handle_change_notify_def handle_query_info_def handle_set_info_def set_rename_def
    finish_set_info_def handle_oplock_break_def
  using assms
  by (auto simp: Let_def case_prod_unfold intro!: or_fail_plain or_panic_plain
      split: sum.splits option.splits fsctl.splits command.splits)

lemma setup_snapshot:
  "hr_take_preauth_snapshot (fst (handle_session_setup srv hdr body st)) = Some sid \<Longrightarrow>
    conn_dialect (st_conn st) = Some Smb311 \<and> sid = session_id hdr"
  unfolding handle_session_setup_def setup_first_def setup_second_def or_fail_def or_panic_def
  by (auto simp: Let_def case_prod_unfold split: sum.splits option.splits if_splits)

lemma snapshotD:
  assumes "dispatch_command srv hdr body st = (resp, st')"
    and "hr_take_preauth_snapshot resp = Some sid"
  shows "hdr_command hdr = SessionSetup \<and> conn_dialect (st_conn st) = Some Smb311 \<and>
    sid = session_id hdr"
proof -
  have "hdr_command hdr = SessionSetup"
    using no_snapshot [of hdr srv body st] assms by fastforce
  with setup_snapshot [of srv hdr body st sid] assms show ?thesis
    by (simp add: dispatch_command_def)
qed

lemma dispatch_command_returns: "returns (dispatch_command srv hdr body st)"
  by (simp add: dispatch_command_def negotiate.h_returns session_setup.h_returns logoff.h_returns
      tree_connect.h_returns tree_disconnect.h_returns create.h_returns file_close.h_returns
      file_flush.h_returns file_read.h_returns file_write.h_returns lock.h_returns ioctl.h_returns
      echo.h_returns query_directory.h_returns change_notify.h_returns query_info.h_returns
      set_info.h_returns oplock_break.h_returns split: command.splits)

lemma dispatch_command_step: "step_ok srv hdr st (snd (dispatch_command srv hdr body st))"
  by (simp add: dispatch_command_def negotiate.h_step session_setup.h_step logoff.h_step
      tree_connect.h_step tree_disconnect.h_step create.h_step file_close.h_step file_flush.h_step
      file_read.h_step file_write.h_step lock.h_step ioctl.h_step echo.h_step
      query_directory.h_step change_notify.h_step query_info.h_step set_info.h_step
      oplock_break.h_step step_refl split: command.splits)

interpretation router: handler dispatch_command
  by unfold_locales (rule dispatch_command_step, rule dispatch_command_returns)

section \<open>One request and the state\<close>

lemma preauth_request_step: "step_ok srv hdr st (snd (preauth_request srv hdr frame st))"
  unfolding preauth_request_def take_session_preauth_def
  by (auto simp: Let_def case_prod_unfold conn_ok_def conn_allowed_def split: option.splits
      intro!: step_put_conn)

lemma stash_snapshot_step:
  assumes "stash_snapshot srv preauth resp st = Some st'"
    and "hr_take_preauth_snapshot resp \<noteq> None \<Longrightarrow>
      hr_take_preauth_snapshot resp = Some (session_id hdr)"
  shows "step_ok srv hdr st st'"
  using assms
  by (auto simp: stash_snapshot_def session_ok_def session_allowed_def tree_allowed_def split: option.splits
      intro!: step_put_conn update_session_ok update_session_allowed)

lemma preauth_response_step:
  assumes "preauth_response srv hdr dialect preauth bytes st = Some st'"
  shows "step_ok srv hdr st st'"
  using assms
  by (auto simp: preauth_response_def Let_def conn_ok_def conn_allowed_def Option.bind_eq_Some_conv
      split: option.splits if_splits intro!: step_put_conn)

lemma record_as_simps [simp]:
  "st_conn (record_as srv key ev st) = st_conn st"
  "st_world (record_as srv key ev st) = st_world st"
  "st_key (record_as srv key ev st) = st_key st"
  "st_log (record_as srv key ev st) = trace_record (srv_trace_armed srv) key ev (st_log st)"
  by (simp_all add: record_as_def)

lemma step_record_as:
  assumes "step_ok srv hdr st st'" and "srv_trace_armed srv \<Longrightarrow> st_key st = key"
  shows "step_ok srv hdr st (record_as srv key ev st')"
  using assms extends_log_record [of "srv_trace_armed srv" key "st_log st" "st_log st'" ev]
  by (cases "srv_trace_armed srv") (auto simp: step_ok_def)

text \<open>The three ways a request ends.\<close>

lemma dispatch_scoped_cases:
  assumes "dispatch_scoped srv key hdr body frame st = Some (r, st')"
  obtains (rejected) status where
      "verify_request_signature srv (st_conn st) hdr frame = Inl status"
      "r = Some (build_response_bytes srv (st_conn st) hdr (response_err status))"
      "st' = record_as srv key (ResponseEvent status) st"
  | (cancelled) "verify_request_signature srv (st_conn st) hdr frame = Inr ()"
      "hdr_command hdr = Cancel" "r = None" "st' = st"
  | (handled) preauth st1 resp st2 st3 bytes status where
      "verify_request_signature srv (st_conn st) hdr frame = Inr ()"
      "hdr_command hdr \<noteq> Cancel"
      "preauth_request srv hdr frame st = (preauth, st1)"
      "dispatch_command srv hdr body st1 = (resp, st2)"
      "stash_snapshot srv preauth resp st2 = Some st3"
      "bytes = build_response_bytes srv (st_conn st3) hdr resp"
      "read_u32 bytes 0x08 = Some status" "r = Some bytes"
      "preauth_response srv hdr (conn_dialect (st_conn st)) preauth bytes
         (record_as srv key (ResponseEvent status) st3) = Some st'" "\<not> hr_panicked resp"
proof (cases "verify_request_signature srv (st_conn st) hdr frame")
  case (Inl status)
  with assms rejected show ?thesis by (simp add: dispatch_scoped_def)
next
  case (Inr u)
  obtain preauth st1 where pre: "preauth_request srv hdr frame st = (preauth, st1)" by fastforce
  obtain resp st2 where run: "dispatch_command srv hdr body st1 = (resp, st2)" by fastforce
  from Inr pre run assms cancelled handled show ?thesis
    by (auto simp: dispatch_scoped_def Let_def Option.bind_eq_Some_conv split: if_splits)
qed

lemma dispatch_scoped_step:
  assumes "dispatch_scoped srv key hdr body frame st = Some (r, st')"
    and "srv_trace_armed srv \<Longrightarrow> st_key st = key"
  shows "step_ok srv hdr st st'"
  using assms(1)
proof (cases rule: dispatch_scoped_cases)
  case (rejected status)
  with assms(2) show ?thesis by (auto intro!: step_record_as)
next
  case (handled preauth st1 resp st2 st3 bytes status)
  have "step_ok srv hdr st st1"
    using preauth_request_step [of srv hdr st frame] handled(3) by simp
  also have "step_ok srv hdr st1 st2"
    using dispatch_command_step [of srv hdr st1 body] handled(4) by simp
  also have "step_ok srv hdr st2 st3"
    by (rule stash_snapshot_step [OF handled(5)]) (use snapshotD [OF handled(4)] in auto)
  finally have "step_ok srv hdr st (record_as srv key (ResponseEvent status) st3)"
    by (rule step_record_as) (rule assms(2))
  also have "step_ok srv hdr (record_as srv key (ResponseEvent status) st3) st'"
    using handled(9) by (rule preauth_response_step)
  finally show ?thesis .
qed simp

end
