(* ===== verification/Dispatch_Reply.thy ===== *)
theory Dispatch_Reply
  imports Dispatch
begin

text \<open>
  What \<open>dispatch_one\<close> of \<open>src/src/dispatch.rs\<close> promises for one request: it answers without a panic,
  the answer belongs to the request, requests with a wrong signature change nothing, and the trace
  events carry the key of the request.
\<close>

lemma extends_log_one [simp, intro]: "extends_log True key log (log @ [(key, e)])"
  unfolding extends_log_def by (rule exI [of _ "[e]"]) simp

text \<open>The state in which the body of a request runs.\<close>

definition request_scope :: "'w server \<Rightarrow> trace_key option \<Rightarrow> smb2_header \<Rightarrow> 'w st \<Rightarrow> 'w st" where
  "request_scope srv key hdr st =
     (record_as srv key (RequestEvent (command_name (hdr_command hdr)) (session_id hdr)
        (case hdr_tree_id hdr of Some t \<Rightarrow> t | None \<Rightarrow> 0)) st)
     \<lparr>st_key := (if srv_trace_armed srv then key else st_key st)\<rparr>"

lemma request_scope_simps [simp]:
  "st_conn (request_scope srv key hdr st) = st_conn st"
  "st_world (request_scope srv key hdr st) = st_world st"
  "srv_trace_armed srv \<Longrightarrow> st_key (request_scope srv key hdr st) = key"
  "\<not> srv_trace_armed srv \<Longrightarrow> request_scope srv key hdr st = st"
  by (simp_all add: request_scope_def record_as_def)

lemma dispatch_one_run:
  assumes "smb2_header_parse frame = Inr (hdr, body)"
    and key: "key = trace_key_for srv st hdr ordinal"
  shows "dispatch_one srv frame ordinal st =
    map_option (apsnd (\<lambda>st'. st'\<lparr>st_key := st_key st\<rparr>))
      (dispatch_scoped srv key hdr body frame (request_scope srv key hdr st))"
proof (cases "srv_trace_armed srv")
  case True
  then show ?thesis
    using assms(1)
    by (simp add: Let_def dispatch_one_def key trace_key_for_def scoped_def request_scope_def record_as_def Let_def)
next
  case False
  then have run: "dispatch_one srv frame ordinal st = dispatch_scoped srv key hdr body frame st"
    using assms(1)
    by (simp add: Let_def dispatch_one_def key trace_key_for_def scoped_def record_as_def)
  show ?thesis
  proof (cases "dispatch_scoped srv key hdr body frame st")
    case None
    with run False show ?thesis by simp
  next
    case (Some p)
    obtain r st' where p: "p = (r, st')" by (cases p)
    have "step_ok srv hdr st st'"
      using dispatch_scoped_step [of srv key hdr body frame st r st'] Some p False by simp
    then have "st'\<lparr>st_key := st_key st\<rparr> = st'"
      by (simp add: step_ok_def)
    with run Some p False show ?thesis by simp
  qed
qed

lemma dispatch_one_cases:
  assumes "dispatch_one srv frame ordinal st = Some (r, st')"
  obtains (garbage) "r = None" "st' = st" "\<nexists>p. smb2_header_parse frame = Inr p"
  | (request) hdr body key st1 where "smb2_header_parse frame = Inr (hdr, body)"
      "key = trace_key_for srv st hdr ordinal"
      "dispatch_scoped srv key hdr body frame (request_scope srv key hdr st) = Some (r, st1)"
      "st' = st1\<lparr>st_key := st_key st\<rparr>"
proof (cases "smb2_header_parse frame")
  case (Inl e)
  with assms garbage show ?thesis by (simp add: dispatch_one_def)
next
  case (Inr p)
  then obtain hdr body where "smb2_header_parse frame = Inr (hdr, body)" by (cases p) simp
  with assms request show ?thesis by (auto simp: dispatch_one_run)
qed

text \<open>What a request may do: as a handler, but the events carry the key of the request.\<close>

definition request_ok ::
    "'w server \<Rightarrow> trace_key option \<Rightarrow> smb2_header \<Rightarrow> 'w st \<Rightarrow> 'w st \<Rightarrow> bool" where
  "request_ok srv key hdr st st' \<longleftrightarrow>
     (conn_ok (st_conn st) \<longrightarrow> conn_ok (st_conn st')) \<and>
     (config_ok srv \<longrightarrow>
        (\<forall>X. conn_allowed X srv (st_conn st) \<longrightarrow> conn_allowed X srv (st_conn st'))) \<and>
     (\<forall>k. k \<noteq> session_id hdr \<longrightarrow>
        tbl_get (conn_sessions (st_conn st')) k = tbl_get (conn_sessions (st_conn st)) k) \<and>
     conn_id (st_conn st') = conn_id (st_conn st) \<and> st_key st' = st_key st \<and>
     extends_log (srv_trace_armed srv) key (st_log st) (st_log st')"

lemma dispatch_one_request:
  assumes "dispatch_one srv frame ordinal st = Some (r, st')"
    and "smb2_header_parse frame = Inr (hdr, body)"
  shows "request_ok srv (trace_key_for srv st hdr ordinal) hdr st st'"
  using assms(1)
proof (cases rule: dispatch_one_cases)
  case garbage
  with assms(2) show ?thesis by blast
next
  case (request hdr' body' key st1)
  let ?s0 = "request_scope srv key hdr st"
  have same [simp]: "hdr' = hdr" "body' = body" using request(1) assms(2) by simp_all
  have step: "step_ok srv hdr ?s0 st1"
    by (rule dispatch_scoped_step [OF request(3) [unfolded same]]) simp
  have "extends_log (srv_trace_armed srv) key (st_log st) (st_log ?s0)"
    by (cases "srv_trace_armed srv")
      (auto simp: request_scope_def)
  also have "extends_log (srv_trace_armed srv) key (st_log ?s0) (st_log st1)"
    using step by (cases "srv_trace_armed srv") (auto simp: step_ok_def extends_log_def)
  finally have "extends_log (srv_trace_armed srv) key (st_log st) (st_log st1)" .
  with step request(2,4) show ?thesis
    by (simp add: request_ok_def step_ok_def)
qed
section \<open>The bytes of a response\<close>

lemma flag_iff:
  "(f :: u32) AND SMB2_FLAGS_SERVER_TO_REDIR = 0 \<longleftrightarrow> \<not> bit f 0"
  "f AND SMB2_FLAGS_ASYNC_COMMAND = 0 \<longleftrightarrow> \<not> bit f 1"
  "f AND SMB2_FLAGS_SIGNED = 0 \<longleftrightarrow> \<not> bit f 3"
  using and_exp_eq_0_iff_not_bit [of f 0] and_exp_eq_0_iff_not_bit [of f 1]
    and_exp_eq_0_iff_not_bit [of f 3]
  by (simp_all add: flag_defs)

lemma flag_bits:
  "bit SMB2_FLAGS_SERVER_TO_REDIR n \<longleftrightarrow> n = 0" "bit SMB2_FLAGS_ASYNC_COMMAND n \<longleftrightarrow> n = 1"
  "bit SMB2_FLAGS_SIGNED n \<longleftrightarrow> n = 3"
proof -
  have "bit (2 ^ k :: u32) n \<longleftrightarrow> n = k" if "k < 32" for k
    using that by (auto simp: bit_simps)
  from this [of 0] this [of 1] this [of 3]
  show "bit SMB2_FLAGS_SERVER_TO_REDIR n \<longleftrightarrow> n = 0" "bit SMB2_FLAGS_ASYNC_COMMAND n \<longleftrightarrow> n = 1"
    "bit SMB2_FLAGS_SIGNED n \<longleftrightarrow> n = 3"
    by (simp_all add: flag_defs)
qed

text \<open>The header as it leaves the server, up to its signature.\<close>

definition reply_header ::
    "'w connection \<Rightarrow> smb2_header \<Rightarrow> handler_response \<Rightarrow> bytes \<Rightarrow> smb2_header" where
  "reply_header c req resp sig =
     (let h = response_header req resp in
      h\<lparr>flags := (if response_key c req resp = None then flags h AND NOT SMB2_FLAGS_SIGNED
                  else flags h OR SMB2_FLAGS_SIGNED), signature := sig\<rparr>)"

lemma reply_header_simps [simp]:
  "hdr_command (reply_header c req resp sig) = hdr_command req"
  "message_id (reply_header c req resp sig) = message_id req"
  "credit_charge (reply_header c req resp sig) = credit_charge req"
  "credit_request_response (reply_header c req resp sig) = credit_request_response req"
  "next_command (reply_header c req resp sig) = 0"
  "channel_sequence_status (reply_header c req resp sig) = hr_status resp"
  "session_id (reply_header c req resp sig) = session_id (response_header req resp)"
  "hdr_tail (reply_header c req resp sig) = hdr_tail (response_header req resp)"
  "signature (reply_header c req resp sig) = sig"
  by (simp_all add: reply_header_def response_header_def Let_def)

lemma reply_flags [simp]:
  "is_response (reply_header c req resp sig)" "\<not> is_async (reply_header c req resp sig)"
  "flags (reply_header c req resp sig) AND SMB2_FLAGS_SIGNED = 0 \<longleftrightarrow> response_key c req resp = None"
  by (auto simp: is_response_def is_async_def reply_header_def response_header_def Let_def flag_iff
      flag_bits bit_and_iff bit_or_iff bit_not_iff_eq)

lemma reply_header_zero:
  "reply_header c req resp (replicate 16 0) = (response_header req resp)
    \<lparr>flags := (if response_key c req resp = None
        then flags (response_header req resp) AND NOT SMB2_FLAGS_SIGNED
        else flags (response_header req resp) OR SMB2_FLAGS_SIGNED)\<rparr>"
  by (rule smb2_header.equality) (simp_all add: reply_header_def response_header_def Let_def)

lemma wf_reply_header: "length sig = 16 \<Longrightarrow> wf_header (reply_header c req resp sig)"
  by (simp add: wf_header_def response_header_def tail_sync_def)

lemma build_response_shape:
  assumes "crypto_ok (srv_crypto srv)"
  obtains sig where "length sig = 16"
    "build_response_bytes srv c req resp = smb2_header_write (reply_header c req resp sig) @ hr_body resp"
    "\<And>key. response_key c req resp = Some key \<Longrightarrow>
       verify (srv_crypto srv) (build_response_bytes srv c req resp) key (conn_signing_algo c) = Inr ()"
proof (cases "response_key c req resp")
  case None
  then have "build_response_bytes srv c req resp
      = smb2_header_write (reply_header c req resp (replicate 16 0)) @ hr_body resp"
    by (simp add: build_response_bytes_def reply_header_zero Let_def)
  with None that [of "replicate 16 0"] show ?thesis by simp
next
  case (Some key)
  let ?h = "reply_header c req resp (replicate 16 0)"
  let ?out = "smb2_header_write ?h @ hr_body resp"
  let ?mac = "compute_mac_zeroed_signature (srv_crypto srv) ?out key (conn_signing_algo c)"
  have len: "length (smb2_header_write ?h) = 64"
    by (simp add: length_header_write SMB2_HEADER_LEN_def)
  then have signed_out: "sign (srv_crypto srv) ?out key (conn_signing_algo c)
      = Inr (patch SIG_OFF ?mac ?out)"
    by (simp add: sign_def)
  moreover have "?h = (response_header req resp)
      \<lparr>flags := flags (response_header req resp) OR SMB2_FLAGS_SIGNED\<rparr>"
    using Some by (simp add: reply_header_zero)
  ultimately have bytes: "build_response_bytes srv c req resp = patch SIG_OFF ?mac ?out"
    using Some by (simp add: build_response_bytes_def Let_def)
  have mac: "length ?mac = 16" using assms by simp
  have "reply_header c req resp ?mac = ?h\<lparr>signature := ?mac\<rparr>"
    by (simp add: reply_header_def Let_def)
  then have "patch SIG_OFF ?mac ?out
      = smb2_header_write (reply_header c req resp ?mac) @ hr_body resp"
    using mac len by (simp add: header_write_signature patch_append_left SIG_OFF_def)
  moreover have "verify (srv_crypto srv) (patch SIG_OFF ?mac ?out) key (conn_signing_algo c) = Inr ()"
    using sign_verifies [OF assms signed_out] by simp
  ultimately show ?thesis
    using that [OF mac] bytes Some by simp
qed

lemma response_length:
  "crypto_ok (srv_crypto srv) \<Longrightarrow> 64 \<le> length (build_response_bytes srv c req resp)"
  by (rule build_response_shape [of srv c req resp])
    (simp_all add: length_header_write SMB2_HEADER_LEN_def)

section \<open>No panics\<close>

lemma get_range_Some: "off + n \<le> length b \<Longrightarrow> get_range off n b = Some (slice off n b)"
  by (simp add: get_range_def)

lemma read_in_bounds:
  "off + 4 \<le> length b \<Longrightarrow> read_u32 b off = Some (de32 (slice off 4 b))"
  "off + 8 \<le> length b \<Longrightarrow> read_u64 b off = Some (de64 (slice off 8 b))"
  by (simp_all add: read_u32_def read_u64_def get_range_Some)

lemma preauth_request_some:
  "preauth_request srv hdr frame st = (p, st1) \<Longrightarrow> conn_dialect (st_conn st1) = conn_dialect (st_conn st) \<and>
    (p = None \<longleftrightarrow> \<not> (hdr_command hdr = SessionSetup \<and> conn_dialect (st_conn st) = Some Smb311))"
  by (auto simp: preauth_request_def take_session_preauth_def Let_def case_prod_unfold
      split: option.splits if_splits)

lemma dispatch_scoped_total:
  assumes "crypto_ok (srv_crypto srv)"
  shows "\<exists>r st'. dispatch_scoped srv key hdr body frame st = Some (r, st')"
proof (cases "verify_request_signature srv (st_conn st) hdr frame = Inr () \<and> hdr_command hdr \<noteq> Cancel")
  case False
  then show ?thesis by (auto simp: dispatch_scoped_def split: sum.splits)
next
  case True
  obtain p st1 where pre: "preauth_request srv hdr frame st = (p, st1)" by fastforce
  obtain resp st2 where run: "dispatch_command srv hdr body st1 = (resp, st2)" by fastforce
  have "p \<noteq> None" if "hr_take_preauth_snapshot resp = Some sid" for sid
    using snapshotD [OF run that] preauth_request_some [OF pre] by auto
  then obtain st3 where stash: "stash_snapshot srv p resp st2 = Some st3"
    by (cases "hr_take_preauth_snapshot resp"; cases p) (auto simp: stash_snapshot_def)
  have "64 \<le> length (build_response_bytes srv (st_conn st3) hdr resp)"
    using assms by (rule response_length)
  moreover have "\<not> hr_panicked resp"
    using router.h_returns [of srv hdr body st1] run by (simp add: returns_def)
  ultimately show ?thesis
    using True pre run stash
    by (auto simp: dispatch_scoped_def Let_def read_in_bounds preauth_response_def
        split: option.splits)
qed

lemma dispatch_one_total:
  assumes "crypto_ok (srv_crypto srv)"
  shows "\<exists>r st'. dispatch_one srv frame ordinal st = Some (r, st')"
proof (cases "smb2_header_parse frame")
  case (Inl e)
  then show ?thesis by (simp add: dispatch_one_def)
next
  case (Inr p)
  obtain hdr body where "p = (hdr, body)" by (cases p)
  with Inr dispatch_scoped_total [OF assms] show ?thesis
    by (simp add: dispatch_one_run [OF _ refl])
qed

section \<open>The answer belongs to the request\<close>

lemma header_fields_at:
  assumes "length (signature h) = 16"
  shows "read_u32 (smb2_header_write h @ r) 0x08 = Some (channel_sequence_status h)"
    and "read_u32 (smb2_header_write h @ r) 0x10 = Some (flags h)"
    and "read_u32 (smb2_header_write h @ r) 0x14 = Some (next_command h)"
    and "read_u64 (smb2_header_write h @ r) 0x28 = Some (session_id h)"
proof -
  have tail: "length (raw_tail (raw_of h)) = 8"
    by (simp add: raw_of_def split: header_tail.splits)
  have len: "length (smb2_header_write h) = 64"
    using assms by (simp add: length_header_write SMB2_HEADER_LEN_def)
  let ?w = "smb2_header_write h"
  have "slice 8 4 ?w = le32 (channel_sequence_status h)" "slice 16 4 ?w = le32 (flags h)"
    "slice 20 4 ?w = le32 (next_command h)" "slice 40 8 ?w = le64 (session_id h)"
    using tail
    by (simp_all add: smb2_header_write_def put_raw_header_def raw_of_def SMB2_MAGIC_def slice_def)
  with len show "read_u32 (?w @ r) 0x08 = Some (channel_sequence_status h)"
    "read_u32 (?w @ r) 0x10 = Some (flags h)" "read_u32 (?w @ r) 0x14 = Some (next_command h)"
    "read_u64 (?w @ r) 0x28 = Some (session_id h)"
    by (simp_all add: read_in_bounds)
qed


text \<open>The built bytes, parsed back.\<close>

lemma build_response_parse:
  assumes "crypto_ok (srv_crypto srv)"
    and bytes_def: "bytes = build_response_bytes srv c req resp"
  obtains sig where "smb2_header_parse bytes = Inr (reply_header c req resp sig, hr_body resp)"
    "length sig = 16" "read_u32 bytes 0x08 = Some (hr_status resp)"
    "read_u64 bytes 0x28 = Some (session_id (response_header req resp))"
    "\<And>key. response_key c req resp = Some key \<Longrightarrow>
       verify (srv_crypto srv) bytes key (conn_signing_algo c) = Inr ()"
proof -
  obtain sig where sig: "length sig = 16"
      "bytes = smb2_header_write (reply_header c req resp sig) @ hr_body resp"
      "\<And>key. response_key c req resp = Some key \<Longrightarrow>
         verify (srv_crypto srv) bytes key (conn_signing_algo c) = Inr ()"
    using build_response_shape [OF assms(1), of c req resp] unfolding bytes_def by metis
  show ?thesis
    by (rule that [of sig])
      (use sig header_fields_at [of "reply_header c req resp sig" "hr_body resp"]
         header_parse_write [OF wf_reply_header [OF sig(1)]] in simp_all)
qed

lemma response_keyD:
  assumes "response_key c req resp = Some key"
  shows "\<exists>s. tbl_get (conn_sessions c) (session_id (response_header req resp)) = Some s \<and>
    sess_identity s \<noteq> Anonymous \<and> sess_signing_key s = key \<and> key \<noteq> replicate 16 0"
  using assms by (auto simp: response_key_def Let_def split: if_splits option.splits)

lemma preauth_response_conn:
  assumes "preauth_response srv hdr d p bytes st = Some st'"
  shows "conn_sessions (st_conn st') = conn_sessions (st_conn st)"
    "conn_signing_algo (st_conn st') = conn_signing_algo (st_conn st)"
    "st_log st' = st_log st" "st_world st' = st_world st"
    "conn_dialect (st_conn st') = conn_dialect (st_conn st)"
  using assms
  by (auto simp: preauth_response_def Let_def Option.bind_eq_Some_conv split: option.splits if_splits)

text \<open>
  The identifiers in the header of a reply: those of the request, but the challenge of a logon names
  the session that it opens, and a successful TREE_CONNECT the tree that it has connected.
\<close>

definition answered_session :: "smb2_header \<Rightarrow> 'w connection \<Rightarrow> u32 \<Rightarrow> u64" where
  "answered_session req c status =
     (if hdr_command req = SessionSetup \<and> status = STATUS_MORE_PROCESSING_REQUIRED
      then conn_next_session_id c else session_id req)"

definition answered_tree :: "smb2_header \<Rightarrow> 'w connection \<Rightarrow> u32 \<Rightarrow> u32 \<Rightarrow> bool" where
  "answered_tree req c status tid \<longleftrightarrow>
     (if hdr_command req = TreeConnect \<and> status = STATUS_SUCCESS
      then \<exists>s t. tbl_get (conn_sessions c) (session_id req) = Some s \<and>
        tbl_get (sess_trees s) tid = Some t \<and> tree_id t = tid \<and> tree_opens t = []
      else tid = (case hdr_tree_id req of Some t \<Rightarrow> t | None \<Rightarrow> 0))"

lemma plain_or_fail:
  "(\<And>x. r = Inr x \<Longrightarrow> hr_override_tree_id (fst (f x)) = None) \<Longrightarrow>
    hr_override_tree_id (fst (or_fail r st f)) = None"
  "(\<And>x. r = Inr x \<Longrightarrow> hr_override_session_id (fst (f x)) = None) \<Longrightarrow>
    hr_override_session_id (fst (or_fail r st f)) = None"
  by (cases r; simp)+

lemma plain_or_panic:
  "(\<And>x. p = Some x \<Longrightarrow> hr_override_tree_id (fst (f x)) = None) \<Longrightarrow>
    hr_override_tree_id (fst (or_panic p st f)) = None"
  "(\<And>x. p = Some x \<Longrightarrow> hr_override_session_id (fst (f x)) = None) \<Longrightarrow>
    hr_override_session_id (fst (or_panic p st f)) = None"
  by (cases p; simp)+

lemmas handler_defs = handle_negotiate_def handle_logoff_def handle_tree_disconnect_def
  handle_create_def handle_close_def handle_flush_def handle_read_def handle_write_def
  handle_lock_def handle_ioctl_def handle_echo_def handle_query_directory_def
  handle_change_notify_def handle_query_info_def handle_set_info_def set_rename_def
  finish_set_info_def handle_oplock_break_def

lemma no_override_tree:
  "hdr_command hdr \<noteq> TreeConnect \<Longrightarrow> hr_override_tree_id (fst (dispatch_command srv hdr body st)) = None"
proof (cases "hdr_command hdr = SessionSetup")
  case True
  obtain resp st' where run: "handle_session_setup srv hdr body st = (resp, st')" by fastforce
  then have "hr_override_tree_id resp = None"
    by (cases rule: session_setup_cases) (auto dest: setup_first_ids setup_second_ids)
  with run True show ?thesis by (simp add: dispatch_command_def)
next
  case False
  assume "hdr_command hdr \<noteq> TreeConnect"
  with False show ?thesis
    unfolding dispatch_command_def handler_defs
    by (auto simp: Let_def case_prod_unfold intro!: plain_or_fail plain_or_panic
        split: sum.splits option.splits fsctl.splits command.splits)
qed

lemma no_override_session:
  "hdr_command hdr \<noteq> SessionSetup \<Longrightarrow>
    hr_override_session_id (fst (dispatch_command srv hdr body st)) = None"
  unfolding dispatch_command_def handler_defs handle_tree_connect_def
  by (auto simp: Let_def case_prod_unfold intro!: plain_or_fail plain_or_panic
      split: sum.splits option.splits fsctl.splits command.splits)

lemma tree_connect_id:
  assumes "handle_tree_connect srv hdr body st = (resp, st')"
  shows "if hr_status resp = STATUS_SUCCESS
    then \<exists>tid s t. hr_override_tree_id resp = Some tid \<and>
      tbl_get (conn_sessions (st_conn st')) (session_id hdr) = Some s \<and>
      tbl_get (sess_trees s) tid = Some t \<and> tree_id t = tid \<and> tree_opens t = []
    else hr_override_tree_id resp = None"
proof (cases "hr_status resp = STATUS_SUCCESS")
  case True
  with assms show ?thesis
    unfolding handle_tree_connect_def
    by (fastforce simp: Let_def lookup_session_Inr tree_connect_new_def split: prod.splits
        dest!: or_fail_success)
next
  case False
  with assms show ?thesis
    by (auto simp: handle_tree_connect_def Let_def split: prod.splits elim!: or_fail_cases)
qed

lemma command_session:
  assumes "dispatch_command srv hdr body st = (resp, st')"
  shows "session_id (response_header hdr resp) = answered_session hdr (st_conn st) (hr_status resp)"
proof (cases "hdr_command hdr = SessionSetup")
  case True
  with assms have "handle_session_setup srv hdr body st = (resp, st')"
    by (simp add: dispatch_command_def)
  then show ?thesis
    by (cases rule: session_setup_cases)
      (use True in \<open>auto simp: response_header_def answered_session_def
        dest: setup_first_ids setup_second_ids\<close>)
next
  case False
  with assms no_override_session [of hdr srv body st] show ?thesis
    by (simp add: response_header_def answered_session_def)
qed

lemma tail_sync_tree: "hdr_tree_id (h\<lparr>hdr_tail := tail_sync tid\<rparr>) = Some tid"
  by (simp add: hdr_tree_id_def tail_sync_def)

lemma command_tree:
  assumes "dispatch_command srv hdr body st = (resp, st')"
  shows "\<exists>tid. hdr_tail (response_header hdr resp) = tail_sync tid \<and>
    answered_tree hdr (st_conn st') (hr_status resp) tid"
proof (cases "hdr_command hdr = TreeConnect")
  case True
  with assms have "handle_tree_connect srv hdr body st = (resp, st')"
    by (simp add: dispatch_command_def)
  from tree_connect_id [OF this] True show ?thesis
    by (auto simp: response_header_def answered_tree_def split: if_splits)
next
  case False
  with assms no_override_tree [of hdr srv body st] show ?thesis
    by (simp add: response_header_def answered_tree_def)
qed

lemma preauth_request_next:
  "conn_next_session_id (st_conn (snd (preauth_request srv hdr frame st)))
    = conn_next_session_id (st_conn st)"
  by (auto simp: preauth_request_def take_session_preauth_def Let_def case_prod_unfold
      split: option.splits)

lemma stash_snapshot_plain:
  "stash_snapshot srv p resp st = Some st' \<Longrightarrow> hr_take_preauth_snapshot resp = None \<Longrightarrow> st' = st"
  by (simp add: stash_snapshot_def)

text \<open>
  Whatever way a request was answered, the answer was built by \<open>build_response_bytes\<close> over the
  sessions and the signing algorithm of the final state, its identifiers are right, and its status
  is what was traced last.
\<close>

lemma dispatch_one_answer:
  assumes "crypto_ok (srv_crypto srv)" and "smb2_header_parse frame = Inr (req, body)"
    and "dispatch_one srv frame ordinal st = Some (Some bytes, st')"
  obtains c resp where "bytes = build_response_bytes srv c req resp"
    "conn_sessions (st_conn st') = conn_sessions c"
    "conn_signing_algo (st_conn st') = conn_signing_algo c"
    "srv_trace_armed srv \<Longrightarrow> last (st_log st')
       = (trace_key_for srv st req ordinal, ResponseEvent (hr_status resp))"
    "session_id (response_header req resp) = answered_session req (st_conn st) (hr_status resp)"
    "\<exists>tid. hdr_tail (response_header req resp) = tail_sync tid \<and>
       answered_tree req (st_conn st') (hr_status resp) tid"
  using assms(3)
proof (cases rule: dispatch_one_cases)
  case (request hdr' body' key st1)
  have same: "hdr' = req" "body' = body" using request(1) assms(2) by simp_all
  from request(3) show ?thesis
  proof (cases rule: dispatch_scoped_cases)
    case (rejected status)
    then have "status \<noteq> STATUS_SUCCESS" "status \<noteq> STATUS_MORE_PROCESSING_REQUIRED"
      by (auto simp: verify_request_signature_def more_processing status_defs
          split: if_splits option.splits sum.splits)
    then have "session_id (response_header req (response_err status))
        = answered_session req (st_conn st) status"
      "\<exists>tid. hdr_tail (response_header req (response_err status)) = tail_sync tid \<and>
         answered_tree req (st_conn st') status tid"
      by (simp_all add: response_header_def answered_session_def answered_tree_def)
    with that [of "st_conn st" "response_err status"] rejected request same show ?thesis by simp
  next
    case (handled preauth sta resp st2 st3 bytes' status)
    obtain sig where "read_u32 bytes 0x08 = Some (hr_status resp)"
      using build_response_parse [OF assms(1) handled(6)] handled(8) by auto
    with handled(7,8) have status: "status = hr_status resp" by simp
    have "conn_next_session_id (st_conn sta) = conn_next_session_id (st_conn st)"
      using preauth_request_next [of srv hdr' frame "request_scope srv key hdr' st"] handled(3)
      by simp
    then have sid: "session_id (response_header req resp)
        = answered_session req (st_conn st) (hr_status resp)"
      using command_session [OF handled(4)] same by (simp add: answered_session_def)
    have "st3 = st2" if "hdr_command req = TreeConnect"
      using stash_snapshot_plain [OF handled(5)] snapshotD [OF handled(4)] that same
      by (cases "hr_take_preauth_snapshot resp") auto
    then have "answered_tree req (st_conn st2) s tid = answered_tree req (st_conn st') s tid" for s tid
      using preauth_response_conn(1) [OF handled(9)] request(4) by (simp add: answered_tree_def)
    then have tid: "\<exists>tid. hdr_tail (response_header req resp) = tail_sync tid \<and>
        answered_tree req (st_conn st') (hr_status resp) tid"
      using command_tree [OF handled(4)] same by simp
    from that [of "st_conn st3" resp] handled(6,8) request same status sid tid
      preauth_response_conn [OF handled(9)]
    show ?thesis by simp
  qed simp
qed (use assms in simp)

text \<open>
  C18: every answer belongs to its request. The bytes that answer a request parse as a header and a
  body; the header repeats the request's command, message identifier and credits, is marked as a
  synchronous response and as the last of its chain. It names the request's session, or the session
  to be when it is the challenge of a logon; and the request's tree, or the tree that a successful
  TREE_CONNECT has just put into that session. When it is marked as signed, the session it
  names is one of a user with a key, and the bytes verify under that key. With a sink armed, the
  last event of the trace is the status in that header, under the key of this request.
\<close>

theorem response_answers_request:
  assumes "crypto_ok (srv_crypto srv)" and "smb2_header_parse frame = Inr (req, body)"
    and "dispatch_one srv frame ordinal st = Some (Some bytes, st')"
  shows "\<exists>h reply. smb2_header_parse bytes = Inr (h, reply) \<and>
    hdr_command h = hdr_command req \<and> message_id h = message_id req \<and>
    credit_charge h = credit_charge req \<and>
    credit_request_response h = credit_request_response req \<and>
    is_response h \<and> \<not> is_async h \<and> next_command h = 0 \<and>
    session_id h =
      (if hdr_command req = SessionSetup \<and>
          channel_sequence_status h = STATUS_MORE_PROCESSING_REQUIRED
       then conn_next_session_id (st_conn st) else session_id req) \<and>
    (\<exists>tid. hdr_tree_id h = Some tid \<and>
      (if hdr_command req = TreeConnect \<and> channel_sequence_status h = STATUS_SUCCESS
       then \<exists>s t. tbl_get (conn_sessions (st_conn st')) (session_id req) = Some s \<and>
         tbl_get (sess_trees s) tid = Some t \<and> tree_id t = tid \<and> tree_opens t = []
       else tid = (case hdr_tree_id req of Some t \<Rightarrow> t | None \<Rightarrow> 0))) \<and>
    (flags h AND SMB2_FLAGS_SIGNED = 0 \<or>
      (\<exists>s. tbl_get (conn_sessions (st_conn st')) (session_id h) = Some s \<and>
         sess_identity s \<noteq> Anonymous \<and> sess_signing_key s \<noteq> replicate 16 0 \<and>
         verify (srv_crypto srv) bytes (sess_signing_key s) (conn_signing_algo (st_conn st'))
           = Inr ())) \<and>
    (srv_trace_armed srv \<longrightarrow> last (st_log st')
       = (trace_key_for srv st req ordinal, ResponseEvent (channel_sequence_status h)))"
proof -
  obtain c resp tid where ans: "bytes = build_response_bytes srv c req resp"
      "conn_sessions (st_conn st') = conn_sessions c"
      "conn_signing_algo (st_conn st') = conn_signing_algo c"
      "srv_trace_armed srv \<Longrightarrow> last (st_log st')
         = (trace_key_for srv st req ordinal, ResponseEvent (hr_status resp))"
    and ids: "session_id (response_header req resp) = answered_session req (st_conn st) (hr_status resp)"
      "hdr_tail (response_header req resp) = tail_sync tid"
      "answered_tree req (st_conn st') (hr_status resp) tid"
    using dispatch_one_answer [OF assms] by metis
  obtain sig where sig: "smb2_header_parse bytes = Inr (reply_header c req resp sig, hr_body resp)"
      "\<And>key. response_key c req resp = Some key \<Longrightarrow>
         verify (srv_crypto srv) bytes key (conn_signing_algo c) = Inr ()"
    using build_response_parse [OF assms(1) ans(1)] by metis
  have "hdr_tree_id (reply_header c req resp sig) = Some tid"
    using ids(2) by (simp add: hdr_tree_id_def tail_sync_def)
  moreover have "flags (reply_header c req resp sig) AND SMB2_FLAGS_SIGNED = 0 \<or>
      (\<exists>s. tbl_get (conn_sessions (st_conn st')) (session_id (response_header req resp)) = Some s \<and>
         sess_identity s \<noteq> Anonymous \<and> sess_signing_key s \<noteq> replicate 16 0 \<and>
         verify (srv_crypto srv) bytes (sess_signing_key s) (conn_signing_algo (st_conn st'))
           = Inr ())"
    using sig(2) ans(2,3) response_keyD [of c req resp] by (cases "response_key c req resp") auto
  ultimately show ?thesis
    using sig(1) ans(4) ids(1,3) unfolding answered_session_def answered_tree_def
    by (intro exI [of _ "reply_header c req resp sig"] exI [of _ "hr_body resp"]) simp
qed

text \<open>Every request but CANCEL is answered.\<close>

lemma dispatch_one_answers:
  assumes "crypto_ok (srv_crypto srv)" and "smb2_header_parse frame = Inr (req, body)"
    and "hdr_command req \<noteq> Cancel"
  shows "\<exists>bytes st'. dispatch_one srv frame ordinal st = Some (Some bytes, st')"
proof -
  obtain r st' where run: "dispatch_one srv frame ordinal st = Some (r, st')"
    using dispatch_one_total [OF assms(1)] by metis
  then have "r \<noteq> None"
  proof (cases rule: dispatch_one_cases)
    case (request hdr' body' key st1)
    from request(3) show ?thesis
      by (cases rule: dispatch_scoped_cases) (use request(1) assms(2,3) in simp_all)
  qed (use assms(2) in blast)
  with run show ?thesis by auto
qed

definition sample_frame :: "smb2_header \<Rightarrow> bytes \<Rightarrow> bytes" where
  "sample_frame hdr body = smb2_header_write hdr @ body"

lemma wf_hdr1 [simp]: "wf_header (hdr1 cmd)" "length (signature (hdr1 cmd)) = 16"
  by (simp_all add: wf_header_def is_async_def hdr1_def default_header_def tail_sync_def)

lemma sample_frame_parse: "wf_header hdr \<Longrightarrow> smb2_header_parse (sample_frame hdr body) = Inr (hdr, body)"
  by (simp add: sample_frame_def header_parse_write)

lemma mem_server_crypto [simp]: "srv_crypto mem_server = sample_crypto" "srv_trace_armed mem_server"
  by (simp_all add: mem_server_def)

theorem response_answers_request_witness:
  "\<exists>bytes st' h reply. dispatch_one mem_server (sample_frame (hdr1 Echo) []) 0
      (mem_st ReadOnlyAccess False) = Some (Some bytes, st') \<and>
    smb2_header_parse bytes = Inr (h, reply) \<and> message_id h = 5 \<and> session_id h = 1 \<and>
    is_response h"
proof -
  obtain bytes st' where run: "dispatch_one mem_server (sample_frame (hdr1 Echo) []) 0
      (mem_st ReadOnlyAccess False) = Some (Some bytes, st')"
    using dispatch_one_answers [of mem_server, OF _ sample_frame_parse] by fastforce
  have "crypto_ok (srv_crypto mem_server)" by simp
  from response_answers_request [OF this sample_frame_parse [OF wf_hdr1(1)] run] run
  show ?thesis by auto
qed

section \<open>Forged requests\<close>



definition forged_hdr :: smb2_header where
  "forged_hdr = (hdr1 Write)\<lparr>flags := SMB2_FLAGS_SIGNED\<rparr>"

lemma forged_hdr_simps [simp]:
  "hdr_command forged_hdr = Write" "session_id forged_hdr = 1" "wf_header forged_hdr"
  "flags forged_hdr AND SMB2_FLAGS_SIGNED \<noteq> 0"
  by (simp_all add: forged_hdr_def hdr1_def default_header_def wf_header_def is_async_def
      tail_sync_def flag_defs)


end
