(* ===== verification/Dispatch_Preauth.thy ===== *)
theory Dispatch_Preauth
  imports Dispatch_Reply
begin

text \<open>
  Preauthentication integrity across a logon (\<open>dispatch_one\<close> and \<open>take_session_preauth\<close> of
  \<open>src/src/dispatch.rs\<close>): under SMB 3.1.1 the signing key of a session is derived from the hash of
  the exact bytes of NEGOTIATE, its reply, and the SESSION_SETUP exchange.
\<close>

section \<open>What the handlers leave alone\<close>

lemma session_setup_keeps:
  assumes "handle_session_setup srv hdr body st = (resp, st')"
  shows "conn_preauth (st_conn st') = conn_preauth (st_conn st)"
    "conn_session_preauth (st_conn st') = conn_session_preauth (st_conn st)"
    "conn_dialect (st_conn st') = conn_dialect (st_conn st)"
  using assms
  by (auto simp: handle_session_setup_def setup_first_def setup_second_def or_fail_def or_panic_def Let_def
      alloc_session_id_def fill_random_def now_filetime_def case_prod_unfold
      split: sum.splits option.splits if_splits)

text \<open>A logon that succeeds under SMB 3.1.1 asks for the snapshot of the session it made.\<close>

lemma setup_second_success:
  assumes "setup_second srv hdr tok st = (resp, st')" and "hr_status resp = STATUS_SUCCESS"
    and "conn_dialect (st_conn st) = Some Smb311"
  shows "hr_take_preauth_snapshot resp = Some (session_id hdr) \<and>
    (\<exists>s. tbl_get (conn_sessions (st_conn st')) (session_id hdr) = Some s)"
  using assms
  by (auto simp: setup_second_def Let_def split: sum.splits option.splits if_splits)

lemma session_setup_success:
  assumes "handle_session_setup srv hdr body st = (resp, st')"
    and "hr_status resp = STATUS_SUCCESS" and "conn_dialect (st_conn st) = Some Smb311"
  shows "hr_take_preauth_snapshot resp = Some (session_id hdr) \<and>
    (\<exists>s. tbl_get (conn_sessions (st_conn st')) (session_id hdr) = Some s)"
  using assms(1)
proof (cases rule: session_setup_cases)
  case (first tok)
  with assms(2) setup_first_tables [OF first(2)] show ?thesis by simp
next
  case (answer tok)
  with assms(2,3) show ?thesis by (intro setup_second_success)
qed (use assms(2) in simp)

lemma preauth_request_setup:
  assumes "hdr_command hdr = SessionSetup" and "conn_dialect (st_conn st) = Some Smb311"
  shows "fst (preauth_request srv hdr frame st) =
      Some (preauth_update (srv_crypto srv) (fst (take_session_preauth (st_conn st) (session_id hdr))) frame)"
    "conn_preauth (st_conn (snd (preauth_request srv hdr frame st))) = conn_preauth (st_conn st)"
    "conn_dialect (st_conn (snd (preauth_request srv hdr frame st))) = Some Smb311"
  using assms
  by (auto simp: preauth_request_def take_session_preauth_def Let_def case_prod_unfold
      split: option.splits)

lemma stash_snapshot_311:
  assumes "stash_snapshot srv (Some snap) resp st = Some st'"
    and "conn_dialect (st_conn st) = Some Smb311"
  shows "conn_preauth (st_conn st') = conn_preauth (st_conn st)"
    "conn_dialect (st_conn st') = Some Smb311"
    "conn_session_preauth (st_conn st') = conn_session_preauth (st_conn st)"
    "hr_take_preauth_snapshot resp = Some sid \<Longrightarrow> tbl_get (conn_sessions (st_conn st)) sid = Some s \<Longrightarrow>
      \<exists>s'. tbl_get (conn_sessions (st_conn st')) sid = Some s' \<and>
        sess_preauth_snapshot s' = Some snap \<and>
        sess_signing_key s' = signing_key_311 (srv_crypto srv) (sess_base_key s') snap"
  using assms by (auto simp: stash_snapshot_def split: option.splits)

section \<open>One SESSION_SETUP\<close>

lemma preauth_response_setup:
  assumes "preauth_response srv hdr (Some Smb311) (Some p) bytes st = Some st'"
    and "hdr_command hdr = SessionSetup" and "read_u32 bytes 0x08 = Some status"
    and "read_u64 bytes 0x28 = Some sid"
  shows "conn_preauth (st_conn st') = conn_preauth (st_conn st)"
    "conn_dialect (st_conn st') = conn_dialect (st_conn st)"
    "status = STATUS_MORE_PROCESSING_REQUIRED \<Longrightarrow>
      tbl_get (conn_session_preauth (st_conn st')) sid = Some (preauth_update (srv_crypto srv) p bytes)"
  using assms by (auto simp: preauth_response_def Let_def split: if_splits)

lemma verify_status:
  "verify_request_signature srv c hdr frame = Inl status \<Longrightarrow>
    status = STATUS_ACCESS_DENIED \<or> status = STATUS_USER_SESSION_DELETED"
  by (auto simp: verify_request_signature_def split: if_splits option.splits sum.splits)

lemma rejection_status [simp]:
  "STATUS_ACCESS_DENIED \<noteq> STATUS_MORE_PROCESSING_REQUIRED"
  "STATUS_USER_SESSION_DELETED \<noteq> STATUS_MORE_PROCESSING_REQUIRED"
  by (simp_all add: status_defs)

text \<open>
  One round under SMB 3.1.1, from the hash \<open>p\<close> that is stored for the exchange: an answer that
  asks for more stores the hash of both messages under the identifier it names, and a success
  derives the session's key from the hash of the request.
\<close>

lemma session_setup_round:
  assumes ok: "crypto_ok (srv_crypto srv)" and parse: "smb2_header_parse frame = Inr (hdr, body)"
    and cmd: "hdr_command hdr = SessionSetup" and d: "conn_dialect (st_conn st) = Some Smb311"
    and run: "dispatch_one srv frame ordinal st = Some (Some bytes, st')"
    and reply: "smb2_header_parse bytes = Inr (h, rest)"
    and p: "p = preauth_update (srv_crypto srv)
      (fst (take_session_preauth (st_conn st) (session_id hdr))) frame"
  shows "conn_preauth (st_conn st') = conn_preauth (st_conn st)"
    "conn_dialect (st_conn st') = Some Smb311"
    "channel_sequence_status h = STATUS_MORE_PROCESSING_REQUIRED \<Longrightarrow>
      tbl_get (conn_session_preauth (st_conn st')) (session_id h)
        = Some (preauth_update (srv_crypto srv) p bytes)"
    "channel_sequence_status h = STATUS_SUCCESS \<Longrightarrow>
      \<exists>s. tbl_get (conn_sessions (st_conn st')) (session_id hdr) = Some s \<and>
        sess_preauth_snapshot s = Some p \<and>
        sess_signing_key s = signing_key_311 (srv_crypto srv) (sess_base_key s) p"
proof -
  let ?goal = "conn_preauth (st_conn st') = conn_preauth (st_conn st) \<and>
    conn_dialect (st_conn st') = Some Smb311 \<and>
    (channel_sequence_status h = STATUS_MORE_PROCESSING_REQUIRED \<longrightarrow>
      tbl_get (conn_session_preauth (st_conn st')) (session_id h)
        = Some (preauth_update (srv_crypto srv) p bytes)) \<and>
    (channel_sequence_status h = STATUS_SUCCESS \<longrightarrow>
      (\<exists>s. tbl_get (conn_sessions (st_conn st')) (session_id hdr) = Some s \<and>
        sess_preauth_snapshot s = Some p \<and>
        sess_signing_key s = signing_key_311 (srv_crypto srv) (sess_base_key s) p))"
  have ?goal
    using run
  proof (cases rule: dispatch_one_cases)
    case (request hdr' body' key st1)
    have same: "hdr' = hdr" "body' = body" using request(1) parse by simp_all
    from request(3) [unfolded same] show ?thesis
    proof (cases rule: dispatch_scoped_cases)
      case (rejected status)
      obtain sig where "h = reply_header (st_conn st) hdr (response_err status) sig"
        using build_response_parse [OF ok, of bytes "st_conn st" hdr "response_err status"]
          rejected(2) reply by fastforce
      with rejected request d verify_status [OF rejected(1)] show ?thesis by auto
    next
      case (handled preauth sta resp stb stc bytes' status)
      let ?s0 = "request_scope srv key hdr st"
      have pre: "preauth = Some p" "conn_preauth (st_conn sta) = conn_preauth (st_conn st)"
          "conn_dialect (st_conn sta) = Some Smb311"
        using preauth_request_setup [OF cmd, of ?s0 srv frame] d handled(3) p by simp_all
      have ran: "handle_session_setup srv hdr body sta = (resp, stb)"
        using handled(4) cmd by (simp add: dispatch_command_def)
      note kept = session_setup_keeps [OF ran]
      note stash = stash_snapshot_311 [OF handled(5) [unfolded pre(1)]]
      obtain sig where sig: "h = reply_header (st_conn stc) hdr resp sig"
          "read_u32 bytes 0x08 = Some (hr_status resp)" "read_u64 bytes 0x28 = Some (session_id h)"
        using build_response_parse [OF ok handled(6)] handled(8) reply by fastforce
      have last: "preauth_response srv hdr (Some Smb311) (Some p) bytes
          (record_as srv key (ResponseEvent status) stc) = Some st1"
        using handled(8,9) d pre(1) by simp
      note afterwards = preauth_response_setup [OF last cmd sig(2,3)]
      have sess: "conn_sessions (st_conn st1) = conn_sessions (st_conn stc)"
        using preauth_response_conn(1) [OF last] by simp
      have key: "\<exists>s. tbl_get (conn_sessions (st_conn stc)) (session_id hdr) = Some s \<and>
          sess_preauth_snapshot s = Some p \<and>
          sess_signing_key s = signing_key_311 (srv_crypto srv) (sess_base_key s) p"
        if "hr_status resp = STATUS_SUCCESS"
        using session_setup_success [OF ran that pre(3)] stash(4) kept(3) pre(3) by fastforce
      show ?thesis
        using afterwards stash(1,2) kept pre sess key request(4) sig(1) by simp
    qed (use cmd in simp)
  qed (use parse in blast)
  then show "conn_preauth (st_conn st') = conn_preauth (st_conn st)"
    "conn_dialect (st_conn st') = Some Smb311"
    "channel_sequence_status h = STATUS_MORE_PROCESSING_REQUIRED \<Longrightarrow>
      tbl_get (conn_session_preauth (st_conn st')) (session_id h)
        = Some (preauth_update (srv_crypto srv) p bytes)"
    "channel_sequence_status h = STATUS_SUCCESS \<Longrightarrow>
      \<exists>s. tbl_get (conn_sessions (st_conn st')) (session_id hdr) = Some s \<and>
        sess_preauth_snapshot s = Some p \<and>
        sess_signing_key s = signing_key_311 (srv_crypto srv) (sess_base_key s) p"
    by blast+
qed

section \<open>The exchange\<close>

lemma negotiate_keeps_preauth:
  assumes "handle_negotiate srv hdr body st = (resp, st')"
  shows "conn_preauth (st_conn st') = conn_preauth (st_conn st)"
    "hr_take_preauth_snapshot resp = None"
  using assms
  by (auto simp: handle_negotiate_def negotiate_contexts_def or_fail_def Let_def fill_random_def
      now_filetime_def case_prod_unfold split: sum.splits if_splits)

lemma negotiate_round:
  assumes ok: "crypto_ok (srv_crypto srv)" and parse: "smb2_header_parse frame = Inr (hdr, body)"
    and cmd: "hdr_command hdr = Negotiate"
    and run: "dispatch_one srv frame ordinal st = Some (Some bytes, st')"
  shows "conn_preauth (st_conn st') = preauth_update (srv_crypto srv)
    (preauth_update (srv_crypto srv) (conn_preauth (st_conn st)) frame) bytes"
  using run
proof (cases rule: dispatch_one_cases)
  case (request hdr' body' key st1)
  have same: "hdr' = hdr" "body' = body" using request(1) parse by simp_all
  from request(3) [unfolded same] show ?thesis
  proof (cases rule: dispatch_scoped_cases)
    case (rejected status)
    with cmd show ?thesis by (simp add: verify_request_signature_def)
  next
    case (handled preauth sta resp stb stc bytes' status)
    have ran: "handle_negotiate srv hdr body sta = (resp, stb)"
      using handled(4) cmd by (simp add: dispatch_command_def)
    have "stc = stb" "conn_preauth (st_conn stb) = conn_preauth (st_conn sta)"
      using negotiate_keeps_preauth [OF ran] handled(5) by (simp_all add: stash_snapshot_def)
    then show ?thesis
      using handled(3,8,9) request(4) cmd
      by (auto simp: preauth_request_def preauth_response_def Let_def)
  qed (use cmd in simp)
qed (use parse in blast)

text \<open>
  C15: the session key is bound to the whole exchange. When a connection negotiates SMB 3.1.1 and
  completes a logon in two rounds, the session it gets has a signing key that is derived from its
  base key and the hash chained over exactly the bytes of the NEGOTIATE request and its reply, the
  first SESSION_SETUP and its reply, and the second SESSION_SETUP, in this order.
\<close>

theorem logon_binds_transcript:
  assumes "crypto_ok (srv_crypto srv)"
    and "smb2_header_parse f1 = Inr (q1, b1)" and "hdr_command q1 = Negotiate"
    and "dispatch_one srv f1 n1 st0 = Some (Some r1, st1)"
    and "conn_dialect (st_conn st1) = Some Smb311"
    and "smb2_header_parse f2 = Inr (q2, b2)" and "hdr_command q2 = SessionSetup"
    and "session_id q2 = 0" and "dispatch_one srv f2 n2 st1 = Some (Some r2, st2)"
    and "smb2_header_parse r2 = Inr (h2, x2)"
    and "channel_sequence_status h2 = STATUS_MORE_PROCESSING_REQUIRED"
    and "smb2_header_parse f3 = Inr (q3, b3)" and "hdr_command q3 = SessionSetup"
    and "session_id q3 = session_id h2" and "session_id q3 \<noteq> 0"
    and "dispatch_one srv f3 n3 st2 = Some (Some r3, st3)"
    and "smb2_header_parse r3 = Inr (h3, x3)" and "channel_sequence_status h3 = STATUS_SUCCESS"
  shows "\<exists>s transcript. tbl_get (conn_sessions (st_conn st3)) (session_id q3) = Some s \<and>
    transcript = foldl (preauth_update (srv_crypto srv)) (conn_preauth (st_conn st0)) [f1, r1, f2, r2, f3] \<and>
    sess_preauth_snapshot s = Some transcript \<and>
    sess_signing_key s = signing_key_311 (srv_crypto srv) (sess_base_key s) transcript"
proof -
  note round1 = negotiate_round [OF assms(1-4)]
  note round2 = session_setup_round [OF assms(1,6,7,5,9,10) refl]
  have p2: "fst (take_session_preauth (st_conn st1) (session_id q2)) = conn_preauth (st_conn st1)"
    by (simp add: take_session_preauth_def assms(8))
  have p3: "fst (take_session_preauth (st_conn st2) (session_id q3))
      = foldl (preauth_update (srv_crypto srv)) (conn_preauth (st_conn st0)) [f1, r1, f2, r2]"
    using round2(3) [OF assms(11)] assms(14,15) round1 p2 by (simp add: take_session_preauth_def)
  note round3 = session_setup_round [OF assms(1,12,13) round2(2) assms(16,17) refl]
  show ?thesis using round3(4) [OF assms(18)] p3 by simp
qed

section \<open>A concrete logon\<close>

text \<open>What an accepted request leaves behind, in terms of its handler.\<close>

lemma stash_snapshot_rest:
  assumes "stash_snapshot srv p resp st = Some st'"
  shows "conn_pending_auths (st_conn st') = conn_pending_auths (st_conn st)"
    "conn_next_session_id (st_conn st') = conn_next_session_id (st_conn st)"
    "conn_dialect (st_conn st') = conn_dialect (st_conn st)"
  using assms by (auto simp: stash_snapshot_def split: option.splits)

lemma stash_snapshot_identity:
  assumes "stash_snapshot srv p resp st = Some st'"
  shows "map_option sess_identity (tbl_get (conn_sessions (st_conn st')) k)
    = map_option sess_identity (tbl_get (conn_sessions (st_conn st)) k)"
  using assms
  by (cases "tbl_get (conn_sessions (st_conn st)) k")
    (auto simp: stash_snapshot_def simp del: map_option_eq_Some split: option.splits)

lemma preauth_response_rest:
  assumes "preauth_response srv hdr d p bytes st = Some st'"
  shows "conn_pending_auths (st_conn st') = conn_pending_auths (st_conn st)"
    "conn_next_session_id (st_conn st') = conn_next_session_id (st_conn st)"
  using assms
  by (auto simp: preauth_response_def Let_def Option.bind_eq_Some_conv split: option.splits if_splits)

lemma accepted_request:
  assumes ok: "crypto_ok (srv_crypto srv)" and parse: "smb2_header_parse frame = Inr (hdr, body)"
    and "hdr_command hdr \<noteq> Cancel"
    and "verify_request_signature srv (st_conn st) hdr frame = Inr ()"
    and run: "dispatch_command srv hdr body (snd (preauth_request srv hdr frame
      (request_scope srv (trace_key_for srv st hdr n) hdr st))) = (resp, st')"
  shows "\<exists>bytes st'' h. dispatch_one srv frame n st = Some (Some bytes, st'') \<and>
    smb2_header_parse bytes = Inr (h, hr_body resp) \<and> channel_sequence_status h = hr_status resp \<and>
    session_id h = session_id (response_header hdr resp) \<and>
    conn_dialect (st_conn st'') = conn_dialect (st_conn st') \<and>
    conn_pending_auths (st_conn st'') = conn_pending_auths (st_conn st') \<and>
    conn_next_session_id (st_conn st'') = conn_next_session_id (st_conn st') \<and>
    (\<forall>k. map_option sess_identity (tbl_get (conn_sessions (st_conn st'')) k)
       = map_option sess_identity (tbl_get (conn_sessions (st_conn st')) k))"
proof -
  obtain bytes st'' where one: "dispatch_one srv frame n st = Some (Some bytes, st'')"
    using dispatch_one_answers [OF ok parse assms(3)] by metis
  then show ?thesis
  proof (cases rule: dispatch_one_cases)
    case (request hdr' body' key st1)
    have same: "hdr' = hdr" "body' = body" using request(1) parse by simp_all
    from request(3) [unfolded same] show ?thesis
    proof (cases rule: dispatch_scoped_cases)
      case (handled preauth sta resp' stb stc bytes' status)
      have st: "sta = snd (preauth_request srv hdr frame
          (request_scope srv (trace_key_for srv st hdr n) hdr st))"
        using handled(3) request(2) same by simp
      have same2: "resp' = resp" "stb = st'" using handled(4) run st by simp_all
      obtain sig where "smb2_header_parse bytes = Inr (reply_header (st_conn stc) hdr resp sig, hr_body resp)"
        using build_response_parse [OF ok handled(6)] handled(8) same2 by auto
      then show ?thesis
        using stash_snapshot_rest [OF handled(5)] stash_snapshot_identity [OF handled(5)] preauth_response_rest [OF handled(9)]
          preauth_response_conn(1,5) [OF handled(9)] request(4) same2
        by (intro exI [of _ bytes] exI [of _ st''] exI [of _ "reply_header (st_conn stc) hdr resp sig"])
          (simp add: one)
    qed (use assms(3,4) in simp_all)
  qed (use parse in blast)
qed

text \<open>Three frames that log a user on to a fresh connection.\<close>

definition logon_server :: "mem_fs server" where
  "logon_server = setup_server\<lparr>srv_random := (\<lambda>_ n. replicate n 0)\<rparr>"

definition fresh_st :: "mem_fs st" where
  "fresh_st = \<lparr>st_conn = connection_new 7 (replicate 16 7) 1024 1024, st_world = sample_fs,
     st_log = [], st_key = None, st_draws = 0, st_ticks = 0\<rparr>"

definition hdr0 :: "command \<Rightarrow> smb2_header" where
  "hdr0 cmd = (hdr1 cmd)\<lparr>session_id := 0\<rparr>"

definition sample_ntlm_negotiate :: bytes where
  "sample_ntlm_negotiate = [78, 84, 76, 77, 83, 83, 80, 0, 1, 0, 0, 0] @
     [0, 0, 0, 0, 0, 0, 0, 0, 0, 0, 0, 0, 0, 0, 0, 0, 0, 0, 0, 0]"

definition sample_first :: session_setup_request where
  "sample_first = sample_setup\<lparr>ssq_security_buffer_length := 32,
     ssq_security_buffer := sample_ntlm_negotiate\<rparr>"

lemma sample_first_parse:
  "session_setup_request_parse (put_session_setup_request sample_first) = Some sample_first"
  using session_setup_request.parse_put [of sample_first "[]"]
  by (simp add: session_setup_request_parse_def wf_session_setup_request_def sample_first_def
      sample_setup_def sample_ntlm_negotiate_def)

lemma sample_first_token: "setup_token_of (ssq_security_buffer sample_first)
    = Some (Inr \<lparr>tok_inner = sample_ntlm_negotiate, tok_first = True, tok_raw = True\<rparr>)"
  by (simp add: setup_token_of_def sample_first_def sample_ntlm_negotiate_def NTLMSSP_SIGNATURE_def
      slice_def de32_def)

lemma sample_ntlm_parse: "\<exists>n. ntlm_negotiate_parse sample_ntlm_negotiate = Inr n"
  by (simp add: ntlm_negotiate_parse_def check_signature_def sample_ntlm_negotiate_def
      NTLMSSP_SIGNATURE_def MSG_NEGOTIATE_def read_field_def slice_def field_bytes_def
      slice_field_def min_payload_offset_def de16_def de32_def)

lemma sample_negotiate_parse:
  "negotiate_request_parse (put_negotiate_request sample_negotiate) = Some sample_negotiate"
  using negotiate_request.parse_put [of sample_negotiate "[]"]
  by (simp add: negotiate_request_parse_def wf_negotiate_request_def sample_negotiate_def)

lemma first_round:
  assumes "handle_negotiate logon_server hdr (put_negotiate_request sample_negotiate) st = (resp, st')"
  shows "conn_dialect (st_conn st') = Some Smb311"
    "conn_pending_auths (st_conn st') = conn_pending_auths (st_conn st)"
    "conn_next_session_id (st_conn st') = conn_next_session_id (st_conn st)"
    "conn_sessions (st_conn st') = conn_sessions (st_conn st)"
proof -
  have "choose_dialect (ngq_dialects sample_negotiate) = Some 0x0311"
    by (simp add: sample_negotiate_def choose_dialect_def SUPPORTED_def)
  with assms show "conn_dialect (st_conn st') = Some Smb311"
    "conn_pending_auths (st_conn st') = conn_pending_auths (st_conn st)"
    "conn_next_session_id (st_conn st') = conn_next_session_id (st_conn st)"
    "conn_sessions (st_conn st') = conn_sessions (st_conn st)"
    by (auto simp: handle_negotiate_def sample_negotiate_parse dialect_from_u16_def Let_def
        case_prod_unfold negotiate_contexts_def fill_random_def now_filetime_def)
qed

lemma second_round:
  assumes "handle_session_setup logon_server hdr (put_session_setup_request sample_first) st = (resp, st')"
  shows "hr_status resp = STATUS_MORE_PROCESSING_REQUIRED"
    "hr_override_session_id resp = Some (conn_next_session_id (st_conn st))"
    "conn_sessions (st_conn st') = conn_sessions (st_conn st)"
    "\<exists>acc. tbl_get (conn_pending_auths (st_conn st')) (conn_next_session_id (st_conn st)) = Some (acc, True) \<and>
       nt_server_challenge acc = replicate 8 0"
proof -
  obtain n where n: "ntlm_negotiate_parse sample_ntlm_negotiate = Inr n"
    using sample_ntlm_parse by blast
  have "ssq_security_buffer sample_first \<noteq> []"
    by (simp add: sample_first_def sample_ntlm_negotiate_def)
  with n assms show "hr_status resp = STATUS_MORE_PROCESSING_REQUIRED"
    "hr_override_session_id resp = Some (conn_next_session_id (st_conn st))"
    "conn_sessions (st_conn st') = conn_sessions (st_conn st)"
    "\<exists>acc. tbl_get (conn_pending_auths (st_conn st')) (conn_next_session_id (st_conn st)) = Some (acc, True) \<and>
       nt_server_challenge acc = replicate 8 0"
    by (auto simp: handle_session_setup_def sample_first_parse sample_first_token setup_first_def
        alloc_session_id_def fill_random_def now_filetime_def Let_def step1_negotiate_def
        ntlm_challenge_def ntlm_server_new_def logon_server_def)
qed

lemma third_round:
  assumes "tbl_get (conn_pending_auths (st_conn st)) 1 = Some (acc, True)"
    and "nt_server_challenge acc = replicate 8 0" and "conn_dialect (st_conn st) = Some Smb311"
    and "session_id hdr = 1"
  shows "hr_status (fst (handle_session_setup logon_server hdr
    (put_session_setup_request sample_setup) st)) = STATUS_SUCCESS"
    "map_option sess_identity (tbl_get (conn_sessions (st_conn (snd (handle_session_setup logon_server hdr
      (put_session_setup_request sample_setup) st)))) 1) = Some (User [117] [])"
  using assms sample_setup_facts
  by (simp_all add: session_new_def handle_session_setup_def sample_setup_parse sample_token setup_second_def Let_def
      sample_authenticate_by logon_server_def)

lemma wf_hdr0 [simp]: "wf_header (hdr0 cmd)" "hdr_command (hdr0 cmd) = cmd" "session_id (hdr0 cmd) = 0"
  by (simp_all add: hdr0_def hdr1_def default_header_def wf_header_def is_async_def tail_sync_def)

lemma logon_server_crypto [simp]: "srv_crypto logon_server = sample_crypto"
  by (simp add: logon_server_def setup_server_def)

abbreviation "frame1 \<equiv> sample_frame (hdr0 Negotiate) (put_negotiate_request sample_negotiate)"
abbreviation "frame2 \<equiv> sample_frame (hdr0 SessionSetup) (put_session_setup_request sample_first)"
abbreviation "frame3 \<equiv> sample_frame (hdr1 SessionSetup) (put_session_setup_request sample_setup)"

lemmas frame_parse0 = sample_frame_parse [OF wf_hdr0(1)]
lemmas frame_parse1 = sample_frame_parse [OF wf_hdr1(1)]

lemma logon_round1:
  assumes "st_conn st = connection_new i guid max_read max_write"
  shows "\<exists>r1 st1. dispatch_one logon_server frame1 0 st = Some (Some r1, st1) \<and>
    conn_dialect (st_conn st1) = Some Smb311 \<and> conn_next_session_id (st_conn st1) = 1 \<and>
    (\<forall>k. tbl_get (conn_sessions (st_conn st1)) k = None)"
proof -
  have ok: "crypto_ok (srv_crypto logon_server)" by simp
  obtain resp1 s1 where run: "dispatch_command logon_server (hdr0 Negotiate)
      (put_negotiate_request sample_negotiate) (snd (preauth_request logon_server (hdr0 Negotiate) frame1
        (request_scope logon_server (trace_key_for logon_server st (hdr0 Negotiate) 0)
           (hdr0 Negotiate) st))) = (resp1, s1)"
    by fastforce
  note neg = first_round [OF run [unfolded dispatch_command_def, simplified]]
  from neg have "conn_next_session_id (st_conn s1) = 1" "conn_sessions (st_conn s1) = []"
    by (simp_all add: preauth_request_def Let_def assms connection_new_def)
  moreover have "verify_request_signature logon_server (st_conn st) (hdr0 Negotiate) frame1 = Inr ()"
    by (simp add: verify_request_signature_def)
  ultimately show ?thesis
    using accepted_request [OF ok frame_parse0 _ _ run] neg(1) by fastforce
qed

lemma logon_round2:
  assumes "conn_dialect (st_conn st) = Some Smb311" and "conn_next_session_id (st_conn st) = 1"
    and "\<forall>k. tbl_get (conn_sessions (st_conn st)) k = None"
  shows "\<exists>r2 st2 h2 x2 acc. dispatch_one logon_server frame2 0 st = Some (Some r2, st2) \<and>
    smb2_header_parse r2 = Inr (h2, x2) \<and> session_id h2 = 1 \<and>
    channel_sequence_status h2 = STATUS_MORE_PROCESSING_REQUIRED \<and>
    tbl_get (conn_pending_auths (st_conn st2)) 1 = Some (acc, True) \<and>
    nt_server_challenge acc = replicate 8 0 \<and> conn_dialect (st_conn st2) = Some Smb311 \<and>
    (\<forall>k. tbl_get (conn_sessions (st_conn st2)) k = None)"
proof -
  have ok: "crypto_ok (srv_crypto logon_server)" by simp
  let ?s0 = "snd (preauth_request logon_server (hdr0 SessionSetup) frame2
    (request_scope logon_server (trace_key_for logon_server st (hdr0 SessionSetup) 0)
       (hdr0 SessionSetup) st))"
  obtain resp2 s2 where run: "dispatch_command logon_server (hdr0 SessionSetup)
      (put_session_setup_request sample_first) ?s0 = (resp2, s2)"
    by fastforce
  note ran = run [unfolded dispatch_command_def, simplified]
  have s0: "conn_next_session_id (st_conn ?s0) = 1" "conn_dialect (st_conn ?s0) = Some Smb311"
      "conn_sessions (st_conn ?s0) = conn_sessions (st_conn st)"
    using assms by (simp_all add: preauth_request_def take_session_preauth_def Let_def)
  obtain acc where acc: "tbl_get (conn_pending_auths (st_conn s2)) 1 = Some (acc, True)"
      "nt_server_challenge acc = replicate 8 0"
    using second_round(4) [OF ran] s0(1) by auto
  have ver: "verify_request_signature logon_server (st_conn st) (hdr0 SessionSetup) frame2 = Inr ()"
    by (simp add: verify_request_signature_def)
  have none: "\<forall>k. tbl_get (conn_sessions (st_conn s2)) k = None"
    using second_round(3) [OF ran] s0(3) assms(3) by simp
  have "hdr_command (hdr0 SessionSetup) \<noteq> Cancel" by simp
  from accepted_request [OF ok frame_parse0 this ver run]
  obtain r2 st2 h2 where "dispatch_one logon_server frame2 0 st = Some (Some r2, st2)"
      "smb2_header_parse r2 = Inr (h2, hr_body resp2)" and
    h2: "channel_sequence_status h2 = hr_status resp2"
      "session_id h2 = session_id (response_header (hdr0 SessionSetup) resp2)"
      "conn_dialect (st_conn st2) = conn_dialect (st_conn s2)" and
    st2: "conn_pending_auths (st_conn st2) = conn_pending_auths (st_conn s2)"
      "\<forall>k. tbl_get (conn_sessions (st_conn st2)) k = None"
    using none by (metis option.map_disc_iff)
  moreover have "session_id h2 = 1" "channel_sequence_status h2 = STATUS_MORE_PROCESSING_REQUIRED"
      "conn_dialect (st_conn st2) = Some Smb311"
    using h2 second_round(1,2) [OF ran] s0 session_setup_keeps(3) [OF ran]
    by (simp_all add: response_header_def)
  ultimately show ?thesis using acc [folded st2(1)] by blast
qed

lemma logon_round3:
  assumes "conn_dialect (st_conn st) = Some Smb311"
    and "tbl_get (conn_pending_auths (st_conn st)) 1 = Some (acc, True)"
    and "nt_server_challenge acc = replicate 8 0" and "tbl_get (conn_sessions (st_conn st)) 1 = None"
  shows "\<exists>r3 st3 h3 x3. dispatch_one logon_server frame3 0 st = Some (Some r3, st3) \<and>
    smb2_header_parse r3 = Inr (h3, x3) \<and> channel_sequence_status h3 = STATUS_SUCCESS \<and>
    (\<exists>s. tbl_get (conn_sessions (st_conn st3)) 1 = Some s \<and> sess_identity s = User [117] [])"
proof -
  have ok: "crypto_ok (srv_crypto logon_server)" by simp
  let ?s0 = "snd (preauth_request logon_server (hdr1 SessionSetup) frame3
    (request_scope logon_server (trace_key_for logon_server st (hdr1 SessionSetup) 0)
       (hdr1 SessionSetup) st))"
  obtain resp3 s3 where run: "dispatch_command logon_server (hdr1 SessionSetup)
      (put_session_setup_request sample_setup) ?s0 = (resp3, s3)"
    by fastforce
  note ran = run [unfolded dispatch_command_def, simplified]
  have s0: "conn_pending_auths (st_conn ?s0) = conn_pending_auths (st_conn st)"
      "conn_dialect (st_conn ?s0) = Some Smb311"
    using assms(1) by (auto simp: preauth_request_def take_session_preauth_def Let_def split: option.splits)
  have "hr_status resp3 = STATUS_SUCCESS" and
      who: "map_option sess_identity (tbl_get (conn_sessions (st_conn s3)) 1) = Some (User [117] [])"
    using third_round [of ?s0 acc "hdr1 SessionSetup"] assms(2,3) s0 ran by simp_all
  moreover have "verify_request_signature logon_server (st_conn st) (hdr1 SessionSetup) frame3 = Inr ()"
    using assms(4) by (simp add: verify_request_signature_def)
  moreover have "hdr_command (hdr1 SessionSetup) \<noteq> Cancel" by simp
  ultimately obtain r3 st3 h3 where three: "dispatch_one logon_server frame3 0 st = Some (Some r3, st3)"
      "smb2_header_parse r3 = Inr (h3, hr_body resp3)" "channel_sequence_status h3 = STATUS_SUCCESS"
      "map_option sess_identity (tbl_get (conn_sessions (st_conn st3)) 1) = Some (User [117] [])"
    using accepted_request [OF ok frame_parse1 _ _ run] by (metis who)
  then show ?thesis by auto
qed

theorem logon_binds_transcript_witness:
  "\<exists>r1 st1 r2 st2 r3 st3 s.
     dispatch_one logon_server frame1 0 fresh_st = Some (Some r1, st1) \<and>
     dispatch_one logon_server frame2 0 st1 = Some (Some r2, st2) \<and>
     dispatch_one logon_server frame3 0 st2 = Some (Some r3, st3) \<and>
     tbl_get (conn_sessions (st_conn st3)) 1 = Some s \<and>
     sess_signing_key s = signing_key_311 sample_crypto (sess_base_key s)
       (foldl (preauth_update sample_crypto) preauth_new [frame1, r1, frame2, r2, frame3])"
proof -
  have ok: "crypto_ok (srv_crypto logon_server)" by simp
  obtain r1 st1 where one: "dispatch_one logon_server frame1 0 fresh_st = Some (Some r1, st1)"
      "conn_dialect (st_conn st1) = Some Smb311" "conn_next_session_id (st_conn st1) = 1"
      "\<forall>k. tbl_get (conn_sessions (st_conn st1)) k = None"
    using logon_round1 [of fresh_st 7 "replicate 16 7" 1024 1024] unfolding fresh_st_def by auto
  obtain r2 st2 h2 x2 acc where two: "dispatch_one logon_server frame2 0 st1 = Some (Some r2, st2)"
      "smb2_header_parse r2 = Inr (h2, x2)" "session_id h2 = 1"
      "channel_sequence_status h2 = STATUS_MORE_PROCESSING_REQUIRED"
      "tbl_get (conn_pending_auths (st_conn st2)) 1 = Some (acc, True)"
      "nt_server_challenge acc = replicate 8 0" "conn_dialect (st_conn st2) = Some Smb311"
      "tbl_get (conn_sessions (st_conn st2)) 1 = None"
    using logon_round2 [OF one(2-4)] by blast
  obtain r3 st3 h3 x3 where three: "dispatch_one logon_server frame3 0 st2 = Some (Some r3, st3)"
      "smb2_header_parse r3 = Inr (h3, x3)" "channel_sequence_status h3 = STATUS_SUCCESS"
    using logon_round3 [OF two(7,5,6,8)] by blast
  have "conn_preauth (st_conn fresh_st) = preauth_new"
    by (simp add: fresh_st_def connection_new_def)
  with logon_binds_transcript [OF ok frame_parse0 _ one(1,2) frame_parse0 _ _ two(1,2,4) frame_parse1
      _ _ _ three] one(1) two(1,3) three(1)
  show ?thesis by auto
qed
end
