(* ===== verification/Dispatch_Compound.thy ===== *)
theory Dispatch_Compound
  imports Dispatch_Reply
begin

text \<open>
  Compound requests and responses (\<open>dispatch_frame\<close>, \<open>inherit_related_context\<close> and
  \<open>stitch_responses\<close> of \<open>src/src/dispatch.rs\<close>): no frame makes the dispatcher panic, a frame keeps
  the connection well formed and is traced under distinct keys, and a client that follows the
  NextCommand fields of the reply finds the answers again.
\<close>

section \<open>No panics\<close>

lemma dispatch_one_length:
  assumes "crypto_ok (srv_crypto srv)" and "dispatch_one srv frame ordinal st = Some (Some b, st')"
  shows "64 \<le> length b \<and> slice 0x14 4 b = le32 0"
proof -
  obtain hdr body where parse: "smb2_header_parse frame = Inr (hdr, body)"
    using assms(2) by (cases rule: dispatch_one_cases) auto
  obtain c resp where b: "b = build_response_bytes srv c hdr resp"
    using dispatch_one_answer [OF assms(1) parse assms(2)] by metis
  obtain sig where sig: "length sig = 16"
      "b = smb2_header_write (reply_header c hdr resp sig) @ hr_body resp"
    using build_response_shape [OF assms(1)] b by metis
  then have len: "64 \<le> length b" by (simp add: length_header_write SMB2_HEADER_LEN_def)
  have "read_u32 b 0x14 = Some 0"
    using header_fields_at(3) [of "reply_header c hdr resp sig"] sig by simp
  with len have "de32 (slice 0x14 4 b) = 0" by (simp add: read_in_bounds)
  then have "le32 (de32 (slice 0x14 4 b)) = le32 0" by simp
  with len show ?thesis by (simp add: le32_de32)
qed

lemma inherit_session_total:
  "64 \<le> length f \<Longrightarrow> \<exists>f' h'. inherit_session sid (f, h) = Some (f', h') \<and> length f' = length f"
  by (simp add: inherit_session_def read_in_bounds)

lemma inherit_tree_total:
  "64 \<le> length f \<Longrightarrow> \<exists>f' h'. inherit_tree tid (f, h) = Some (f', h') \<and> length f' = length f"
  by (simp add: inherit_tree_def read_in_bounds)

lemma inherit_file_total:
  "(\<And>x. prev = Some x \<Longrightarrow> length x = 16) \<Longrightarrow>
    \<exists>f' h'. inherit_file prev (f, h) = Some (f', h') \<and> length f' = length f"
  by (auto simp: inherit_file_def read_in_bounds Let_def split: option.splits)

lemma inherit_total:
  assumes "64 \<le> length f" and "\<And>x. prev = Some x \<Longrightarrow> length x = 16"
  shows "\<exists>f' h'. inherit_related_context sid tid prev (f, h) = Some (f', h') \<and> length f' = length f"
proof -
  obtain f1 h1 where 1: "inherit_session sid (f, h) = Some (f1, h1)" "length f1 = length f"
    using inherit_session_total [OF assms(1)] by blast
  obtain f2 h2 where 2: "inherit_tree tid (f1, h1) = Some (f2, h2)" "length f2 = length f"
    using inherit_tree_total [of f1] assms(1) 1(2) by metis
  obtain f3 h3 where "inherit_file prev (f2, h2) = Some (f3, h3)" "length f3 = length f"
    using inherit_file_total [OF assms(2)] 2(2) by metis
  with 1 2 show ?thesis by (simp add: inherit_related_context_def)
qed

definition compound_ok :: "compound \<Rightarrow> bool" where
  "compound_ok cp \<longleftrightarrow> (\<forall>f. cp_create_file_id cp = Some f \<longrightarrow> length f = 16) \<and>
     (\<forall>r \<in> set (cp_responses cp). 64 \<le> length r \<and> slice 0x14 4 r = le32 0)"

lemma compound_ok_start [simp]: "compound_ok compound_start"
  by (simp add: compound_ok_def compound_start_def)

lemma capture_total:
  "\<exists>f. capture_create_file_id b = Some f \<and> (\<forall>x. f = Some x \<longrightarrow> length x = 16)"
  by (auto simp: capture_create_file_id_def read_in_bounds get_range_Some SMB2_HEADER_LEN_def)

lemma dispatch_sub_total:
  assumes ok: "crypto_ok (srv_crypto srv)" and "64 \<le> length sub" and "compound_ok cp"
  shows "\<exists>cp' st'. dispatch_sub srv hdr sub cp st = Some (cp', st') \<and> compound_ok cp'"
proof -
  obtain sub1 hdr1 where inh: "(if flags hdr AND SMB2_FLAGS_RELATED_OPERATIONS \<noteq> 0
        then inherit_related_context (cp_session_id cp) (cp_tree_id cp) (cp_create_file_id cp) (sub, hdr)
        else Some (sub, hdr)) = Some (sub1, hdr1)"
    using inherit_total [OF assms(2), of "cp_create_file_id cp"] assms(3)
    unfolding compound_ok_def by (metis option.inject surj_pair)
  obtain r st1 where one: "dispatch_one srv sub1 (cp_ordinal cp) st = Some (r, st1)"
    using dispatch_one_total [OF ok] by metis
  show ?thesis
  proof (cases r)
    case None
    with inh one assms(3) show ?thesis
      by (simp add: dispatch_sub_def compound_ok_def Let_def)
  next
    case (Some b)
    have b: "64 \<le> length b \<and> slice 0x14 4 b = le32 0"
      using dispatch_one_length [OF ok one [unfolded Some]] .
    obtain f where "capture_create_file_id b = Some f" "\<forall>x. f = Some x \<longrightarrow> length x = 16"
      using capture_total by blast
    with Some inh one assms(3) b show ?thesis
      by (auto simp: dispatch_sub_def compound_ok_def Let_def)
  qed
qed

lemma split_command_sub: "split_command b = Some (hdr, sub, rest) \<Longrightarrow> 64 \<le> length sub"
  by (auto simp: split_command_def SMB2_HEADER_LEN_def Let_def split: if_splits sum.splits)

lemma dispatch_compound_total:
  assumes "crypto_ok (srv_crypto srv)" and "compound_ok cp"
  shows "\<exists>rs st'. dispatch_compound srv available cp st = Some (rs, st') \<and>
    (\<forall>r \<in> set (case rs of None \<Rightarrow> [] | Some rs \<Rightarrow> rs). 64 \<le> length r \<and> slice 0x14 4 r = le32 0)"
  using assms
proof (induction srv available cp st rule: dispatch_compound.induct)
  case (1 srv available cp st)
  show ?case
  proof (cases "available = [] \<or> split_command available = None")
    case True
    with 1 show ?thesis
      by (subst dispatch_compound.simps) (auto simp: compound_ok_def)
  next
    case False
    then obtain hdr sub rest where split: "split_command available = Some (hdr, sub, rest)" by auto
    obtain cp' st' where sub: "dispatch_sub srv hdr sub cp st = Some (cp', st')" "compound_ok cp'"
      using dispatch_sub_total [OF 1(2) split_command_sub [OF split] 1(3)] by blast
    with False split 1 show ?thesis by (subst dispatch_compound.simps) simp
  qed
qed

section \<open>What a frame does to the state\<close>

text \<open>
  The events of a frame come in groups, one per request, each under the key of its request and
  beginning with the request event.
\<close>

type_synonym event_group = "trace_key \<times> trace_event list"

definition flat :: "event_group list \<Rightarrow> trace_log" where
  "flat groups = concat (map (\<lambda>(k, evs). map (Pair (Some k)) evs) groups)"

definition group_ok :: "'w server \<Rightarrow> 'w st \<Rightarrow> event_group \<Rightarrow> bool" where
  "group_ok srv st g \<longleftrightarrow> srv_trace_armed srv \<and> tk_connection_id (fst g) = conn_id (st_conn st) \<and>
     (\<exists>cmd sid tid evs. snd g = RequestEvent cmd sid tid # evs)"

definition ordinals :: "event_group list \<Rightarrow> nat list" where
  "ordinals groups = map (\<lambda>(k, _). unat (tk_compound_ordinal k)) groups"

definition frame_ok :: "'w server \<Rightarrow> 'w st \<Rightarrow> event_group list \<Rightarrow> 'w st \<Rightarrow> bool" where
  "frame_ok srv st groups st' \<longleftrightarrow>
     (conn_ok (st_conn st) \<longrightarrow> conn_ok (st_conn st')) \<and>
     (config_ok srv \<longrightarrow>
        (\<forall>X. conn_allowed X srv (st_conn st) \<longrightarrow> conn_allowed X srv (st_conn st'))) \<and>
     conn_id (st_conn st') = conn_id (st_conn st) \<and> st_key st' = st_key st \<and>
     st_log st' = st_log st @ flat groups \<and> (\<forall>g \<in> set groups. group_ok srv st g)"

lemma flat_simps [simp]:
  "flat [] = []" "flat (a @ b) = flat a @ flat b"
  "flat ((k, evs) # b) = map (Pair (Some k)) evs @ flat b"
  "ordinals [] = []" "ordinals (a @ b) = ordinals a @ ordinals b"
  "ordinals ((k, evs) # b) = unat (tk_compound_ordinal k) # ordinals b"
  by (simp_all add: flat_def ordinals_def)

lemma frame_ok_refl [simp, intro]: "frame_ok srv st [] st"
  by (simp add: frame_ok_def)

lemma frame_ok_trans [trans]:
  "frame_ok srv st as st1 \<Longrightarrow> frame_ok srv st1 bs st2 \<Longrightarrow> frame_ok srv st (as @ bs) st2"
  by (auto simp: frame_ok_def group_ok_def)

lemma dispatch_scoped_log:
  assumes "dispatch_scoped srv key hdr body frame st = Some (r, st')"
    and "srv_trace_armed srv" and "st_key st = key"
  shows "\<exists>evs. st_log st' = st_log st @ map (Pair key) evs"
  using dispatch_scoped_step [OF assms(1)] assms(2,3) by (auto simp: step_ok_def extends_log_def)

lemma dispatch_one_frame:
  assumes "dispatch_one srv frame ordinal st = Some (r, st')"
  shows "\<exists>groups. frame_ok srv st groups st' \<and>
    (groups = [] \<or> (\<exists>k evs. groups = [(k, evs)] \<and> tk_compound_ordinal k = ordinal))"
  using assms
proof (cases rule: dispatch_one_cases)
  case garbage
  then show ?thesis by (intro exI [of _ "[]"]) simp
next
  case (request hdr body key st1)
  note req = dispatch_one_request [OF assms request(1)]
  show ?thesis
  proof (cases "srv_trace_armed srv")
    case False
    with req have "frame_ok srv st [] st'"
      by (simp add: frame_ok_def request_ok_def extends_log_def)
    then show ?thesis by blast
  next
    case True
    let ?k = "\<lparr>tk_connection_id = conn_id (st_conn st), tk_message_id = message_id hdr,
      tk_compound_ordinal = ordinal\<rparr>"
    let ?e = "RequestEvent (command_name (hdr_command hdr)) (session_id hdr)
      (case hdr_tree_id hdr of Some t \<Rightarrow> t | None \<Rightarrow> 0)"
    have key: "key = Some ?k" using True request(2) by (simp add: trace_key_for_def)
    have log0: "st_log (request_scope srv key hdr st) = st_log st @ [(Some ?k, ?e)]"
      using True key by (simp add: request_scope_def)
    obtain evs where "st_log st1 = st_log (request_scope srv key hdr st) @ map (Pair key) evs"
      using dispatch_scoped_log [OF request(3) True] True by auto
    with log0 key request(4) have "st_log st' = st_log st @ flat [(?k, ?e # evs)]"
      by simp
    with req True have "frame_ok srv st [(?k, ?e # evs)] st'"
      by (simp add: frame_ok_def request_ok_def group_ok_def)
    then show ?thesis by fastforce
  qed
qed

lemma dispatch_sub_cases:
  assumes "dispatch_sub srv hdr sub cp st = Some (cp', st')"
  obtains sub1 r where "dispatch_one srv sub1 (cp_ordinal cp) st = Some (r, st')"
    "cp_ordinal cp' = (if cp_ordinal cp = - 1 then - 1 else cp_ordinal cp + 1)"
  using assms
  by (auto simp: dispatch_sub_def Let_def Option.bind_eq_Some_conv split: option.splits if_splits)

definition in_order :: "u32 \<Rightarrow> event_group list \<Rightarrow> bool" where
  "in_order start groups \<longleftrightarrow>
     sorted_wrt (<) (ordinals groups) \<and> (\<forall>n \<in> set (ordinals groups). unat start \<le> n)"

lemma in_order_append:
  assumes "g1 = [] \<or> (\<exists>k evs. g1 = [(k, evs)] \<and> tk_compound_ordinal k = start)"
    and "in_order start' g2" and "unat start' = unat start + 1"
  shows "in_order start (g1 @ g2)"
  using assms by (elim disjE exE conjE) (auto simp: in_order_def Suc_le_eq less_imp_le)

lemma dispatch_compound_frame:
  assumes "dispatch_compound srv available cp st = Some (rs, st')"
  shows "\<exists>groups. frame_ok srv st groups st' \<and>
    (unat (cp_ordinal cp) + length available < 2 ^ 32 - 1 \<longrightarrow> in_order (cp_ordinal cp) groups)"
  using assms
proof (induction srv available cp st rule: dispatch_compound.induct)
  case (1 srv available cp st)
  show ?case
  proof (cases "available = [] \<or> split_command available = None")
    case True
    with 1(2) have "st' = st" by (subst (asm) dispatch_compound.simps) (auto split: if_splits)
    then show ?thesis by (intro exI [of _ "[]"]) (simp add: in_order_def)
  next
    case False
    then obtain hdr sub rest where split: "split_command available = Some (hdr, sub, rest)" by auto
    with 1(2) False obtain cp1 st1 where sub: "dispatch_sub srv hdr sub cp st = Some (cp1, st1)"
        and rest: "dispatch_compound srv rest cp1 st1 = Some (rs, st')"
      by (subst (asm) dispatch_compound.simps) (auto split: option.splits)
    obtain sub1 r where one: "dispatch_one srv sub1 (cp_ordinal cp) st = Some (r, st1)"
        and ord: "cp_ordinal cp1 = (if cp_ordinal cp = - 1 then - 1 else cp_ordinal cp + 1)"
      by (rule dispatch_sub_cases [OF sub])
    obtain g1 where g1: "frame_ok srv st g1 st1"
        "g1 = [] \<or> (\<exists>k evs. g1 = [(k, evs)] \<and> tk_compound_ordinal k = cp_ordinal cp)"
      using dispatch_one_frame [OF one] by blast
    obtain g2 where g2: "frame_ok srv st1 g2 st'"
        "unat (cp_ordinal cp1) + length rest < 2 ^ 32 - 1 \<longrightarrow> in_order (cp_ordinal cp1) g2"
      using 1(1) [OF _ split refl refl sub refl rest] False by auto
    have "in_order (cp_ordinal cp) (g1 @ g2)"
      if bound: "unat (cp_ordinal cp) + length available < 2 ^ 32 - 1"
    proof -
      have "cp_ordinal cp \<noteq> - 1"
        using bound by (auto simp: unsigned_minus_1_eq_mask mask_eq_exp_minus_1)
      with ord bound have "unat (cp_ordinal cp1) = unat (cp_ordinal cp) + 1"
        by (simp add: unat_word_ariths)
      then show ?thesis
        using in_order_append [OF g1(2)] g2(2) bound split_command_length [OF split] by simp
    qed
    with frame_ok_trans [OF g1(1) g2(1)] show ?thesis by blast
  qed
qed

lemma sorted_ordinals_distinct: "sorted_wrt (<) (ordinals groups) \<Longrightarrow> distinct (map fst groups)"
proof (induction groups)
  case (Cons g groups)
  obtain k evs where g: "g = (k, evs)" by (cases g)
  have "unat (tk_compound_ordinal k) \<notin> set (ordinals groups)"
    using Cons.prems g by auto
  then have "k \<notin> fst ` set groups"
    by (force simp: ordinals_def)
  with Cons g show ?case by simp
qed simp

lemma smb1_frame:
  assumes "handle_smb1_multi_protocol srv frame st = Some (r, st')"
  shows "frame_ok srv st [] st'" and "conn_sessions (st_conn st') = conn_sessions (st_conn st)"
  using assms
  by (auto simp: handle_smb1_multi_protocol_def multi_protocol_response_def now_filetime_def
      frame_ok_def conn_allowed_def Let_def Option.bind_eq_Some_conv split: if_splits option.splits)

lemma smb1_total: "\<exists>r st'. handle_smb1_multi_protocol srv frame st = Some (r, st')"
  by (auto simp: handle_smb1_multi_protocol_def Let_def split: prod.splits option.splits)

text \<open>The ways a frame ends.\<close>

lemma dispatch_frame_cases:
  assumes "dispatch_frame srv frame st = Some (r, st')"
  obtains (smb1) b where "handle_smb1_multi_protocol srv frame st = Some (Some b, st')" "r = Some b"
  | (short) "handle_smb1_multi_protocol srv frame st = Some (None, st')" "r = None"
      "length frame < SMB2_HEADER_LEN"
  | (silent) st1 rs where "handle_smb1_multi_protocol srv frame st = Some (None, st1)"
      "SMB2_HEADER_LEN \<le> length frame"
      "dispatch_compound srv frame compound_start st1 = Some (rs, st')"
      "rs = None \<or> rs = Some []" "r = None"
  | (replied) st1 rs out where "handle_smb1_multi_protocol srv frame st = Some (None, st1)"
      "SMB2_HEADER_LEN \<le> length frame"
      "dispatch_compound srv frame compound_start st1 = Some (Some rs, st')" "rs \<noteq> []"
      "stitch_responses srv (st_conn st') rs = Some out" "r = Some out"
proof -
  obtain m st1 where h: "handle_smb1_multi_protocol srv frame st = Some (m, st1)"
    using smb1_total by blast
  show ?thesis
  proof (cases m)
    case (Some b)
    with h assms smb1 show ?thesis by (auto simp: dispatch_frame_def)
  next
    case None
    show ?thesis
    proof (cases "length frame < SMB2_HEADER_LEN")
      case True
      with None h assms short show ?thesis by (auto simp: dispatch_frame_def)
    next
      case False
      with None h assms obtain rs st2 where run:
          "dispatch_compound srv frame compound_start st1 = Some (rs, st2)"
        by (auto simp: dispatch_frame_def Option.bind_eq_Some_conv)
      show ?thesis
      proof (cases "rs = None \<or> rs = Some []")
        case True
        with False None h run assms silent show ?thesis by (auto simp: dispatch_frame_def)
      next
        case rs: False
        then obtain x xs where "rs = Some (x # xs)" by (cases rs; cases "the rs") auto
        with False None h run assms replied [of st1 "x # xs"] show ?thesis
          by (auto simp: dispatch_frame_def Option.bind_eq_Some_conv)
      qed
    qed
  qed
qed

lemma dispatch_frame_ok:
  assumes "dispatch_frame srv frame st = Some (r, st')"
  shows "\<exists>groups. frame_ok srv st groups st' \<and>
    (length frame < 2 ^ 32 - 1 \<longrightarrow> sorted_wrt (<) (ordinals groups))"
proof -
  have loop: "\<exists>groups. frame_ok srv st groups st' \<and>
      (length frame < 2 ^ 32 - 1 \<longrightarrow> sorted_wrt (<) (ordinals groups))"
    if "handle_smb1_multi_protocol srv frame st = Some (None, st1)"
      and "dispatch_compound srv frame compound_start st1 = Some (rs, st')" for st1 rs
    using frame_ok_trans [OF smb1_frame(1) [OF that(1)]] dispatch_compound_frame [OF that(2)]
    by (fastforce simp: compound_start_def in_order_def)
  from assms show ?thesis
    by (cases rule: dispatch_frame_cases) (fastforce dest: smb1_frame(1) loop)+
qed

text \<open>
  C14: every frame leaves the connection well formed. Whatever bytes a client sends, compound or
  not, the tables of sessions, trees and opens stay well formed, the identity of the connection
  stays, and the scope of the trace key ends with the frame.
\<close>

theorem dispatch_frame_keeps_conn_ok:
  assumes "conn_ok (st_conn st)" and "dispatch_frame srv frame st = Some (r, st')"
  shows "conn_ok (st_conn st') \<and> conn_id (st_conn st') = conn_id (st_conn st) \<and> st_key st' = st_key st"
  using dispatch_frame_ok [OF assms(2)] assms(1) by (auto simp: frame_ok_def)

text \<open>
  C20: the trace of a frame can be taken apart. With a sink armed, what a frame adds to the trace
  is a sequence of groups of events, each under a key of this connection and beginning with the
  request event, and no two groups of a frame share their key, however long the chain of compound
  requests is.
\<close>

theorem frame_trace_correlated:
  assumes "dispatch_frame srv frame st = Some (r, st')" and "length frame < 2 ^ 24"
  shows "\<exists>groups. st_log st' = st_log st @ concat (map (\<lambda>(k, evs). map (Pair (Some k)) evs) groups) \<and>
    distinct (map fst groups) \<and>
    (\<forall>(k, evs) \<in> set groups. tk_connection_id k = conn_id (st_conn st) \<and>
       (\<exists>cmd sid tid more. evs = RequestEvent cmd sid tid # more))"
proof -
  have "length frame < 2 ^ 32 - 1" using assms(2) by simp
  with dispatch_frame_ok [OF assms(1)] obtain groups where
      "frame_ok srv st groups st'" "sorted_wrt (<) (ordinals groups)"
    by blast
  then show ?thesis
    by (intro exI [of _ groups])
      (auto simp: frame_ok_def flat_def group_ok_def dest: sorted_ordinals_distinct)
qed
section \<open>Compound responses\<close>

text \<open>One answer inside the reply, re-signed, as a function of its bytes alone.\<close>

definition resigned :: "'w server \<Rightarrow> 'w connection \<Rightarrow> bytes \<Rightarrow> bytes" where
  "resigned srv c p =
     (if de32 (slice 0x10 4 p) AND SMB2_FLAGS_SIGNED = 0 then p
      else case tbl_get (conn_sessions c) (de64 (slice 0x28 8 p)) of
        None \<Rightarrow> p
      | Some sess \<Rightarrow>
          if sess_identity sess = Anonymous then p
          else patch SIG_OFF (compute_mac_zeroed_signature (srv_crypto srv) p (sess_signing_key sess)
                 (conn_signing_algo c)) p)"

lemma resigned_length [simp]:
  "crypto_ok (srv_crypto srv) \<Longrightarrow> 64 \<le> length p \<Longrightarrow> length (resigned srv c p) = length p"
  by (simp add: resigned_def SIG_OFF_def split: option.splits)

lemma slice_middle: "off + n \<le> length p \<Longrightarrow> slice (length a + off) n (a @ p @ b) = slice off n p"
  by (simp add: slice_def)

lemma patch_middle:
  "length q = length p \<Longrightarrow> patch (length a) q (a @ p @ b) = a @ q @ b"
  by (simp add: patch_def)

lemma resign_at:
  assumes "crypto_ok (srv_crypto srv)" and "64 \<le> length p"
  shows "resign srv c (length a, length p) (a @ p @ b) = Some (a @ resigned srv c p @ b)"
  using assms
  by (auto simp: resign_def resigned_def read_in_bounds slice_middle get_range_Some sign_def
      slice_middle [where off = 0, simplified] patch_middle SIG_OFF_def slice_def
      split: option.splits)

definition chained :: "bytes \<Rightarrow> bytes" where
  "chained r = patch 0x14 (le32 (of_nat (align_up8 (length r)))) r"

definition padding :: "bytes \<Rightarrow> bytes" where
  "padding r = replicate (align_up8 (length r) - length r) 0"

text \<open>The parts of the reply: with \<open>f\<close> the identity as they are laid out, with \<open>resigned\<close> as they leave.\<close>

fun parts_of :: "(bytes \<Rightarrow> bytes) \<Rightarrow> bytes list \<Rightarrow> bytes list" where
  "parts_of f [] = []"
| "parts_of f [r] = [f r]"
| "parts_of f (r # rs) = (f (chained r) @ padding r) # parts_of f rs"

fun ranges_of :: "nat \<Rightarrow> bytes list \<Rightarrow> (nat \<times> nat) list" where
  "ranges_of start [] = []"
| "ranges_of start [r] = [(start, length r)]"
| "ranges_of start (r # rs) = (start, length r) # ranges_of (start + align_up8 (length r)) rs"

lemma chained_length [simp]: "64 \<le> length r \<Longrightarrow> length (chained r) = length r"
  by (simp add: chained_def)

lemma stitch_layout_parts:
  "\<forall>r \<in> set rs. 64 \<le> length r \<Longrightarrow>
    stitch_layout rs out ranges = Some (out @ concat (parts_of (\<lambda>p. p) rs), ranges @ ranges_of (length out) rs)"
proof (induction rs arbitrary: out ranges rule: induct_list012)
  case (3 r r' rs)
  have "length out + (length r + (align_up8 (length r) - length r)) = length out + align_up8 (length r)"
    by (simp add: align_up8_ge)
  with 3 show ?case
    by (simp add: Let_def chained_def [symmetric] padding_def [symmetric])
qed simp_all

lemma resign_all_parts:
  assumes "crypto_ok (srv_crypto srv)"
  shows "\<forall>r \<in> set rs. 64 \<le> length r \<Longrightarrow>
    resign_all srv c (ranges_of (length a) rs) (a @ concat (parts_of (\<lambda>p. p) rs))
      = Some (a @ concat (parts_of (resigned srv c) rs))"
proof (induction rs arbitrary: a rule: induct_list012)
  case (2 r)
  then show ?case using resign_at [OF assms, of r c a "[]"] by simp
next
  case (3 r r' rs)
  let ?p = "chained r"
  have len: "64 \<le> length ?p" "length ?p = length r" using 3 by simp_all
  have "length (a @ resigned srv c ?p @ padding r) = length a + align_up8 (length r)"
    using assms len by (simp add: padding_def)
  with 3(2) [of "a @ resigned srv c ?p @ padding r"] 3(3)
    resign_at [OF assms len(1), of c a "padding r @ concat (parts_of (\<lambda>p. p) (r' # rs))"] len(2)
  show ?case by simp
qed simp

lemma stitch_responses_parts:
  assumes "crypto_ok (srv_crypto srv)" and "\<forall>r \<in> set rs. 64 \<le> length r"
  shows "stitch_responses srv c rs = Some (concat (parts_of (resigned srv c) rs))"
  using stitch_layout_parts [OF assms(2), of "[]" "[]"] resign_all_parts [OF assms, of c "[]"]
  by (simp add: stitch_responses_def)

lemma dispatch_frame_answers:
  assumes ok: "crypto_ok (srv_crypto srv)"
  shows "\<exists>r st'. dispatch_frame srv frame st = Some (r, st')"
proof -
  obtain m st1 where h: "handle_smb1_multi_protocol srv frame st = Some (m, st1)"
    using smb1_total by blast
  obtain rs st2 where run: "dispatch_compound srv frame compound_start st1 = Some (rs, st2)"
      "\<forall>r \<in> set (case rs of None \<Rightarrow> [] | Some rs \<Rightarrow> rs). 64 \<le> length r"
    using dispatch_compound_total [OF ok compound_ok_start, of frame st1] by blast
  show ?thesis
    using h run stitch_responses_parts [OF ok, of _ "st_conn st2"]
    by (cases m) (auto simp: dispatch_frame_def split: option.splits list.splits)
qed

text \<open>How a client takes a reply apart: it follows the NextCommand fields.\<close>

function split_chain :: "bytes \<Rightarrow> bytes list" where
  "split_chain b =
     (let next = unat (de32 (slice 0x14 4 b)) in
      if length b < 64 \<or> next < 64 \<or> length b \<le> next then [b]
      else take next b # split_chain (drop next b))"
  by pat_completeness auto
termination by (relation "measure length") auto

declare split_chain.simps [simp del]

lemma take_patch: "n \<le> off \<Longrightarrow> off + length xs \<le> length b \<Longrightarrow> take n (patch off xs b) = take n b"
  by (simp add: patch_def min_absorb1)

lemma drop_patch: "off + length xs \<le> n \<Longrightarrow> off + length xs \<le> length b \<Longrightarrow>
    drop n (patch off xs b) = drop n b"
  by (simp add: patch_def)

lemma resigned_fields:
  assumes "crypto_ok (srv_crypto srv)" and "64 \<le> length p"
  shows "take 48 (resigned srv c p) = take 48 p" "drop 64 (resigned srv c p) = drop 64 p"
  using assms
  by (simp_all add: resigned_def SIG_OFF_def take_patch drop_patch split: option.splits)

lemma slice_of_take: "off + n \<le> m \<Longrightarrow> slice off n (take m p) = slice off n p"
  by (simp add: slice_def drop_take min_absorb1)

lemma resigned_verifies:
  assumes "crypto_ok (srv_crypto srv)" and "64 \<le> length p"
    and "de32 (slice 0x10 4 p) AND SMB2_FLAGS_SIGNED \<noteq> 0"
    and "tbl_get (conn_sessions c) (de64 (slice 0x28 8 p)) = Some s" and "sess_identity s \<noteq> Anonymous"
  shows "verify (srv_crypto srv) (resigned srv c p) (sess_signing_key s) (conn_signing_algo c) = Inr ()"
proof -
  have "sign (srv_crypto srv) p (sess_signing_key s) (conn_signing_algo c) = Inr (resigned srv c p)"
    using assms by (simp add: sign_def resigned_def)
  from sign_verifies [OF assms(1) this] show ?thesis by simp
qed

text \<open>
  The answer \<open>r\<close> inside the part \<open>p\<close> of a reply: less than eight zero bytes follow it. The signature
  is that of the answer without these.
\<close>

definition carries :: "'w server \<Rightarrow> 'w connection \<Rightarrow> bytes \<Rightarrow> bytes \<Rightarrow> bool" where
  "carries srv c r p \<longleftrightarrow> length r \<le> length p \<and> length p < length r + 8 \<and>
     drop (length r) p = replicate (length p - length r) 0 \<and>
     take 0x14 p = take 0x14 r \<and> slice 0x18 0x18 p = slice 0x18 0x18 r \<and>
     drop 64 (take (length r) p) = drop 64 r \<and>
     (de32 (slice 0x10 4 r) AND SMB2_FLAGS_SIGNED = 0 \<or>
      (case tbl_get (conn_sessions c) (de64 (slice 0x28 8 r)) of
         None \<Rightarrow> True
       | Some s \<Rightarrow> sess_identity s = Anonymous \<or>
           verify (srv_crypto srv) (take (length r) p) (sess_signing_key s) (conn_signing_algo c) = Inr ()))"

lemma carries_resigned:
  assumes ok: "crypto_ok (srv_crypto srv)" and len: "64 \<le> length r" and q: "length q = length r"
    and same: "take 0x14 q = take 0x14 r" "drop 0x18 q = drop 0x18 r" and n: "n < 8"
  shows "carries srv c r (resigned srv c q @ replicate n 0)"
proof -
  let ?p = "resigned srv c q"
  have len_p: "length ?p = length r" using ok len q by simp
  have q64: "64 \<le> length q" using len q by simp
  note f = resigned_fields [OF ok q64]
  have t: "take 0x14 ?p = take 0x14 r"
    using arg_cong [OF f(1), of "take 0x14"] same(1) by (simp add: min_absorb1)
  have m: "slice 0x18 0x18 ?p = slice 0x18 0x18 r"
    using arg_cong [OF f(1), of "drop 0x18"] arg_cong [OF same(2), of "take 0x18"]
    by (simp add: slice_def take_drop)
  have b: "drop 64 ?p = drop 64 r"
    using f(2) arg_cong [OF same(2), of "drop 40"] by simp
  have fields: "slice 0x10 4 q = slice 0x10 4 r" "slice 0x28 8 q = slice 0x28 8 r"
    using arg_cong [OF same(1), of "drop 0x10"] arg_cong [OF same(2), of "\<lambda>x. take 8 (drop 0x10 x)"]
    by (simp_all add: slice_def take_drop)
  have v: "verify (srv_crypto srv) ?p (sess_signing_key s) (conn_signing_algo c) = Inr ()"
    if "de32 (slice 0x10 4 r) AND SMB2_FLAGS_SIGNED \<noteq> 0"
      "tbl_get (conn_sessions c) (de64 (slice 0x28 8 r)) = Some s" "sess_identity s \<noteq> Anonymous" for s
    using resigned_verifies [OF ok q64] that fields by simp
  show ?thesis
    using len len_p t m b v n by (auto simp: carries_def slice_def split: option.splits)
qed

lemma align_up8_less: "align_up8 n < n + 8"
  by (simp add: align_up8_def)

lemma concat_split_chain: "concat (split_chain b) = b"
  by (induction b rule: split_chain.induct) (subst split_chain.simps, simp add: Let_def)

lemma split_chain_parts:
  assumes ok: "crypto_ok (srv_crypto srv)"
  shows "rs \<noteq> [] \<Longrightarrow> \<forall>r \<in> set rs. 64 \<le> length r \<and> length r < 2 ^ 31 \<and> slice 0x14 4 r = le32 0 \<Longrightarrow>
    list_all2 (carries srv c) rs (parts_of (resigned srv c) rs) \<and>
    split_chain (concat (parts_of (resigned srv c) rs)) = parts_of (resigned srv c) rs"
proof (induction rs rule: induct_list012)
  case (2 r)
  have len: "64 \<le> length r" using 2 by simp
  have "slice 0x14 4 (resigned srv c r) = slice 0x14 4 r"
    using arg_cong [OF resigned_fields(1) [OF ok len], of "slice 0x14 4"] by (simp add: slice_of_take)
  then have "split_chain (resigned srv c r) = [resigned srv c r]"
    using 2 by (subst split_chain.simps) simp
  with carries_resigned [OF ok len, of r 0 c] show ?case by simp
next
  case (3 r r' rs)
  let ?q = "chained r" and ?rest = "concat (parts_of (resigned srv c) (r' # rs))"
  have len: "64 \<le> length r" "64 \<le> length ?q" "length ?q = length r" using 3 by simp_all
  let ?part = "resigned srv c ?q @ padding r"
  have part: "length ?part = align_up8 (length r)"
    using ok len by (simp add: padding_def)
  have "slice 0x14 4 (resigned srv c ?q) = slice 0x14 4 ?q"
    using arg_cong [OF resigned_fields(1) [OF ok len(2)], of "slice 0x14 4"]
    by (simp add: slice_of_take)
  also have "\<dots> = le32 (of_nat (align_up8 (length r)))"
    using len by (simp add: chained_def)
  finally have "de32 (slice 0x14 4 (?part @ ?rest)) = of_nat (align_up8 (length r))"
    using ok len by simp
  moreover have "align_up8 (length r) < 2 ^ 32"
    using 3(4) align_up8_lt [of "length r"] by simp
  ultimately have next_cmd: "unat (de32 (slice 0x14 4 (?part @ ?rest))) = length ?part"
    using part by (simp add: unat_of_nat)
  have "64 \<le> length ?part" using part order_trans [OF len(1) align_up8_ge] by simp
  moreover have "?rest \<noteq> []"
    using 3(4) ok by (cases rs) (auto simp: padding_def dest: arg_cong [of _ _ length])
  ultimately have "split_chain (?part @ ?rest) = ?part # split_chain ?rest"
    using next_cmd by (subst split_chain.simps) (auto simp: Let_def)
  moreover have "carries srv c r ?part"
    using len align_up8_less [of "length r"] align_up8_ge [of "length r"]
    unfolding padding_def
    by (intro carries_resigned [OF ok len(1)]) (simp_all add: chained_def take_patch drop_patch)
  ultimately show ?case using 3(2,4) by simp
qed simp

lemma parts_aligned:
  assumes ok: "crypto_ok (srv_crypto srv)"
  shows "rs \<noteq> [] \<Longrightarrow> \<forall>r \<in> set rs. 64 \<le> length r \<Longrightarrow>
    (\<forall>p \<in> set (butlast (parts_of (resigned srv c) rs)). 8 dvd length p) \<and>
    length (last (parts_of (resigned srv c) rs)) = length (last rs) \<and>
    parts_of (resigned srv c) rs \<noteq> []"
proof (induction rs rule: induct_list012)
  case (3 r r' rs)
  have "length (resigned srv c (chained r) @ padding r) = align_up8 (length r)"
    using ok 3(4) by (simp add: padding_def align_up8_ge)
  moreover have "8 dvd align_up8 (length r)" by (simp add: align_up8_def)
  ultimately show ?case using 3(2,4) by simp
qed (use ok in simp_all)

section \<open>Frames\<close>


text \<open>
  C19: a compound reply comes apart again. A client that follows the NextCommand fields of the
  reply finds, in order, one part for each answer; each part but the last has a length that is a
  multiple of eight, so that every part begins aligned, and the last has the length of its answer.
  A part carries the answer's header fields and body, followed by less than eight zero bytes. Where
  the answer was signed for the session of a user, the bytes of the answer without this padding
  verify under the key of that session; the whole part, which is what a client sees, is covered by
  the signature only if there is no padding, that is in the last part and in those whose answer has
  a length that is a multiple of eight.
\<close>

theorem stitched_responses_split:
  assumes "crypto_ok (srv_crypto srv)" and "rs \<noteq> []"
    and "\<forall>r \<in> set rs. 64 \<le> length r \<and> length r < 2 ^ 31 \<and> slice 0x14 4 r = le32 0"
    and "stitch_responses srv c rs = Some out"
  shows "list_all2 (carries srv c) rs (split_chain out) \<and> concat (split_chain out) = out \<and>
    (\<forall>p \<in> set (butlast (split_chain out)). 8 dvd length p) \<and>
    length (last (split_chain out)) = length (last rs)"
proof -
  have "out = concat (parts_of (resigned srv c) rs)"
    using stitch_responses_parts [OF assms(1), of rs c] assms(3,4) by simp
  then show ?thesis
    using split_chain_parts [OF assms(1-3)] parts_aligned [OF assms(1,2), of c] assms(3)
      concat_split_chain [of out]
    by simp
qed

lemma le32_0: "le32 0 = replicate 4 0"
proof -
  have "le_nat n 0 = replicate n 0" for n by (induction n) simp_all
  then show ?thesis by (simp add: le32_def)
qed

theorem stitched_responses_split_witness:
  "\<exists>out. stitch_responses mem_server (mem_conn ReadOnlyAccess False) [replicate 70 0, replicate 80 0]
     = Some out \<and> map length (split_chain out) = [72, 80]"
proof -
  let ?rs = "[replicate 70 0, replicate 80 0] :: bytes list" and ?c = "mem_conn ReadOnlyAccess False"
  have ok: "crypto_ok (srv_crypto mem_server)" by simp
  have all: "\<forall>r \<in> set ?rs. 64 \<le> length r \<and> length r < 2 ^ 31 \<and> slice 0x14 4 r = le32 0"
    by (simp add: slice_def le32_0)
  obtain out where out: "stitch_responses mem_server ?c ?rs = Some out"
    using stitch_responses_parts [OF ok, of ?rs ?c] all by blast
  have "list_all2 (carries mem_server ?c) ?rs (split_chain out) \<and> concat (split_chain out) = out \<and>
    (\<forall>p \<in> set (butlast (split_chain out)). 8 dvd length p) \<and>
    length (last (split_chain out)) = length (last ?rs)"
    using all out by (intro stitched_responses_split [OF ok]) simp_all
  then obtain p q where "split_chain out = [p, q]" "8 dvd length p" "length q = 80"
      "70 \<le> length p" "length p < 78"
    by (auto simp: list_all2_Cons1 carries_def)
  moreover from this have "length p = 72" by presburger
  ultimately show ?thesis using out by auto
qed

text \<open>Signing again is signing once.\<close>

lemma patch_same: "off + n \<le> length b \<Longrightarrow> patch off (slice off n b) b = b"
  using append_take_drop_id [of off b] append_take_drop_id [of n "drop off b"]
  by (simp add: patch_def slice_def add.commute)

lemma resigned_build:
  assumes ok: "crypto_ok (srv_crypto srv)" and same: "conn_sessions c' = conn_sessions c"
    "conn_signing_algo c' = conn_signing_algo c"
  shows "resigned srv c' (build_response_bytes srv c req resp) = build_response_bytes srv c req resp"
proof -
  let ?b = "build_response_bytes srv c req resp"
  obtain sig where sig: "length sig = 16"
      "?b = smb2_header_write (reply_header c req resp sig) @ hr_body resp"
      "\<And>key. response_key c req resp = Some key \<Longrightarrow>
         verify (srv_crypto srv) ?b key (conn_signing_algo c) = Inr ()"
    using build_response_shape [OF ok] by metis
  let ?h = "reply_header c req resp sig"
  have len: "64 \<le> length ?b" using ok by (rule response_length)
  have at: "de32 (slice 0x10 4 ?b) = flags ?h" "de64 (slice 0x28 8 ?b) = session_id ?h"
    using header_fields_at(2,4) [of ?h "hr_body resp"] sig(1,2) len by (simp_all add: read_in_bounds)
  show ?thesis
  proof (cases "response_key c req resp")
    case None
    then show ?thesis using at(1) by (simp add: resigned_def)
  next
    case (Some key)
    from response_keyD [OF Some] obtain s where s: "tbl_get (conn_sessions c) (session_id ?h) = Some s"
        "sess_identity s \<noteq> Anonymous" "sess_signing_key s = key"
      by auto
    have "slice SIG_OFF SIG_LEN ?b
        = compute_mac_zeroed_signature (srv_crypto srv) ?b key (conn_signing_algo c)"
      using sig(3) [OF Some] verify_iff [OF ok] by simp
    moreover have "patch SIG_OFF (slice SIG_OFF SIG_LEN ?b) ?b = ?b"
      using len by (intro patch_same) (simp add: SIG_OFF_def SIG_LEN_def)
    ultimately show ?thesis
      using at s same by (simp add: resigned_def)
  qed
qed

lemma smb1_not_smb2:
  "smb2_header_parse frame = Inr (hdr, body) \<Longrightarrow> handle_smb1_multi_protocol srv frame st = Some (None, st)"
  by (drule header_parse_SomeD(2))
    (auto simp: get_range_def get_at_def slice_def handle_smb1_multi_protocol_def smb2_header_write_def put_raw_header_def raw_of_def
      SMB2_MAGIC_def)

lemma dispatch_single_frame:
  assumes "crypto_ok (srv_crypto srv)" and "smb2_header_parse frame = Inr (hdr, body)"
    and "next_command hdr = 0" and "flags hdr AND SMB2_FLAGS_RELATED_OPERATIONS = 0"
  shows "dispatch_frame srv frame st = dispatch_one srv frame 0 st"
proof -
  have "64 \<le> length frame"
    using header_parse_SomeD [OF assms(2)]
    by (auto simp: wf_header_def length_header_write SMB2_HEADER_LEN_def)
  then have len: "64 \<le> length frame" "frame \<noteq> []" by auto
  then have split: "split_command frame = Some (hdr, frame, [])"
    using assms(2,3) by (simp add: split_command_def SMB2_HEADER_LEN_def)
  obtain r st1 where one: "dispatch_one srv frame 0 st = Some (r, st1)"
    using dispatch_one_total [OF assms(1)] by metis
  have sub: "\<exists>cp. dispatch_sub srv hdr frame compound_start st = Some (cp, st1) \<and>
      cp_responses cp = (case r of None \<Rightarrow> [] | Some b \<Rightarrow> [b])"
  proof (cases r)
    case None
    with one assms(4) show ?thesis by (simp add: dispatch_sub_def compound_start_def Let_def)
  next
    case (Some b)
    obtain f where "capture_create_file_id b = Some f" using capture_total by blast
    with Some one assms(4) show ?thesis
      by (simp add: dispatch_sub_def compound_start_def Let_def)
  qed
  then have run: "dispatch_compound srv frame compound_start st
      = Some (Some (case r of None \<Rightarrow> [] | Some b \<Rightarrow> [b]), st1)"
    using split len by (subst dispatch_compound.simps) (auto simp: dispatch_compound.simps)
  show ?thesis
  proof (cases r)
    case None
    with run one len smb1_not_smb2 [OF assms(2), of srv st] show ?thesis
      by (simp add: dispatch_frame_def SMB2_HEADER_LEN_def)
  next
    case (Some b)
    obtain c resp where "b = build_response_bytes srv c hdr resp"
        "conn_sessions (st_conn st1) = conn_sessions c"
        "conn_signing_algo (st_conn st1) = conn_signing_algo c"
      using dispatch_one_answer [OF assms(1,2)] one Some by metis
    then have "resigned srv (st_conn st1) b = b"
      using resigned_build [OF assms(1)] by simp
    moreover have "64 \<le> length b"
      using dispatch_one_length [OF assms(1)] one Some by blast
    ultimately have "stitch_responses srv (st_conn st1) [b] = Some b"
      using stitch_responses_parts [OF assms(1), of "[b]" "st_conn st1"] by simp
    with Some run one len smb1_not_smb2 [OF assms(2), of srv st] show ?thesis
      by (simp add: dispatch_frame_def SMB2_HEADER_LEN_def)
  qed
qed

text \<open>
  C21: A frame with a single request is that request. For a frame that holds one unrelated SMB2
  request and no chain, dispatching the frame is dispatching the request with ordinal zero: the
  loop, the inheritance of identifiers and the second signing of the reply change nothing.
\<close>

theorem single_request_frame:
  assumes "crypto_ok (srv_crypto srv)" and "smb2_header_parse frame = Inr (hdr, body)"
    and "next_command hdr = 0" and "flags hdr AND SMB2_FLAGS_RELATED_OPERATIONS = 0"
  shows "dispatch_frame srv frame st = dispatch_one srv frame 0 st"
  by (rule dispatch_single_frame [OF assms])

section \<open>Concrete frames\<close>

abbreviation echo_frame :: bytes where
  "echo_frame \<equiv> sample_frame (hdr1 Echo) []"

lemma echo_frame_runs:
  "\<exists>r st'. dispatch_frame mem_server echo_frame (mem_st ReadOnlyAccess False) = Some (r, st')"
  by (rule dispatch_frame_answers) simp


theorem dispatch_frame_keeps_conn_ok_witness:
  "\<exists>r st'. dispatch_frame mem_server echo_frame (mem_st ReadOnlyAccess False) = Some (r, st') \<and>
    conn_ok (st_conn st') \<and> conn_id (st_conn st') = 7"
proof -
  obtain r st' where run: "dispatch_frame mem_server echo_frame (mem_st ReadOnlyAccess False) = Some (r, st')"
    using echo_frame_runs by blast
  have "conn_ok (st_conn (mem_st ReadOnlyAccess False))" by simp
  from dispatch_frame_keeps_conn_ok [OF this run] run show ?thesis
    by (simp add: mem_conn_def connection_new_def)
qed

theorem frame_trace_correlated_witness:
  "\<exists>r st' groups. dispatch_frame mem_server echo_frame (mem_st ReadOnlyAccess False) = Some (r, st') \<and>
    st_log st' = concat (map (\<lambda>(k, evs). map (Pair (Some k)) evs) groups) \<and>
    distinct (map fst groups)"
proof -
  obtain r st' where run: "dispatch_frame mem_server echo_frame (mem_st ReadOnlyAccess False) = Some (r, st')"
    using echo_frame_runs by blast
  have "length echo_frame < 2 ^ 24"
    by (simp add: sample_frame_def length_header_write SMB2_HEADER_LEN_def)
  from frame_trace_correlated [OF run this] run show ?thesis by auto
qed

theorem single_request_frame_witness:
  "dispatch_frame mem_server echo_frame (mem_st ReadOnlyAccess False)
    = dispatch_one mem_server echo_frame 0 (mem_st ReadOnlyAccess False)"
proof -
  have "crypto_ok (srv_crypto mem_server)" by simp
  from single_request_frame [OF this sample_frame_parse [OF wf_hdr1(1)]] show ?thesis
    by (simp add: hdr1_def default_header_def)
qed

end
