(* ===== verification/Handler_Errors.thy ===== *)
theory Handler_Errors
  imports Dispatch_Preauth
begin

text \<open>
  What a client gets when a request fails: every handler fails through \<open>HandlerResponse::err\<close>
  (\<open>src/src/dispatch.rs\<close>), with a status that is not success.
\<close>

section \<open>The outcomes of a handler\<close>

text \<open>
  A success, a request for another round, or an error without anything else, unless the handler did
  not return.
\<close>

definition proper_outcome :: "handler_response \<Rightarrow> bool" where
  "proper_outcome resp \<longleftrightarrow> hr_status resp = STATUS_SUCCESS \<or>
     hr_status resp = STATUS_MORE_PROCESSING_REQUIRED \<or> resp = response_err (hr_status resp) \<or>
     hr_panicked resp"

lemma proper_err [simp, intro]: "proper_outcome (response_err s)"
  by (simp add: proper_outcome_def)

lemma proper_success [intro]: "hr_status resp = STATUS_SUCCESS \<Longrightarrow> proper_outcome resp"
  by (simp add: proper_outcome_def)

lemma proper_ok [simp, intro]: "proper_outcome (response_ok b)"
  by (simp add: proper_success)

lemma proper_or_fail:
  "(\<And>x. r = Inr x \<Longrightarrow> proper_outcome (fst (f x))) \<Longrightarrow> proper_outcome (fst (or_fail r st f))"
  by (cases r) simp_all

lemma proper_or_panic:
  "(\<And>x. p = Some x \<Longrightarrow> proper_outcome (fst (f x))) \<Longrightarrow> proper_outcome (fst (or_panic p st f))"
  by (cases p) (simp_all add: proper_outcome_def)

lemma setup_proper: "proper_outcome (fst (handle_session_setup srv hdr body st))"
  unfolding handle_session_setup_def setup_first_def setup_second_def
  by (auto simp: Let_def case_prod_unfold intro!: proper_or_fail proper_or_panic
      split: sum.splits option.splits) (simp_all add: proper_outcome_def)

lemma handlers_proper: "proper_outcome (fst (dispatch_command srv hdr body st))"
  unfolding dispatch_command_def handle_negotiate_def handle_logoff_def handle_tree_connect_def
    handle_tree_disconnect_def handle_create_def handle_close_def handle_flush_def handle_read_def
    handle_write_def handle_lock_def handle_ioctl_def handle_echo_def handle_query_directory_def
    handle_change_notify_def handle_query_info_def handle_set_info_def set_rename_def
    finish_set_info_def handle_oplock_break_def
  by (auto simp: Let_def case_prod_unfold intro!: proper_or_fail proper_or_panic
      split: sum.splits option.splits fsctl.splits command.splits intro: setup_proper)

lemma response_err_body: "hr_body (response_err s) = put_error_response (error_response_status s)"
  by (simp add: response_err_def)

lemma response_err_session: "session_id (response_header req (response_err s)) = session_id req"
  by (simp add: response_header_def)

lemma error_response_status_parse:
  "error_response_parse (put_error_response (error_response_status s)) = Some (error_response_status s)"
  using error_response.parse_put [of "error_response_status s" "[]"]
  by (simp add: error_response_parse_def)

text \<open>
  C17: a failed request is answered with an ERROR response and nothing else. When the status of a
  reply is neither success nor a call for another round of a logon, its body parses as the ERROR
  structure without data, and its header names the session of the request: whatever a handler did
  before it failed, nothing of it is in the reply.
\<close>

theorem failed_request_error_body:
  assumes "crypto_ok (srv_crypto srv)" and "smb2_header_parse frame = Inr (req, body)"
    and "dispatch_one srv frame ordinal st = Some (Some bytes, st')"
    and "smb2_header_parse bytes = Inr (h, reply)"
    and "channel_sequence_status h \<notin> {STATUS_SUCCESS, STATUS_MORE_PROCESSING_REQUIRED}"
  shows "error_response_parse reply = Some (error_response_status (channel_sequence_status h)) \<and>
    session_id h = session_id req"
  using assms(3)
proof (cases rule: dispatch_one_cases)
  case (request hdr' body' key st1)
  have same: "hdr' = req" using request(1) assms(2) by simp
  obtain c resp where bytes: "bytes = build_response_bytes srv c req resp"
      and "proper_outcome resp" "\<not> hr_panicked resp"
    using request(3)
  proof (cases rule: dispatch_scoped_cases)
    case (handled preauth sta resp st2 st3 bytes' status)
    with that handlers_proper [of srv hdr' body' sta] same show ?thesis by simp
  qed (use that same in auto)
  obtain sig where "smb2_header_parse bytes = Inr (reply_header c req resp sig, hr_body resp)"
    using build_response_parse [OF assms(1) bytes] by metis
  with assms(4) have h: "h = reply_header c req resp sig" "reply = hr_body resp" by simp_all
  with assms(5) \<open>proper_outcome resp\<close> \<open>\<not> hr_panicked resp\<close> have "resp = response_err (channel_sequence_status h)"
    by (simp add: proper_outcome_def)
  with h show ?thesis
    by (metis error_response_status_parse reply_header_simps(7) response_err_session response_err_body)
qed (use assms(3) in simp)

theorem failed_request_error_body_witness:
  "\<exists>bytes st' h. dispatch_one mem_server (sample_frame (hdr1 ChangeNotify) []) 0
       (mem_st ReadOnlyAccess False) = Some (Some bytes, st') \<and>
     smb2_header_parse bytes = Inr (h, put_error_response (error_response_status STATUS_NOT_SUPPORTED)) \<and>
     channel_sequence_status h = STATUS_NOT_SUPPORTED \<and> session_id h = 1"
proof -
  let ?st = "mem_st ReadOnlyAccess False" and ?frame = "sample_frame (hdr1 ChangeNotify) []"
  have ok: "crypto_ok (srv_crypto mem_server)" by simp
  note parse = sample_frame_parse [OF wf_hdr1(1), of ChangeNotify "[]"]
  have cmd: "hdr_command (hdr1 ChangeNotify) \<noteq> Cancel" by simp
  have ver: "verify_request_signature mem_server (st_conn ?st) (hdr1 ChangeNotify) ?frame = Inr ()"
    by (simp add: verify_request_signature_def mem_conn_def bob_session_def session_new_def tbl_get_def)
  have run: "dispatch_command mem_server (hdr1 ChangeNotify) [] s
      = (response_err STATUS_NOT_SUPPORTED, s)" for s
    by (simp add: dispatch_command_def handle_change_notify_def)
  obtain bytes st' h where "dispatch_one mem_server ?frame 0 ?st = Some (Some bytes, st')"
      "smb2_header_parse bytes = Inr (h, hr_body (response_err STATUS_NOT_SUPPORTED))"
      "channel_sequence_status h = hr_status (response_err STATUS_NOT_SUPPORTED)"
    using accepted_request [OF ok parse cmd ver run] by blast
  then have one: "dispatch_one mem_server ?frame 0 ?st = Some (Some bytes, st')"
      "smb2_header_parse bytes = Inr (h, put_error_response (error_response_status STATUS_NOT_SUPPORTED))"
      "channel_sequence_status h = STATUS_NOT_SUPPORTED"
    by (simp_all add: response_err_body)
  then have "channel_sequence_status h \<notin> {STATUS_SUCCESS, STATUS_MORE_PROCESSING_REQUIRED}"
    by (simp add: status_defs)
  from failed_request_error_body [OF ok parse one(1,2) this] one show ?thesis by auto
qed

end
