(* ===== verification/System.thy ===== *)
theory System
  imports Dispatch_Compound Dispatch_Preauth
begin

text \<open>
  The running server as a state machine: the system of \<open>Server\<close> (configuration, live
  connections, the world of the backends) with the trace and the sources of randomness and time.
  Its steps are the ones the tasks of the server take: a socket is accepted
  (\<open>src/src/conn/mod.rs\<close>), a frame of one connection is dispatched (\<open>src/src/conn/reader.rs\<close>), an
  operation of \<open>ConfigHandle\<close> runs, a connection ends, a shutdown is requested. Frames of one
  connection are handled one at a time, as the reader does; frames of different connections and
  configuration changes are interleaved at the granularity of whole frames and operations (the
  last section shows what a finer interleaving can do).
\<close>

record 'w machine =
  mc_system :: "'w system"
  mc_log :: trace_log
  mc_draws :: nat
  mc_ticks :: nat

definition machine_start :: "'w server \<Rightarrow> 'w \<Rightarrow> 'w machine" where
  "machine_start srv w =
     \<lparr>mc_system = \<lparr>sys_server = srv, sys_conns = [], sys_next_conn = 1, sys_world = w\<rparr>,
      mc_log = [], mc_draws = 0, mc_ticks = 0\<rparr>"

text \<open>The state in which the dispatcher handles a frame of a connection, and back.\<close>

definition machine_st :: "'w machine \<Rightarrow> 'w connection \<Rightarrow> 'w st" where
  "machine_st m c =
     \<lparr>st_conn = c, st_world = sys_world (mc_system m), st_log = mc_log m, st_key = None,
      st_draws = mc_draws m, st_ticks = mc_ticks m\<rparr>"

definition put_st :: "u64 \<Rightarrow> 'w st \<Rightarrow> 'w machine \<Rightarrow> 'w machine" where
  "put_st i st m =
     m\<lparr>mc_system := (mc_system m)\<lparr>sys_conns := tbl_insert i (st_conn st) (sys_conns (mc_system m)),
         sys_world := st_world st\<rparr>,
       mc_log := st_log st, mc_draws := st_draws st, mc_ticks := st_ticks st\<rparr>"

definition serve_frame :: "u64 \<Rightarrow> bytes \<Rightarrow> 'w machine \<Rightarrow> (bytes option \<times> 'w machine) option" where
  "serve_frame i frame m =
     (case tbl_get (sys_conns (mc_system m)) i of
        None \<Rightarrow> None
      | Some c \<Rightarrow>
          map_option (\<lambda>(r, st). (r, put_st i st m))
            (dispatch_frame (sys_server (mc_system m)) frame (machine_st m c)))"

definition on_system :: "('w system \<Rightarrow> 'w system) \<Rightarrow> 'w machine \<Rightarrow> 'w machine" where
  "on_system f m = m\<lparr>mc_system := f (mc_system m)\<rparr>"

lemma machine_simps [simp]:
  "st_conn (machine_st m c) = c" "mc_system (on_system f m) = f (mc_system m)"
  "sys_server (mc_system (put_st i st m)) = sys_server (mc_system m)"
  "sys_conns (mc_system (put_st i st m)) = tbl_insert i (st_conn st) (sys_conns (mc_system m))"
  by (simp_all add: machine_st_def on_system_def put_st_def)

section \<open>The steps\<close>

datatype 'w event =
    Accepted u64
  | Received u64 bytes "bytes option"
  | Configured "'w config_op" "config_error + unit"
  | HungUp u64
  | ShutdownRequested

text \<open>
  A connection is accepted, and a frame is dispatched, only while no shutdown is requested; a
  configuration change and the end of a connection can come at any time.
\<close>

inductive machine_step :: "'w machine \<Rightarrow> 'w event \<Rightarrow> 'w machine \<Rightarrow> bool" where
  step_accept:
    "\<not> srv_shutting_down (sys_server (mc_system m)) \<Longrightarrow>
     accept_connection (mc_system m) = (i, sys) \<Longrightarrow>
     machine_step m (Accepted i) (on_system (\<lambda>_. sys) m)"
| step_receive:
    "\<not> srv_shutting_down (sys_server (mc_system m)) \<Longrightarrow>
     serve_frame i frame m = Some (r, m') \<Longrightarrow>
     machine_step m (Received i frame r) m'"
| step_configure:
    "config_op_ok oper \<Longrightarrow> run_config_op oper (mc_system m) = (r, sys) \<Longrightarrow>
     machine_step m (Configured oper r) (on_system (\<lambda>_. sys) m)"
| step_hang_up:
    "machine_step m (HungUp i) (on_system (unregister_connection i) m)"
| step_shutdown:
    "machine_step m ShutdownRequested (on_system request_shutdown m)"

inductive_cases acceptedE: "machine_step m (Accepted i) m'"
inductive_cases receivedE: "machine_step m (Received i frame r) m'"
inductive_cases configuredE: "machine_step m (Configured oper r) m'"
inductive_simps hung_up_iff: "machine_step m (HungUp i) m'"
inductive_simps shutdown_iff: "machine_step m ShutdownRequested m'"

inductive machine_steps :: "'w machine \<Rightarrow> 'w event list \<Rightarrow> 'w machine \<Rightarrow> bool" where
  steps_nil: "machine_steps m [] m"
| steps_snoc: "machine_steps m es m1 \<Longrightarrow> machine_step m1 e m2 \<Longrightarrow> machine_steps m (es @ [e]) m2"

text \<open>The machines that a server from the builder can be in, whatever happens to it.\<close>

definition machine_reaches :: "'w server \<Rightarrow> 'w event list \<Rightarrow> 'w machine \<Rightarrow> bool" where
  "machine_reaches srv es m \<longleftrightarrow> (\<exists>w. machine_steps (machine_start srv w) es m)"

section \<open>The invariant\<close>

definition machine_ok :: "'w machine \<Rightarrow> bool" where
  "machine_ok m \<longleftrightarrow> system_ok (mc_system m) \<and> system_entitled (mc_system m)"

lemma machine_ok_server: "machine_ok m \<Longrightarrow> config_ok (sys_server (mc_system m))"
  by (simp add: machine_ok_def system_ok_def)

lemma machine_ok_conn:
  "machine_ok m \<Longrightarrow> tbl_get (sys_conns (mc_system m)) i = Some c \<Longrightarrow>
    conn_ok c \<and> conn_entitled (sys_server (mc_system m)) c"
  by (auto simp: machine_ok_def system_ok_def system_entitled_def dest: tbl_all_get)

text \<open>A connection that is put into the table, or taken out of it.\<close>

lemma machine_ok_put:
  "machine_ok m \<Longrightarrow> conn_ok (st_conn st) \<Longrightarrow>
    conn_entitled (sys_server (mc_system m)) (st_conn st) \<Longrightarrow> machine_ok (put_st i st m)"
  by (auto simp: machine_ok_def system_ok_def system_entitled_def)

lemma machine_start_ok: "config_ok srv \<Longrightarrow> machine_ok (machine_start srv w)"
  by (simp add: machine_start_def machine_ok_def system_ok_def system_entitled_def)

lemma serve_frameE:
  assumes "serve_frame i frame m = Some (r, m')"
  obtains c st where "tbl_get (sys_conns (mc_system m)) i = Some c" "m' = put_st i st m"
    "dispatch_frame (sys_server (mc_system m)) frame (machine_st m c) = Some (r, st)"
  using assms by (auto simp: serve_frame_def split: option.splits)

lemma serve_frame_ok:
  assumes ok: "machine_ok m" and "serve_frame i frame m = Some (r, m')"
  shows "machine_ok m'"
  using assms(2)
proof (rule serve_frameE)
  fix c st
  assume c: "tbl_get (sys_conns (mc_system m)) i = Some c" and m': "m' = put_st i st m"
    and run: "dispatch_frame (sys_server (mc_system m)) frame (machine_st m c) = Some (r, st)"
  from dispatch_frame_ok [OF run] machine_ok_conn [OF ok c] machine_ok_server [OF ok]
  have "conn_ok (st_conn st) \<and> conn_entitled (sys_server (mc_system m)) (st_conn st)"
    by (auto simp: frame_ok_def)
  with ok show ?thesis by (simp add: m' machine_ok_put)
qed

lemma conns_ok_insert:
  "tbl_all (\<lambda>_ c. conn_ok c) cs \<Longrightarrow> conn_ok c \<Longrightarrow> tbl_all (\<lambda>_ c. conn_ok c) (tbl_insert i c cs)"
  by (rule tbl_all_insert)

lemma accept_ok:
  "machine_ok m \<Longrightarrow> accept_connection (mc_system m) = (i, sys) \<Longrightarrow> machine_ok (on_system (\<lambda>_. sys) m)"
  by (auto simp: accept_connection_def Let_def machine_ok_def system_ok_def system_entitled_def
      conns_ok_insert split: if_splits)

lemma unregister_ok: "machine_ok m \<Longrightarrow> machine_ok (on_system (unregister_connection i) m)"
  by (auto simp: unregister_connection_def machine_ok_def system_ok_def system_entitled_def
      split: if_splits)

lemma tree_entitled_shutdown [simp]:
  "tree_entitled (srv\<lparr>srv_shutting_down := b\<rparr>) who t = tree_entitled srv who t"
  "known (srv\<lparr>srv_shutting_down := b\<rparr>) who = known srv who"
  "config_ok (srv\<lparr>srv_shutting_down := b\<rparr>) = config_ok srv"
  by (simp_all add: tree_entitled_def find_share_def known_def lookup_user_def config_ok_def
      split: identity.splits)

lemma shutdown_ok: "machine_ok m \<Longrightarrow> machine_ok (on_system request_shutdown m)"
  by (auto simp: request_shutdown_def machine_ok_def system_ok_def
      intro!: system_entitled_set_server rights_kept_all)

lemma machine_step_ok: "machine_step m e m' \<Longrightarrow> machine_ok m \<Longrightarrow> machine_ok m'"
proof (induction rule: machine_step.induct)
  case (step_configure oper m r sys)
  then show ?case
    using run_config_op_ok run_config_op_entitled by (fastforce simp: machine_ok_def)
qed (auto intro: accept_ok serve_frame_ok unregister_ok shutdown_ok)

lemma machine_steps_ok: "machine_steps m es m' \<Longrightarrow> machine_ok m \<Longrightarrow> machine_ok m'"
  by (induction rule: machine_steps.induct) (auto intro: machine_step_ok)

lemma machine_reaches_ok: "config_ok srv \<Longrightarrow> machine_reaches srv es m \<Longrightarrow> machine_ok m"
  by (auto simp: machine_reaches_def intro: machine_steps_ok machine_start_ok)

section \<open>Access follows the configuration\<close>

text \<open>What an entitled, well-formed tree may do.\<close>

lemma entitled_tree:
  assumes "tree_entitled srv who t" and "tree_ok tid t"
  shows "(tree_share t = ipc_share \<or>
      (\<exists>share a. find_share srv (sb_name (tree_share t)) = Some share \<and>
         sb_backend share = sb_backend (tree_share t) \<and>
         authorize (sb_mode share) (sb_users share) who = Some a \<and>
         (sb_mode share = PublicReadOnly \<or> read_only_share share \<longrightarrow>
            tree_granted_access t = ReadOnlyAccess))) \<and>
    (\<forall>fid op. tbl_get (tree_opens t) fid = Some op \<longrightarrow>
       open_granted_access op \<le> tree_granted_access t)"
proof -
  have "open_granted_access op \<le> tree_granted_access t"
    if "tbl_get (tree_opens t) fid = Some op" for fid op
    using tree_ok_opens [OF assms(2) that] by (simp add: open_ok_def)
  moreover have "tree_granted_access t = ReadOnlyAccess"
    if "read_only_share share" "sb_backend share = sb_backend (tree_share t)" for share
    using assms(2) that by (simp add: tree_ok_def read_only_share_def)
  ultimately show ?thesis
    using assms(1) unfolding tree_entitled_def by (elim disjE exE conjE) auto
qed

text \<open>
  C3: no access outlives its permission. Whatever sequence of connections, frames, configuration
  changes, disconnects and shutdown requests a server with a consistent configuration goes
  through, in the state it reaches every session of a user belongs to a user who is still in the
  table, and every tree of a session is on the synthetic \<open>IPC$\<close> or on a share that is still
  configured under its name with the same backend, lets the identity of the session in, and is
  held read-only when the share or its backend is; no open file has more access than its tree.
\<close>

theorem access_follows_configuration:
  assumes "config_ok srv0" and "machine_reaches srv0 es m"
    and "tbl_get (sys_conns (mc_system m)) i = Some c"
    and "tbl_get (conn_sessions c) sid = Some s"
  shows "(\<forall>u d. sess_identity s = User u d \<longrightarrow> lookup_user (sys_server (mc_system m)) u \<noteq> None) \<and>
    (\<forall>tid t. tbl_get (sess_trees s) tid = Some t \<longrightarrow>
      (tree_share t = ipc_share \<or>
       (\<exists>share a. find_share (sys_server (mc_system m)) (sb_name (tree_share t)) = Some share \<and>
          sb_backend share = sb_backend (tree_share t) \<and>
          authorize (sb_mode share) (sb_users share) (sess_identity s) = Some a \<and>
          (sb_mode share = PublicReadOnly \<or> read_only_share share \<longrightarrow>
             tree_granted_access t = ReadOnlyAccess))) \<and>
      (\<forall>fid op. tbl_get (tree_opens t) fid = Some op \<longrightarrow>
         open_granted_access op \<le> tree_granted_access t))"
proof -
  have "machine_ok m" using assms(1,2) by (rule machine_reaches_ok)
  from machine_ok_conn [OF this assms(3)]
  have c: "conn_ok c" "conn_entitled (sys_server (mc_system m)) c" by simp_all
  note ent = conn_allowed_get [OF c(2) assms(4)] and ok = conn_ok_sessions [OF c(1) assms(4)]
  have "known (sys_server (mc_system m)) (sess_identity s)"
    using ent by (simp add: session_entitled_def)
  moreover have "tree_entitled (sys_server (mc_system m)) (sess_identity s) t" "tree_ok tid t"
    if "tbl_get (sess_trees s) tid = Some t" for tid t
    using ent session_ok_trees [OF ok that] that by (simp_all add: session_entitled_def)
  ultimately show ?thesis
    by (intro conjI [OF _ allI [OF allI [OF impI [OF entitled_tree]]]])
      (auto simp: known_def split: identity.splits)
qed

section \<open>A finer interleaving\<close>

text \<open>
  The code of TREE_CONNECT releases the lock on the access list before it takes the one on the
  session's trees, and \<open>ConfigHandle\<close> may run in between. When a revoke does, the tree that is
  registered afterwards was decided by the old list and is not entitled under the new one: the
  theorem above holds for whole frames, not for every interleaving of the two tasks (see
  \<open>Interleaving\<close>).
\<close>

lemma revoke_during_connect:
  assumes "system_ok sys" and "share_for (sys_server sys) name = Some share"
    and "sb_mode share = AuthenticatedOnly" and "share \<noteq> ipc_share"
    and "config_revoke_share_user (sb_name share) u sys = (Inr (), sys')"
  shows "\<not> tree_entitled (sys_server sys') (User u d) (tree_connect_new tid share granted)"
  using assms(5)
proof (cases rule: config_revoke_cases)
  case (success s)
  have cfg: "config_ok (sys_server sys)" using assms(1) by (simp add: system_ok_def)
  have "find_share (sys_server sys) name = Some share"
    using assms(2,4) by (auto simp: share_for_def split: if_splits)
  from find_share_name [OF cfg this, of "sb_name share"] success(2)
  have "s = share" by (simp add: eq_ignore_ascii_case_def)
  with success(3) assms(3,4) show ?thesis
    by (simp add: tree_entitled_def tree_connect_new_def find_put_share drop_acl_user_def
        eq_ignore_ascii_case_def authorize_def)
qed (use assms(5) in simp)

section \<open>A run of the server\<close>

text \<open>A client connects and logs on; the server then reaches a state with a session.\<close>

lemma logon_server_config: "config_ok logon_server"
  by (simp add: config_ok_def logon_server_def setup_server_def mem_server_def mem_share_def
      share_bindings_new_def share_ok_def is_public_mode_def tbl_all_def tbl_ok_def valid_user_name_def
      tbl_get_def name_defs)

lemma serve_single:
  assumes "crypto_ok (srv_crypto (sys_server (mc_system m)))"
    and "smb2_header_parse frame = Inr (hdr, body)" and "next_command hdr = 0" and "flags hdr = 0"
    and "tbl_get (sys_conns (mc_system m)) i = Some c"
    and "dispatch_one (sys_server (mc_system m)) frame 0 (machine_st m c) = Some (r, st)"
    and "\<not> srv_shutting_down (sys_server (mc_system m))"
  shows "machine_step m (Received i frame r) (put_st i st m)"
  using assms(4-7)
  by (intro step_receive) (simp_all add: serve_frame_def dispatch_single_frame [OF assms(1-3)])

lemma hdr_single [simp]:
  "next_command (hdr0 cmd) = 0" "flags (hdr0 cmd) = 0" "next_command (hdr1 cmd) = 0"
  by (simp_all add: hdr0_def hdr1_def default_header_def)

lemma logon_pending:
  "\<exists>m r1 r2 c acc. machine_steps (machine_start logon_server sample_fs)
     [Accepted 1, Received 1 frame1 r1, Received 1 frame2 r2] m \<and>
     sys_server (mc_system m) = logon_server \<and> map fst (sys_conns (mc_system m)) = [1] \<and>
     tbl_get (sys_conns (mc_system m)) 1 = Some c \<and> conn_dialect c = Some Smb311 \<and>
     tbl_get (conn_pending_auths c) 1 = Some (acc, True) \<and> nt_server_challenge acc = replicate 8 0 \<and>
     (\<forall>k. tbl_get (conn_sessions c) k = None)"
proof -
  let ?m0 = "machine_start logon_server sample_fs"
  have up: "\<not> srv_shutting_down logon_server"
    by (simp add: logon_server_def setup_server_def mem_server_def)
  obtain c0 sys where acc: "accept_connection (mc_system ?m0) = (1, sys)"
      "sys_conns sys = [(1, c0)]" "sys_server sys = logon_server"
      "c0 = connection_new 1 (cfg_server_guid (srv_config logon_server))
        (cfg_max_read_size (srv_config logon_server)) (cfg_max_write_size (srv_config logon_server))"
    by (auto simp: accept_connection_def machine_start_def tbl_insert_def Let_def)
  let ?m1 = "on_system (\<lambda>_. sys) ?m0"
  have s1: "machine_step ?m0 (Accepted 1) ?m1"
    using up acc(1) by (intro step_accept) (simp_all add: machine_start_def)
  have c0: "tbl_get (sys_conns sys) 1 = Some c0" by (simp add: acc(2) tbl_get_def)
  obtain r1 st1 where one: "dispatch_one logon_server frame1 0 (machine_st ?m1 c0) = Some (Some r1, st1)"
      "conn_dialect (st_conn st1) = Some Smb311" "conn_next_session_id (st_conn st1) = 1"
      "\<forall>k. tbl_get (conn_sessions (st_conn st1)) k = None"
    using logon_round1 [of "machine_st ?m1 c0", OF _] acc(4) by fastforce
  let ?m2 = "put_st 1 st1 ?m1"
  have s2: "machine_step ?m1 (Received 1 frame1 (Some r1)) ?m2"
    using one(1) acc c0 up by (intro serve_single [OF _ frame_parse0]) simp_all
  have same2: "conn_dialect (st_conn (machine_st ?m2 (st_conn st1))) = Some Smb311" using one by simp
  obtain r2 st2 acc2 where two: "dispatch_one logon_server frame2 0 (machine_st ?m2 (st_conn st1))
      = Some (Some r2, st2)" "tbl_get (conn_pending_auths (st_conn st2)) 1 = Some (acc2, True)"
      "nt_server_challenge acc2 = replicate 8 0" "conn_dialect (st_conn st2) = Some Smb311"
      "\<forall>k. tbl_get (conn_sessions (st_conn st2)) k = None"
    using logon_round2 [OF same2] one(3,4) by auto
  have s3: "machine_step ?m2 (Received 1 frame2 (Some r2)) (put_st 1 st2 ?m2)"
    using two(1) acc(3) up by (intro serve_single [OF _ frame_parse0]) simp_all
  have "machine_steps ?m0 (([] @ [Accepted 1]) @ [Received 1 frame1 (Some r1)]
      @ [Received 1 frame2 (Some r2)]) (put_st 1 st2 ?m2)"
    unfolding append_assoc [symmetric]
    by (intro steps_snoc [OF steps_snoc [OF steps_snoc [OF steps_nil s1] s2] s3])
  moreover have "map fst (sys_conns (mc_system (put_st 1 st2 ?m2))) = [1]"
    by (simp add: acc(2) tbl_insert_def)
  ultimately show ?thesis
    using two(2-5) acc(3)
    by (intro exI [of _ "put_st 1 st2 ?m2"] exI [of _ "Some r1"] exI [of _ "Some r2"]
        exI [of _ "st_conn st2"] exI [of _ acc2]) simp
qed

lemma logon_run:
  "\<exists>m r1 r2 r3 c s. machine_reaches logon_server
     [Accepted 1, Received 1 frame1 r1, Received 1 frame2 r2, Received 1 frame3 r3] m \<and>
     tbl_get (sys_conns (mc_system m)) 1 = Some c \<and> tbl_get (conn_sessions c) 1 = Some s"
proof -
  obtain m r1 r2 c acc where run: "machine_steps (machine_start logon_server sample_fs)
      [Accepted 1, Received 1 frame1 r1, Received 1 frame2 r2] m"
      and srv: "sys_server (mc_system m) = logon_server"
      and c: "tbl_get (sys_conns (mc_system m)) 1 = Some c" "conn_dialect c = Some Smb311"
        "tbl_get (conn_pending_auths c) 1 = Some (acc, True)" "nt_server_challenge acc = replicate 8 0"
        "\<forall>k. tbl_get (conn_sessions c) k = None"
    using logon_pending by blast
  obtain r3 st3 s where three: "dispatch_one logon_server frame3 0 (machine_st m c)
      = Some (Some r3, st3)" "tbl_get (conn_sessions (st_conn st3)) 1 = Some s"
    using logon_round3 [of "machine_st m c" acc] c by auto
  have "machine_step m (Received 1 frame3 (Some r3)) (put_st 1 st3 m)"
    using three(1) srv c(1)
    by (intro serve_single [OF _ frame_parse1])
      (simp_all, simp add: logon_server_def setup_server_def mem_server_def)
  from steps_snoc [OF run this] three(2) show ?thesis by (fastforce simp: machine_reaches_def)
qed

theorem access_follows_configuration_witness:
  "\<exists>es m c s. machine_reaches logon_server es m \<and> tbl_get (sys_conns (mc_system m)) 1 = Some c \<and>
     tbl_get (conn_sessions c) 1 = Some s \<and>
     (\<forall>u d. sess_identity s = User u d \<longrightarrow> lookup_user (sys_server (mc_system m)) u \<noteq> None)"
proof -
  obtain m es c s where run: "machine_reaches logon_server es m"
      "tbl_get (sys_conns (mc_system m)) 1 = Some c" "tbl_get (conn_sessions c) 1 = Some s"
    using logon_run by blast
  from access_follows_configuration [OF logon_server_config run] run show ?thesis by blast
qed

end
