(* ===== verification/Connection.thy ===== *)
theory Connection
  imports Framing System
begin

text \<open>
  The tasks of a connection and the accept loop: \<open>src/src/conn/mod.rs\<close>,
  \<open>src/src/conn/reader.rs\<close>, \<open>src/src/conn/writer.rs\<close> and \<open>serve\<close> of \<open>src/src/server.rs\<close>. What
  the peer sends is a byte string. What the rest of the server does between two frames of the
  connection (other connections, \<open>ConfigHandle\<close>, a shutdown) is a parameter, and so are how the
  byte string ends (the peer closes, or the socket fails), whether the writer can still take a
  payload, and which write to the socket fails after how many bytes.
\<close>

section \<open>The reader\<close>

record 'w surroundings =
  sur_between :: "nat \<Rightarrow> 'w machine \<Rightarrow> 'w machine"
  sur_send_ok :: "nat \<Rightarrow> bool"
  sur_end :: stream_end

datatype reader_exit = ReaderOk | ReaderInvalid proto_error | ReaderTruncated | ReaderIoError

text \<open>
  A loop over the byte stream: read a frame, look at the shutdown flag, dispatch, send. The
  payloads handed to the writer are collected; \<open>None\<close> is a panic of the dispatcher.
\<close>

definition then_send ::
    "bytes option \<Rightarrow> (bytes list \<times> 'a) option \<Rightarrow> (bytes list \<times> 'a) option" where
  "then_send r rest =
     map_option (\<lambda>(sent, x). ((case r of None \<Rightarrow> [] | Some b \<Rightarrow> [b]) @ sent, x)) rest"

function reader_task ::
    "'w surroundings \<Rightarrow> u64 \<Rightarrow> nat \<Rightarrow> bytes \<Rightarrow> 'w machine \<Rightarrow>
     (bytes list \<times> reader_exit \<times> 'w machine) option" where
  "reader_task sur i n input m =
     (case read_one_frame (sur_end sur) input of
        (FrameEof, _) \<Rightarrow> Some ([], ReaderOk, m)
      | (FrameInvalid e, _) \<Rightarrow> Some ([], ReaderInvalid e, m)
      | (FrameTruncated, _) \<Rightarrow> Some ([], ReaderTruncated, m)
      | (FrameIoError, _) \<Rightarrow> Some ([], ReaderIoError, m)
      | (Frame frame, rest) \<Rightarrow>
          let m1 = sur_between sur n m in
          if srv_shutting_down (sys_server (mc_system m1)) then Some ([], ReaderOk, m1)
          else (case serve_frame i frame m1 of
              None \<Rightarrow> None
            | Some (response, m2) \<Rightarrow>
                if response \<noteq> None \<and> \<not> sur_send_ok sur n then Some ([], ReaderOk, m2)
                else then_send response (reader_task sur i (n + 1) rest m2)))"
  by pat_completeness auto
termination
  by (relation "measure (\<lambda>(_, _, _, s, _). length s)")
    (auto dest: read_one_frame_shorter [OF sym])

declare reader_task.simps [simp del]

section \<open>The writer\<close>

text \<open>
  Every payload in a frame of its own. \<open>fails n\<close> says what \<open>write_all\<close> does with the n-th frame: it
  sends all of it, or it fails after some of its bytes were sent; then the task ends.
\<close>

fun writer_task :: "(nat \<Rightarrow> nat option) \<Rightarrow> nat \<Rightarrow> bytes list \<Rightarrow> bytes" where
  "writer_task fails n [] = []"
| "writer_task fails n (payload # queue) =
     (let out = encode_frame payload [] in
      case fails n of
        None \<Rightarrow> out @ writer_task fails (n + 1) queue
      | Some sent \<Rightarrow> take sent out)"

lemma writer_prefix: "\<exists>unsent. write_frames ps = writer_task fails n ps @ unsent"
proof (induction ps arbitrary: n)
  case (Cons p ps)
  show ?case
  proof (cases "fails n")
    case None
    with Cons show ?thesis by (simp add: Let_def)
  next
    case (Some k)
    then show ?thesis
      by (intro exI [of _ "drop k (encode_frame p []) @ write_frames ps"])
        (simp add: Let_def append_assoc [symmetric] del: append_assoc)
  qed
qed simp

lemma writer_all: "(\<And>k. fails k = None) \<Longrightarrow> writer_task fails n ps = write_frames ps"
  by (induction ps arbitrary: n) (simp_all add: Let_def)

section \<open>A connection, from accept to close\<close>

definition connection_loop ::
    "'w surroundings \<Rightarrow> (nat \<Rightarrow> nat option) \<Rightarrow> bytes \<Rightarrow> 'w machine \<Rightarrow>
     (bytes \<times> reader_exit \<times> 'w machine) option" where
  "connection_loop sur fails input m =
     (let (i, sys) = accept_connection (mc_system m) in
      map_option (\<lambda>(sent, x, m1).
          (writer_task fails 0 sent, x, on_system (unregister_connection i) m1))
        (reader_task sur i 0 input (on_system (\<lambda>_. sys) m)))"

section \<open>The abstract server\<close>

text \<open>
  What a connection is for: it takes whole requests, one after the other, and answers each before
  it looks at the next. No bytes, no frames, no tasks.
\<close>

fun serve_requests ::
    "'w surroundings \<Rightarrow> u64 \<Rightarrow> nat \<Rightarrow> bytes list \<Rightarrow> 'w machine \<Rightarrow>
     (bytes list \<times> bool \<times> 'w machine) option" where
  "serve_requests sur i n [] m = Some ([], True, m)"
| "serve_requests sur i n (frame # frames) m =
     (let m1 = sur_between sur n m in
      if srv_shutting_down (sys_server (mc_system m1)) then Some ([], False, m1)
      else case serve_frame i frame m1 of
          None \<Rightarrow> None
        | Some (response, m2) \<Rightarrow>
            if response \<noteq> None \<and> \<not> sur_send_ok sur n then Some ([], False, m2)
            else then_send response (serve_requests sur i (n + 1) frames m2))"

definition exit_of :: "bool \<Rightarrow> frame_read \<Rightarrow> reader_exit" where
  "exit_of served stop =
     (if served then (case stop of FrameInvalid e \<Rightarrow> ReaderInvalid e | FrameTruncated \<Rightarrow> ReaderTruncated
        | FrameIoError \<Rightarrow> ReaderIoError | _ \<Rightarrow> ReaderOk)
      else ReaderOk)"

lemma then_send_maps:
  "then_send r (map_option (\<lambda>(a, b, x). (a, f b, x)) rest)
    = map_option (\<lambda>(a, b, x). (a, f b, x)) (then_send r rest)"
  by (cases rest) (auto simp: then_send_def)

lemma reader_refines:
  "reader_task sur i n input m = map_option (\<lambda>(sent, served, m').
      (sent, exit_of served (snd (read_frames (sur_end sur) input)), m'))
    (serve_requests sur i n (fst (read_frames (sur_end sur) input)) m)"
proof (induction sur i n input m rule: reader_task.induct)
  case (1 sur i n input m)
  obtain r rest where one: "read_one_frame (sur_end sur) input = (r, rest)" by fastforce
  show ?case
  proof (cases r)
    case (Frame frame)
    let ?m1 = "sur_between sur n m"
    have split: "read_frames (sur_end sur) input = (frame # fst (read_frames (sur_end sur) rest), snd (read_frames (sur_end sur) rest))"
      using one Frame by (subst read_frames.simps) (simp add: case_prod_unfold Let_def)
    have rec: "reader_task sur i (n + 1) rest m2 = map_option (\<lambda>(sent, served, m').
        (sent, exit_of served (snd (read_frames (sur_end sur) rest)), m'))
        (serve_requests sur i (n + 1) (fst (read_frames (sur_end sur) rest)) m2)"
      if "\<not> srv_shutting_down (sys_server (mc_system ?m1))"
        and "serve_frame i frame ?m1 = Some (response, m2)"
        and "\<not> (response \<noteq> None \<and> \<not> sur_send_ok sur n)" for response m2
      using 1 [OF one [symmetric] Frame refl that(1,2) refl that(3)] .
    show ?thesis
    proof (cases "serve_frame i frame ?m1")
      case None
      with one Frame split show ?thesis
        by (subst reader_task.simps) (simp add: exit_of_def Let_def)
    next
      case (Some res)
      obtain response m2 where "res = (response, m2)" by fastforce
      with Some one Frame split rec [of response m2] show ?thesis
        by (subst reader_task.simps) (auto simp: exit_of_def Let_def then_send_maps)
    qed
  qed (use one in \<open>simp_all add: reader_task.simps [of sur i n input]
      read_frames.simps [of _ input] exit_of_def\<close>)
qed

text \<open>
  C16: a connection implements the abstract server. Whatever bytes the peer sends and however the
  stream ends, whatever the rest of the server does meanwhile and whether or not writes fail: the
  stream is, in exactly one way, a number of frames (a zero byte, the length of the payload in
  three bytes, that many bytes) and a rest that does not start with a frame; the connection treats
  the payloads of those frames, in order, as the abstract server treats whole requests, and never
  the rest; what goes out is the answers, each in a frame of its own, or a prefix of those bytes if
  a write fails; the reader's result is decided by the rest and by how the stream ended; at the
  end the connection is taken out of the table.
\<close>

theorem connection_refines_requests:
  assumes "accept_connection (mc_system m) = (i, sys)"
  shows "\<exists>frames rest. splits_into input frames rest \<and>
    (case serve_requests sur i 0 frames (on_system (\<lambda>_. sys) m) of
      None \<Rightarrow> connection_loop sur fails input m = None
    | Some (replies, served, m') \<Rightarrow>
        \<exists>out unsent. connection_loop sur fails input m
            = Some (out, exit_of served (stop_of (sur_end sur) rest), on_system (unregister_connection i) m') \<and>
          write_frames replies = out @ unsent \<and> ((\<forall>n. fails n = None) \<longrightarrow> unsent = []))"
proof -
  obtain rest where split: "splits_into input (fst (read_frames (sur_end sur) input)) rest"
      "snd (read_frames (sur_end sur) input) = stop_of (sur_end sur) rest"
    using read_frames_splits by blast
  let ?frames = "fst (read_frames (sur_end sur) input)"
  have "case serve_requests sur i 0 ?frames (on_system (\<lambda>_. sys) m) of
      None \<Rightarrow> connection_loop sur fails input m = None
    | Some (replies, served, m') \<Rightarrow>
        \<exists>out unsent. connection_loop sur fails input m
            = Some (out, exit_of served (stop_of (sur_end sur) rest), on_system (unregister_connection i) m') \<and>
          write_frames replies = out @ unsent \<and> ((\<forall>n. fails n = None) \<longrightarrow> unsent = [])"
  proof (cases "serve_requests sur i 0 ?frames (on_system (\<lambda>_. sys) m)")
    case None
    then show ?thesis by (simp add: connection_loop_def assms reader_refines)
  next
    case (Some res)
    obtain replies served m' where res: "res = (replies, served, m')" by (cases res)
    obtain unsent where "write_frames replies = writer_task fails 0 replies @ unsent"
      using writer_prefix by blast
    moreover have "(\<forall>n. fails n = None) \<longrightarrow> unsent = []"
      using calculation by (auto simp: writer_all)
    ultimately show ?thesis
      using Some res split(2)
      by (auto simp: connection_loop_def assms reader_refines)
  qed
  with split(1) show ?thesis by blast
qed

section \<open>Every request is answered\<close>

text \<open>
  Surroundings that let the connection work: between two frames the rest of the server keeps the
  connection registered, does not shut down, and does not replace the crypto library; the writer
  takes every payload; the peer closes its side when it has sent what it wants to send.
\<close>

definition quiet :: "u64 \<Rightarrow> crypto_lib \<Rightarrow> 'w machine \<Rightarrow> bool" where
  "quiet i crypto m \<longleftrightarrow> tbl_get (sys_conns (mc_system m)) i \<noteq> None \<and>
     srv_crypto (sys_server (mc_system m)) = crypto \<and>
     \<not> srv_shutting_down (sys_server (mc_system m))"

definition undisturbed :: "'w surroundings \<Rightarrow> u64 \<Rightarrow> crypto_lib \<Rightarrow> bool" where
  "undisturbed sur i crypto \<longleftrightarrow>
     (\<forall>n m. quiet i crypto m \<longrightarrow> quiet i crypto (sur_between sur n m)) \<and> (\<forall>n. sur_send_ok sur n) \<and>
     sur_end sur = PeerClosed"

text \<open>
  A frame that holds one request which wants an answer (every command but CANCEL), and an answer
  that belongs to it.
\<close>

definition plain_request :: "bytes \<Rightarrow> bool" where
  "plain_request frame \<longleftrightarrow> (\<exists>hdr body. smb2_header_parse frame = Inr (hdr, body) \<and>
     next_command hdr = 0 \<and> flags hdr AND SMB2_FLAGS_RELATED_OPERATIONS = 0 \<and>
     hdr_command hdr \<noteq> Cancel)"

definition answered_by :: "bytes \<Rightarrow> bytes \<Rightarrow> bool" where
  "answered_by frame reply \<longleftrightarrow> (\<exists>hdr body h rest. smb2_header_parse frame = Inr (hdr, body) \<and>
     smb2_header_parse reply = Inr (h, rest) \<and> message_id h = message_id hdr \<and>
     hdr_command h = hdr_command hdr)"

lemma plain_request_answered:
  assumes "quiet i crypto m" and ok: "crypto_ok crypto" and plain: "plain_request frame"
  shows "\<exists>reply m'. serve_frame i frame m = Some (Some reply, m') \<and> answered_by frame reply \<and>
    quiet i crypto m'"
proof -
  let ?srv = "sys_server (mc_system m)"
  obtain c where c: "tbl_get (sys_conns (mc_system m)) i = Some c"
    using assms(1) by (auto simp: quiet_def)
  have ok: "crypto_ok (srv_crypto ?srv)" using assms(1) ok by (simp add: quiet_def)
  obtain hdr body where frame: "smb2_header_parse frame = Inr (hdr, body)" "next_command hdr = 0"
      "flags hdr AND SMB2_FLAGS_RELATED_OPERATIONS = 0" "hdr_command hdr \<noteq> Cancel"
    using plain by (auto simp: plain_request_def)
  obtain reply st where one: "dispatch_one ?srv frame 0 (machine_st m c) = Some (Some reply, st)"
    using dispatch_one_answers [OF ok frame(1,4)] by metis
  obtain c' resp where "reply = build_response_bytes ?srv c' hdr resp"
    using dispatch_one_answer [OF ok frame(1) one] by metis
  then obtain sig where "smb2_header_parse reply = Inr (reply_header c' hdr resp sig, hr_body resp)"
    using build_response_parse [OF ok] by metis
  then have "answered_by frame reply" using frame(1) by (auto simp: answered_by_def)
  moreover have "serve_frame i frame m = Some (Some reply, put_st i st m)"
    using one by (simp add: serve_frame_def c dispatch_single_frame [OF ok frame(1-3)])
  moreover have "quiet i crypto (put_st i st m)" using assms(1) by (simp add: quiet_def)
  ultimately show ?thesis by blast
qed

lemma requests_served:
  assumes und: "undisturbed sur i crypto" and ok: "crypto_ok crypto"
  shows "quiet i crypto m \<Longrightarrow> \<forall>f \<in> set frames. plain_request f \<Longrightarrow>
    \<exists>replies m'. serve_requests sur i n frames m = Some (replies, True, m') \<and>
      list_all2 answered_by frames replies"
proof (induction frames arbitrary: n m)
  case (Cons frame frames)
  have m1: "quiet i crypto (sur_between sur n m)" and send: "sur_send_ok sur n"
    using und Cons.prems(1) by (simp_all add: undisturbed_def)
  obtain reply m2 where reply: "serve_frame i frame (sur_between sur n m) = Some (Some reply, m2)"
      "answered_by frame reply" "quiet i crypto m2"
    using plain_request_answered [OF m1 ok, of frame] Cons.prems(2) list.set_intros(1) by metis
  obtain replies m' where "serve_requests sur i (n + 1) frames m2 = Some (replies, True, m')"
      "list_all2 answered_by frames replies"
    using Cons.IH [OF reply(3), of "n + 1"] Cons.prems(2) by auto
  with reply m1 send show ?case
    by (simp add: quiet_def then_send_def Let_def)
qed simp

text \<open>
  C7: every request is answered, in order. On a server that is not shutting down and leaves the
  connection alone, a client that sends any number of requests other than CANCEL (which is never
  answered), each in a frame of its own, gets exactly one reply for each request: the reader and
  the writer end, and the k-th reply carries the command and the message identifier of the k-th
  request. When every reply fits a frame (at most $2^{24} - 1$ bytes), the client finds exactly
  these replies, one in each frame. A longer one, which a read or transaction limit of that size
  allows, does not survive the three length bytes.
\<close>

theorem requests_answered_in_order:
  assumes "accept_connection (mc_system m) = (i, sys)"
    and "crypto_ok (srv_crypto (sys_server (mc_system m)))"
    and "\<not> srv_shutting_down (sys_server (mc_system m))"
    and "undisturbed sur i (srv_crypto (sys_server (mc_system m)))" and "\<And>n. fails n = None"
    and "\<forall>f \<in> set frames. plain_request f \<and> length f \<le> unat MAX_FRAME_PAYLOAD"
  shows "\<exists>replies m'. connection_loop sur fails (write_frames frames) m
      = Some (write_frames replies, ReaderOk, m') \<and> list_all2 answered_by frames replies \<and>
      ((\<forall>r \<in> set replies. length r \<le> unat MAX_FRAME_PAYLOAD) \<longrightarrow>
        splits_into (write_frames replies) replies [])"
proof -
  let ?m1 = "on_system (\<lambda>_. sys) m"
  have "quiet i (srv_crypto (sys_server (mc_system m))) ?m1"
    using assms(1,3) by (auto simp: quiet_def accept_connection_def Let_def)
  from requests_served [OF assms(4,2) this] assms(6) obtain replies m' where
      "serve_requests sur i 0 frames ?m1 = Some (replies, True, m')" "list_all2 answered_by frames replies"
    by blast
  moreover have "sur_end sur = PeerClosed" using assms(4) by (simp add: undisturbed_def)
  moreover have "read_frames PeerClosed (write_frames frames) = (frames, FrameEof)"
    using read_frames_write [of frames PeerClosed "[]"] assms(6) by simp
  ultimately show ?thesis
    using assms(5)
    by (intro exI [of _ replies])
      (simp add: write_frames_split connection_loop_def assms(1) reader_refines writer_all exit_of_def)
qed

section \<open>Concrete connections\<close>

definition quiet_surroundings :: "'w surroundings" where
  "quiet_surroundings = \<lparr>sur_between = (\<lambda>_ m. m), sur_send_ok = (\<lambda>_. True),
     sur_end = PeerClosed\<rparr>"

definition up_machine :: "mem_fs machine" where
  "up_machine = machine_start mem_server sample_fs"

lemma up_machine_simps [simp]:
  "sys_server (mc_system up_machine) = mem_server" "\<not> srv_shutting_down mem_server"
  "sys_next_conn (mc_system up_machine) = 1"
  by (simp_all add: up_machine_def machine_start_def mem_server_def)

lemma echo_frames_plain:
  "\<forall>f \<in> set [echo_frame, echo_frame]. plain_request f \<and> length f \<le> unat MAX_FRAME_PAYLOAD"
proof -
  have "plain_request echo_frame"
    unfolding plain_request_def using sample_frame_parse [OF wf_hdr1(1)]
    by (intro exI [of _ "hdr1 Echo"] exI) (simp add: hdr1_def default_header_def)
  moreover have "length echo_frame \<le> unat MAX_FRAME_PAYLOAD"
    by (simp add: sample_frame_def length_header_write SMB2_HEADER_LEN_def MAX_FRAME_PAYLOAD_def)
  ultimately show ?thesis by simp
qed

theorem requests_answered_in_order_witness:
  "\<exists>replies m'. connection_loop quiet_surroundings (\<lambda>_. None) (write_frames [echo_frame, echo_frame])
      up_machine = Some (write_frames replies, ReaderOk, m') \<and> length replies = 2"
proof -
  obtain sys where acc: "accept_connection (mc_system up_machine) = (1, sys)"
    by (simp add: accept_connection_def Let_def)
  have "undisturbed quiet_surroundings 1 (srv_crypto (sys_server (mc_system up_machine)))"
    by (simp add: undisturbed_def quiet_surroundings_def)
  from requests_answered_in_order [OF acc _ _ this, of "\<lambda>_. None", OF _ _ _ echo_frames_plain]
  obtain replies m' where "connection_loop quiet_surroundings (\<lambda>_. None)
      (write_frames [echo_frame, echo_frame]) up_machine = Some (write_frames replies, ReaderOk, m')"
      "list_all2 answered_by [echo_frame, echo_frame] replies"
    by auto
  moreover from this(2) have "length replies = 2" by (auto dest: list_all2_lengthD)
  ultimately show ?thesis by blast
qed

theorem connection_refines_requests_witness:
  "\<exists>m'. connection_loop quiet_surroundings (\<lambda>_. None) [1, 0, 0, 0] up_machine
    = Some ([], ReaderInvalid
        (Malformed ''NetBIOS session-message type byte must be 0x00 for Direct-TCP''), m')"
proof -
  obtain sys where acc: "accept_connection (mc_system up_machine) = (1, sys)"
    by (simp add: accept_connection_def Let_def)
  have "splits_into [1, 0, 0, 0] [] [1, 0, 0, 0]"
    by (auto simp: splits_into_Nil is_frame_def)
  with connection_refines_requests [OF acc, where sur = quiet_surroundings
      and input = "[1, 0, 0, 0]" and fails = "\<lambda>_. None"]
  show ?thesis by (auto simp: exit_of_def stop_of_def dest: splits_into_unique)
qed

end
