(* ===== verification/Serve.thy ===== *)
theory Serve
  imports Connection
begin

text \<open>
  Binding the listener, the accept loop of \<open>SmbServer::serve\<close> and the two ways to request a shutdown
  (\<open>src/src/server.rs\<close>). The state is the listener, where the loop is, the \<open>shutting_down\<close> flag and
  the sockets for which a connection task was spawned. \<open>Notify::notify_waiters\<close> wakes a loop that
  waits and is forgotten otherwise.
\<close>

text \<open>\<open>ServeFailed\<close> is a \<open>serve\<close> that returned the error of \<open>bind\<close>.\<close>

datatype serve_phase = NotServing | Waiting | Stopped | ServeFailed

text \<open>A bound listener is known by its address.\<close>

record serve_state =
  sv_bound :: "socket_addr option"
  sv_local_addr :: "socket_addr option"
  sv_phase :: serve_phase
  sv_shutting_down :: bool
  sv_spawned :: "socket_addr list"

definition serve_init :: serve_state where
  "serve_init = \<lparr>sv_bound = None, sv_local_addr = None, sv_phase = NotServing,
     sv_shutting_down = False, sv_spawned = []\<rparr>"

text \<open>
  What happens to the server: its methods are called, a client connects, \<open>accept\<close> fails. With a
  call that may bind comes the answer of the host: the address of the new listener, or nothing when
  binding it or asking for its address fails.
\<close>

datatype serve_event =
    BindCalled "socket_addr option"
  | ServeCalled "socket_addr option"
  | ShutdownCalled
  | SocketArrived socket_addr
  | AcceptFailed

definition serve_bind :: "socket_addr option \<Rightarrow> serve_state \<Rightarrow> socket_addr option \<times> serve_state" where
  "serve_bind answer s =
     (case sv_bound s of
        Some a \<Rightarrow> (Some a, s)
      | None \<Rightarrow>
          (case answer of
             None \<Rightarrow> (None, s)
           | Some a \<Rightarrow> (Some a, s\<lparr>sv_bound := Some a, sv_local_addr := Some a\<rparr>)))"

text \<open>\<open>serve\<close> up to the loop; it takes the listener.\<close>

definition serve_enter :: "socket_addr option \<Rightarrow> serve_state \<Rightarrow> serve_state" where
  "serve_enter answer s =
     (let (bound, s1) = (if sv_bound s = None then serve_bind answer s else (sv_bound s, s)) in
      if bound = None then s1\<lparr>sv_phase := ServeFailed\<rparr>
      else s1\<lparr>sv_bound := None, sv_phase := Waiting\<rparr>)"

text \<open>\<open>shutdown\<close> of the server and of a \<open>ShutdownHandle\<close>: first the flag, then the wake-up.\<close>

definition serve_shutdown :: "serve_state \<Rightarrow> serve_state" where
  "serve_shutdown s =
     s\<lparr>sv_shutting_down := True,
       sv_phase := (case sv_phase s of Waiting \<Rightarrow> Stopped | p \<Rightarrow> p)\<rparr>"

text \<open>One round of the loop: the arm of \<open>select!\<close> for \<open>listener.accept()\<close>.\<close>

definition serve_accept :: "socket_addr option \<Rightarrow> serve_state \<Rightarrow> serve_state" where
  "serve_accept peer s =
     (if sv_phase s \<noteq> Waiting then s
      else if sv_shutting_down s then s\<lparr>sv_phase := Stopped\<rparr>
      else case peer of
          Some p \<Rightarrow> s\<lparr>sv_spawned := sv_spawned s @ [p]\<rparr>
        | None \<Rightarrow> s)"

text \<open>\<open>serve\<close> consumes the server: it is called once, and nobody calls \<open>bind\<close> after it.\<close>

fun serve_step :: "serve_event \<Rightarrow> serve_state \<Rightarrow> serve_state" where
  "serve_step (BindCalled answer) s =
     (if sv_phase s = NotServing then snd (serve_bind answer s) else s)"
| "serve_step (ServeCalled answer) s =
     (if sv_phase s = NotServing then serve_enter answer s else s)"
| "serve_step ShutdownCalled s = serve_shutdown s"
| "serve_step (SocketArrived p) s = serve_accept (Some p) s"
| "serve_step AcceptFailed s = serve_accept None s"

definition serve_run :: "serve_event list \<Rightarrow> serve_state \<Rightarrow> serve_state" where
  "serve_run es s = foldl (\<lambda>s e. serve_step e s) s es"

lemma serve_run_simps [simp]:
  "serve_run [] s = s" "serve_run (e # es) s = serve_run es (serve_step e s)"
  "serve_run (es @ es') s = serve_run es' (serve_run es s)"
  by (simp_all add: serve_run_def)

section \<open>Binding\<close>

text \<open>
  Binding is done once: the address that \<open>bind\<close> returned is the one that \<open>local_addr\<close> reports and
  that every later \<open>bind\<close> returns, whatever the host would answer.
\<close>

lemma bind_once:
  assumes "serve_bind answer s = (Some a, s1)" and "sv_bound s = None"
  shows "sv_local_addr s1 = Some a \<and> serve_bind answer' s1 = (Some a, s1)"
  using assms by (auto simp: serve_bind_def split: option.splits)

lemma serve_bind_keeps [simp]:
  "sv_phase (snd (serve_bind r s)) = sv_phase s"
  "sv_shutting_down (snd (serve_bind r s)) = sv_shutting_down s"
  "sv_spawned (snd (serve_bind r s)) = sv_spawned s"
  by (simp_all add: serve_bind_def split: option.split)

lemma serve_enter_keeps [simp]:
  "sv_shutting_down (serve_enter r s) = sv_shutting_down s"
  "sv_spawned (serve_enter r s) = sv_spawned s"
  "sv_phase (serve_enter r s) \<in> {Waiting, ServeFailed}"
  by (auto simp: serve_enter_def serve_bind_def split: option.split)

section \<open>Shutting down\<close>

definition ended :: "serve_state \<Rightarrow> bool" where
  "ended s \<longleftrightarrow> sv_phase s = Stopped \<or> sv_phase s = ServeFailed"

text \<open>What an accept loop hears: a client, a failed \<open>accept\<close> or a request to shut down.\<close>

fun heard :: "serve_event \<Rightarrow> bool" where
  "heard (BindCalled _) = False"
| "heard (ServeCalled _) = False"
| "heard _ = True"

lemma serve_step_ended: "ended s \<Longrightarrow> ended (serve_step e s)"
  by (cases e) (auto simp: ended_def serve_shutdown_def serve_accept_def)

lemma serve_run_ended: "ended s \<Longrightarrow> ended (serve_run es s)"
  by (induction es arbitrary: s) (simp_all add: serve_step_ended)

text \<open>Once the flag is set no task is spawned, and what the loop hears next is the last thing.\<close>

lemma serve_step_flagged:
  assumes "sv_shutting_down s"
  shows "sv_shutting_down (serve_step e s)" "sv_spawned (serve_step e s) = sv_spawned s"
    "sv_phase s = Waiting \<Longrightarrow> heard e \<Longrightarrow> ended (serve_step e s)"
    "sv_phase s = Waiting \<Longrightarrow> \<not> heard e \<Longrightarrow> sv_phase (serve_step e s) = Waiting"
    "sv_phase s = NotServing \<Longrightarrow> (\<forall>r. e \<noteq> ServeCalled r) \<Longrightarrow> sv_phase (serve_step e s) = NotServing"
  using assms
  by (cases e; auto simp: ended_def serve_shutdown_def serve_accept_def split: serve_phase.splits)+

lemma serve_run_spawned:
  "sv_shutting_down s \<Longrightarrow> sv_spawned (serve_run es s) = sv_spawned s"
  by (induction es arbitrary: s) (simp_all add: serve_step_flagged)

lemma serve_run_waiting:
  "sv_shutting_down s \<Longrightarrow> sv_phase s = Waiting \<Longrightarrow> e \<in> set es \<Longrightarrow> heard e \<Longrightarrow> ended (serve_run es s)"
proof (induction es arbitrary: s)
  case (Cons x es)
  show ?case
  proof (cases "heard x")
    case True
    with Cons.prems(1,2) show ?thesis by (simp add: serve_run_ended serve_step_flagged(3))
  next
    case False
    with Cons.prems serve_step_flagged(1,4) [of s x] show ?thesis
      by (auto intro: Cons.IH)
  qed
qed simp

lemma serve_run_entered:
  "sv_shutting_down s \<Longrightarrow> sv_phase s = NotServing \<Longrightarrow> e \<in> set es \<Longrightarrow> heard e \<Longrightarrow>
    ended (serve_run es (serve_enter r s))"
  using serve_enter_keeps(3) [of r s] serve_run_waiting [of "serve_enter r s" e es]
    serve_run_ended [of "serve_enter r s" es]
  by (auto simp: ended_def)

lemma serve_run_not_serving:
  "sv_shutting_down s \<Longrightarrow> sv_phase s = NotServing \<Longrightarrow> e \<in> set after \<Longrightarrow> heard e \<Longrightarrow>
    ended (serve_run (before @ ServeCalled r # after) s)"
proof (induction before arbitrary: s)
  case Nil
  then show ?case by (simp add: serve_run_entered)
next
  case (Cons x before)
  show ?case
  proof (cases "\<exists>r'. x = ServeCalled r'")
    case True
    then obtain r' where "x = ServeCalled r'" by blast
    with Cons.prems serve_run_entered [of s e "before @ ServeCalled r # after" r'] show ?thesis by simp
  next
    case False
    with Cons.prems serve_step_flagged(1,5) [of s x] Cons.IH [of "serve_step x s"] show ?thesis by simp
  qed
qed

text \<open>
  C30: a shutdown request stops the server from taking connections. Whatever happens before and
  after it, no connection is started any more; a server whose accept loop was entered has stopped;
  and one whose loop is entered only later stops at the next thing it hears, whether a socket, a
  failed accept or another request.
\<close>

theorem shutdown_stops_accepting:
  "let s0 = serve_run before serve_init;
       s = serve_run (before @ ShutdownCalled # after) serve_init
   in sv_spawned s = sv_spawned s0 \<and> (sv_phase s0 \<noteq> NotServing \<longrightarrow> ended s) \<and>
     (\<forall>pre r mid e post. after = pre @ ServeCalled r # mid @ e # post \<longrightarrow> heard e \<longrightarrow> ended s)"
proof -
  let ?s0 = "serve_run before serve_init"
  let ?s1 = "serve_shutdown ?s0"
  have flag: "sv_shutting_down ?s1" "sv_spawned ?s1 = sv_spawned ?s0"
    by (simp_all add: serve_shutdown_def)
  have run: "serve_run (before @ ShutdownCalled # after) serve_init = serve_run after ?s1" by simp
  have was_serving: "ended (serve_run after ?s1)" if "sv_phase ?s0 \<noteq> NotServing"
    using that by (intro serve_run_ended) (cases "sv_phase ?s0"; simp add: serve_shutdown_def ended_def)
  moreover have "ended (serve_run after ?s1)"
    if "after = pre @ ServeCalled r # mid @ e # post" "heard e" for pre r mid e post
  proof (cases "sv_phase ?s0 = NotServing")
    case True
    then have "sv_phase ?s1 = NotServing" by (simp add: serve_shutdown_def)
    with serve_run_not_serving [OF flag(1), of e "mid @ e # post" pre r] that show ?thesis by simp
  qed (rule was_serving)
  moreover have "sv_spawned (serve_run after ?s1) = sv_spawned ?s0"
    using serve_run_spawned [OF flag(1)] flag(2) by simp
  ultimately show ?thesis unfolding Let_def run by (intro conjI allI impI)
qed

theorem shutdown_stops_accepting_witness:
  "ended (serve_run [ServeCalled (Some ([127, 0, 0, 1], 445)), SocketArrived ([10, 0, 0, 1], 5000),
     ShutdownCalled, SocketArrived ([10, 0, 0, 2], 5001)] serve_init)"
  using shutdown_stops_accepting [of
      "[ServeCalled (Some ([127, 0, 0, 1], 445)), SocketArrived ([10, 0, 0, 1], 5000)]"
      "[SocketArrived ([10, 0, 0, 2], 5001)]"]
  by (simp add: serve_init_def serve_enter_def serve_bind_def serve_accept_def Let_def)

text \<open>
  A request that comes before \<open>serve\<close> wakes nobody: the loop is entered and waits, although the
  flag is set, until the next client connects.
\<close>

lemma early_shutdown_is_missed:
  "sv_phase (serve_run [ShutdownCalled, ServeCalled (Some a)] serve_init) = Waiting"
  by (simp add: serve_init_def serve_shutdown_def serve_enter_def serve_bind_def)

end
