(* ===== verification/Local_Fs.thy ===== *)
theory Local_Fs
  imports Backend Wildcard
begin

text \<open>
  The backend over a directory of the host: \<open>src/src/fs/local.rs\<close>. The file system itself, as the
  crates \<open>cap-std\<close> and \<open>std\<close> expose it, is a parameter: a record of calls over a world \<open>'w\<close> for
  the root directory, and such records for the open files and directories it returns. A call that
  runs on the blocking pool has three outcomes: a value, an error kind, or a panic of its task.
\<close>

section \<open>The operating system\<close>

datatype io_error_kind =
    KNotFound | KPermissionDenied | KAlreadyExists | KDirectoryNotEmpty | KIsADirectory
  | KNotADirectory | KInvalidInput | KInvalidFilename | KOther

type_synonym ('w, 'a) os_call = "'w \<Rightarrow> (io_error_kind + 'a) option \<times> 'w"

text \<open>A path below the root, one entry for each component; the root itself is \<open>.\<close>.\<close>

type_synonym rel_path = "rstring list"

record metadata =
  md_len :: u64
  md_is_dir :: bool
  md_modified :: "system_time option"
  md_accessed :: "system_time option"
  md_created :: "system_time option"

record cap_options =
  co_read :: bool
  co_write :: bool
  co_create :: bool
  co_create_new :: bool
  co_truncate :: bool

record 'w os_file =
  of_read_at :: "nat \<Rightarrow> u64 \<Rightarrow> ('w, bytes) os_call"
  of_write_at :: "bytes \<Rightarrow> u64 \<Rightarrow> ('w, nat) os_call"
  of_sync_data :: "('w, unit) os_call"
  of_metadata :: "('w, metadata) os_call"
  of_set_times :: "system_time option \<Rightarrow> system_time option \<Rightarrow> ('w, unit) os_call"
  of_set_len :: "u64 \<Rightarrow> ('w, unit) os_call"

text \<open>An entry of a directory: its name, when it is UTF-8, and the call that stats it.\<close>

type_synonym 'w os_entry = "rstring option \<times> ('w, metadata) os_call"

record 'w os_dir =
  od_entries :: "('w, (io_error_kind + 'w os_entry) list) os_call"
  od_metadata :: "('w, metadata) os_call"

record 'w os_root =
  or_open_dir :: "rel_path \<Rightarrow> ('w, 'w os_dir) os_call"
  or_create_dir :: "rel_path \<Rightarrow> ('w, unit) os_call"
  or_create_dir_all :: "rel_path \<Rightarrow> ('w, unit) os_call"
  or_exists :: "rel_path \<Rightarrow> ('w, bool) os_call"
  or_metadata :: "rel_path \<Rightarrow> ('w, metadata) os_call"
  or_symlink_metadata :: "rel_path \<Rightarrow> ('w, metadata) os_call"
  or_open_with :: "rel_path \<Rightarrow> cap_options \<Rightarrow> ('w, 'w os_file) os_call"
  or_remove_dir :: "rel_path \<Rightarrow> ('w, unit) os_call"
  or_remove_file :: "rel_path \<Rightarrow> ('w, unit) os_call"
  or_rename :: "rel_path \<Rightarrow> rel_path \<Rightarrow> ('w, unit) os_call"
  or_case_sensitive :: bool

text \<open>The closures given to \<open>spawn_blocking\<close> are sequences of calls with the \<open>?\<close> operator.\<close>

definition os_return :: "io_error_kind + 'a \<Rightarrow> ('w, 'a) os_call" where
  "os_return r w = (Some r, w)"

definition os_then :: "('w, 'a) os_call \<Rightarrow> ('a \<Rightarrow> ('w, 'b) os_call) \<Rightarrow> ('w, 'b) os_call" where
  "os_then call f w =
     (case call w of
        (None, w1) \<Rightarrow> (None, w1)
      | (Some (Inl e), w1) \<Rightarrow> (Some (Inl e), w1)
      | (Some (Inr x), w1) \<Rightarrow> f x w1)"

text \<open>A call whose error is looked at instead of returned.\<close>

definition os_try :: "('w, 'a) os_call \<Rightarrow> (io_error_kind + 'a \<Rightarrow> ('w, 'b) os_call) \<Rightarrow> ('w, 'b) os_call" where
  "os_try call f w =
     (case call w of (None, w1) \<Rightarrow> (None, w1) | (Some r, w1) \<Rightarrow> f r w1)"

section \<open>Errors\<close>

definition io_to_smb :: "io_error_kind \<Rightarrow> smb_error" where
  "io_to_smb kind =
     (case kind of
        KNotFound \<Rightarrow> NotFound
      | KPermissionDenied \<Rightarrow> AccessDenied
      | KAlreadyExists \<Rightarrow> Exists
      | KDirectoryNotEmpty \<Rightarrow> NotEmpty
      | KIsADirectory \<Rightarrow> IsDirectory
      | KNotADirectory \<Rightarrow> NotADirectory
      | KInvalidInput \<Rightarrow> NameInvalid
      | KInvalidFilename \<Rightarrow> NameInvalid
      | KOther \<Rightarrow> Io)"

definition join_to_io :: io_error_kind where
  "join_to_io = KOther"

text \<open>\<open>spawn_blocking(..).await.map_err(join_to_io).map_err(io_to_smb)?.map_err(io_to_smb)\<close>.\<close>

definition blocking :: "('w, 'a) os_call \<Rightarrow> ('w, 'a) io" where
  "blocking call w =
     (case call w of
        (None, w1) \<Rightarrow> (Inl (io_to_smb join_to_io), w1)
      | (Some (Inl e), w1) \<Rightarrow> (Inl (io_to_smb e), w1)
      | (Some (Inr x), w1) \<Rightarrow> (Inr x, w1))"

definition io_then :: "('w, 'a) io \<Rightarrow> ('a \<Rightarrow> ('w, 'b) io) \<Rightarrow> ('w, 'b) io" where
  "io_then call f w = (case call w of (Inl e, w1) \<Rightarrow> (Inl e, w1) | (Inr x, w1) \<Rightarrow> f x w1)"

definition io_result :: "smb_error + 'a \<Rightarrow> ('w, 'a) io" where
  "io_result r w = (r, w)"

section \<open>Paths\<close>

definition to_rel_path :: "smb_path \<Rightarrow> rel_path" where
  "to_rel_path p = (if is_root p then [lit ''.''] else components p)"

definition STREAMS_DIR :: rstring where
  "STREAMS_DIR = lit ''.smb-streams''"

definition is_streams_control_path :: "smb_path \<Rightarrow> bool" where
  "is_streams_control_path p \<longleftrightarrow>
     list_ex (\<lambda>c. eq_ignore_ascii_case c STREAMS_DIR) (components p)"

definition stream_rel_path :: "rel_path \<Rightarrow> rstring \<Rightarrow> rel_path" where
  "stream_rel_path base_rel strm = [STREAMS_DIR] @ base_rel @ [strm]"

definition file_name_for :: "smb_path \<Rightarrow> rstring" where
  "file_name_for p = (case file_name p of Some n \<Rightarrow> n | None \<Rightarrow> [])"

section \<open>File times\<close>

definition local_time_to_filetime :: "system_time \<Rightarrow> u64" where
  "local_time_to_filetime t =
     (case since_epoch t of
        Some (secs, nanos) \<Rightarrow>
          FILETIME_OFFSET + (of_nat secs * 10000000) + of_nat (nanos div 100)
      | None \<Rightarrow> 0)"

text \<open>The sum is in the range of a system time, so \<open>checked_add\<close> gives it.\<close>

definition filetime_to_system_time :: "u64 \<Rightarrow> system_time option" where
  "filetime_to_system_time ft =
     (if ft < FILETIME_OFFSET then None
      else
        let unix_100ns = ft - FILETIME_OFFSET;
            secs = unix_100ns div 10000000;
            nanos = (ucast ((unix_100ns mod 10000000) * 100) :: u32)
        in Some (int (unat secs) * 1000000000 + int (unat nanos)))"

definition or_else :: "'a option \<Rightarrow> 'a option \<Rightarrow> 'a option" where
  "or_else x y = (case x of Some v \<Rightarrow> Some v | None \<Rightarrow> y)"

definition unwrap_or :: "'a option \<Rightarrow> 'a \<Rightarrow> 'a" where
  "unwrap_or x d = (case x of Some v \<Rightarrow> v | None \<Rightarrow> d)"

definition file_info_from_metadata :: "rstring \<Rightarrow> metadata \<Rightarrow> file_info" where
  "file_info_from_metadata name md =
     (let modified = unwrap_or (or_else (or_else (md_modified md) (md_created md)) (md_accessed md)) 0;
          accessed = unwrap_or (md_accessed md) modified;
          created = unwrap_or (md_created md) modified
      in \<lparr>fi_name = name, fi_end_of_file = md_len md, fi_allocation_size = md_len md,
          fi_creation_time = local_time_to_filetime created,
          fi_last_access_time = local_time_to_filetime accessed,
          fi_last_write_time = local_time_to_filetime modified,
          fi_change_time = local_time_to_filetime modified,
          fi_is_directory = md_is_dir md, fi_file_index = 0\<rparr>)"

section \<open>Handles\<close>

datatype 'w local_handle =
    LocalFile rstring "'w os_file" bool
  | LocalDir rstring "'w os_dir"

definition local_read :: "'w local_handle \<Rightarrow> u64 \<Rightarrow> u32 \<Rightarrow> ('w, bytes) io" where
  "local_read h off len =
     (case h of
        LocalFile _ file _ \<Rightarrow> blocking (of_read_at file (unat len) off)
      | LocalDir _ _ \<Rightarrow> io_result (Inl IsDirectory))"

text \<open>\<open>write_owned\<close>; the reported length saturates: \<open>u32::try_from(..).unwrap_or(u32::MAX)\<close>.\<close>

definition saturate_u32 :: "nat \<Rightarrow> u32" where
  "saturate_u32 n = (if n < 2 ^ 32 then of_nat n else - 1)"

definition local_write :: "'w local_handle \<Rightarrow> u64 \<Rightarrow> bytes \<Rightarrow> ('w, u32) io" where
  "local_write h off dat =
     (case h of
        LocalFile _ file read_only \<Rightarrow>
          if read_only then io_result (Inl AccessDenied)
          else io_then (blocking (of_write_at file dat off)) (\<lambda>written.
            io_result (Inr (saturate_u32 written)))
      | LocalDir _ _ \<Rightarrow> io_result (Inl IsDirectory))"

definition local_flush :: "'w local_handle \<Rightarrow> ('w, unit) io" where
  "local_flush h =
     (case h of
        LocalFile _ file _ \<Rightarrow> blocking (of_sync_data file)
      | LocalDir _ _ \<Rightarrow> io_result (Inr ()))"

definition local_stat :: "'w local_handle \<Rightarrow> ('w, file_info) io" where
  "local_stat h =
     (case h of
        LocalFile name file _ \<Rightarrow> blocking (os_then (of_metadata file) (\<lambda>md.
          os_return (Inr (file_info_from_metadata name md))))
      | LocalDir name dir \<Rightarrow> blocking (os_then (od_metadata dir) (\<lambda>md.
          os_return (Inr (file_info_from_metadata name md)))))"

definition local_set_times :: "'w local_handle \<Rightarrow> file_times \<Rightarrow> ('w, unit) io" where
  "local_set_times h tms =
     (case h of
        LocalFile _ file read_only \<Rightarrow>
          if read_only then io_result (Inl AccessDenied)
          else blocking (of_set_times file
            (Option.bind (ft_last_write_time tms) filetime_to_system_time)
            (Option.bind (ft_last_access_time tms) filetime_to_system_time))
      | LocalDir _ _ \<Rightarrow> io_result (Inl NotSupported))"

definition local_truncate :: "'w local_handle \<Rightarrow> u64 \<Rightarrow> ('w, unit) io" where
  "local_truncate h len =
     (case h of
        LocalFile _ file read_only \<Rightarrow>
          if read_only then io_result (Inl AccessDenied) else blocking (of_set_len file len)
      | LocalDir _ _ \<Rightarrow> io_result (Inl NotSupported))"

text \<open>The loop over the directory entries, which collects the results in order.\<close>

fun collect_entries ::
    "rstring option \<Rightarrow> (io_error_kind + 'w os_entry) list \<Rightarrow> dir_entry list \<Rightarrow>
     ('w, dir_entry list) os_call" where
  "collect_entries pat [] out = os_return (Inr out)"
| "collect_entries pat (Inl e # rest) out = os_return (Inl e)"
| "collect_entries pat (Inr (os_name, stat) # rest) out =
     (case os_name of
        None \<Rightarrow> collect_entries pat rest out
      | Some name \<Rightarrow>
          if eq_ignore_ascii_case name STREAMS_DIR then collect_entries pat rest out
          else if (case pat of Some p \<Rightarrow> dos_pattern_matches p name \<noteq> Some True | None \<Rightarrow> False)
          then collect_entries pat rest out
          else os_then stat (\<lambda>md.
            collect_entries pat rest (out @ [file_info_from_metadata name md])))"

definition local_list_dir :: "'w local_handle \<Rightarrow> rstring option \<Rightarrow> ('w, dir_entry list) io" where
  "local_list_dir h pattern =
     (case h of
        LocalFile _ _ _ \<Rightarrow> io_result (Inl NotADirectory)
      | LocalDir _ dir \<Rightarrow>
          blocking (os_then (od_entries dir) (\<lambda>entries. collect_entries pattern entries [])))"

definition local_close :: "'w local_handle \<Rightarrow> ('w, unit) io" where
  "local_close h = io_result (Inr ())"

definition local_handle_of :: "'w local_handle \<Rightarrow> 'w handle" where
  "local_handle_of h =
     \<lparr>h_read = local_read h, h_write = local_write h, h_flush = local_flush h,
      h_stat = local_stat h, h_set_times = local_set_times h, h_truncate = local_truncate h,
      h_list_dir = local_list_dir h, h_close = local_close h\<rparr>"

section \<open>The backend\<close>

record 'w local_fs =
  lf_root :: "'w os_root"
  lf_read_only :: bool

definition local_new :: "'w os_root \<Rightarrow> 'w local_fs" where
  "local_new root = \<lparr>lf_root = root, lf_read_only = False\<rparr>"

definition local_read_only :: "'w local_fs \<Rightarrow> 'w local_fs" where
  "local_read_only fs = fs\<lparr>lf_read_only := True\<rparr>"

definition cap_options_for :: "open_options \<Rightarrow> cap_options" where
  "cap_options_for opts =
     (case oo_intent opts of
        IntentOpen \<Rightarrow>
          \<lparr>co_read = True, co_write = oo_write opts, co_create = False, co_create_new = False,
           co_truncate = False\<rparr>
      | IntentCreate \<Rightarrow>
          \<lparr>co_read = oo_read opts, co_write = True, co_create = False, co_create_new = True,
           co_truncate = False\<rparr>
      | IntentTruncate \<Rightarrow>
          \<lparr>co_read = oo_read opts, co_write = True, co_create = False, co_create_new = False,
           co_truncate = True\<rparr>
      | IntentOpenOrCreate \<Rightarrow>
          \<lparr>co_read = oo_read opts, co_write = True, co_create = True, co_create_new = False,
           co_truncate = False\<rparr>
      | IntentOverwriteOrCreate \<Rightarrow>
          \<lparr>co_read = oo_read opts, co_write = True, co_create = True, co_create_new = False,
           co_truncate = True\<rparr>)"

definition local_open_stream ::
    "'w local_fs \<Rightarrow> rel_path \<Rightarrow> rstring \<Rightarrow> open_options \<Rightarrow> ('w, 'w handle) io" where
  "local_open_stream fs base_rel strm opts =
     (let root = lf_root fs in
      io_then (blocking (os_try (or_metadata root base_rel) (\<lambda>r. os_return (case r of
            Inr md \<Rightarrow> if md_is_dir md then Inl KIsADirectory else Inr True
          | Inl e \<Rightarrow> if e = KNotFound then Inr False else Inl e)))) (\<lambda>host_exists_and_is_file.
        if \<not> host_exists_and_is_file then io_result (Inl NotFound)
        else
          let stream_rel = stream_rel_path base_rel strm;
              creates = (oo_intent opts = IntentCreate \<or> oo_intent opts = IntentOpenOrCreate \<or>
                oo_intent opts = IntentOverwriteOrCreate)
          in io_then (blocking (os_then
              (if creates then or_create_dir_all root (butlast stream_rel) else os_return (Inr ()))
              (\<lambda>_. or_open_with root stream_rel (cap_options_for opts)))) (\<lambda>file.
            io_result (Inr (local_handle_of (LocalFile strm file (lf_read_only fs)))))))"

text \<open>Opening a directory on request, and opening what turns out to be one.\<close>

definition open_directory :: "'w os_root \<Rightarrow> rel_path \<Rightarrow> open_intent \<Rightarrow> ('w, 'w os_dir) os_call" where
  "open_directory root rel intent =
     (case intent of
        IntentOpen \<Rightarrow> or_open_dir root rel
      | IntentCreate \<Rightarrow> os_then (or_create_dir root rel) (\<lambda>_. or_open_dir root rel)
      | IntentOpenOrCreate \<Rightarrow> os_then (or_exists root rel) (\<lambda>there.
          os_then (if there then os_return (Inr ()) else or_create_dir root rel) (\<lambda>_.
            or_open_dir root rel))
      | _ \<Rightarrow> os_return (Inl KInvalidInput))"

definition wants_change :: "open_options \<Rightarrow> bool" where
  "wants_change opts \<longleftrightarrow> oo_write opts \<or> oo_intent opts \<noteq> IntentOpen"

definition local_open :: "'w local_fs \<Rightarrow> smb_path \<Rightarrow> open_options \<Rightarrow> ('w, 'w handle) io" where
  "local_open fs path opts =
     (if lf_read_only fs \<and> wants_change opts then io_result (Inl AccessDenied)
      else if is_streams_control_path path then io_result (Inl AccessDenied)
      else
        let root = lf_root fs; rel = to_rel_path path; name = file_name_for path in
        case stream path of
          Some strm \<Rightarrow>
            if oo_directory opts then io_result (Inl NameInvalid)
            else local_open_stream fs rel strm opts
        | None \<Rightarrow>
            if oo_directory opts then
              io_then (blocking (open_directory root rel (oo_intent opts))) (\<lambda>dir.
                io_result (Inr (local_handle_of (LocalDir name dir))))
            else
              io_then (blocking (os_try (or_metadata root rel) (\<lambda>r. os_return (case r of
                  Inr md \<Rightarrow> Inr (md_is_dir md)
                | Inl e \<Rightarrow> if e = KNotFound then Inr False else Inl e)))) (\<lambda>existing_is_dir.
                if existing_is_dir \<and> oo_non_directory opts then io_result (Inl IsDirectory)
                else if existing_is_dir then
                  (case oo_intent opts of
                     IntentCreate \<Rightarrow> io_result (Inl Exists)
                   | IntentTruncate \<Rightarrow> io_result (Inl IsDirectory)
                   | IntentOverwriteOrCreate \<Rightarrow> io_result (Inl IsDirectory)
                   | _ \<Rightarrow> io_then (blocking (or_open_dir root rel)) (\<lambda>dir.
                       io_result (Inr (local_handle_of (LocalDir name dir)))))
                else
                  io_then (blocking (or_open_with root rel (cap_options_for opts))) (\<lambda>file.
                    io_result (Inr (local_handle_of (LocalFile name file (lf_read_only fs)))))))"

definition local_unlink :: "'w local_fs \<Rightarrow> smb_path \<Rightarrow> ('w, unit) io" where
  "local_unlink fs path =
     (if lf_read_only fs then io_result (Inl AccessDenied)
      else if is_streams_control_path path then io_result (Inl AccessDenied)
      else if is_root path then io_result (Inl AccessDenied)
      else
        let root = lf_root fs; rel = to_rel_path path in
        blocking (os_then (or_symlink_metadata root rel) (\<lambda>md.
          if md_is_dir md then or_remove_dir root rel else or_remove_file root rel)))"

definition local_rename :: "'w local_fs \<Rightarrow> smb_path \<Rightarrow> smb_path \<Rightarrow> bool \<Rightarrow> ('w, unit) io" where
  "local_rename fs from_path to_path replace =
     (if lf_read_only fs then io_result (Inl AccessDenied)
      else if is_streams_control_path from_path \<or> is_streams_control_path to_path
      then io_result (Inl AccessDenied)
      else if is_root from_path \<or> is_root to_path then io_result (Inl NameInvalid)
      else
        let root = lf_root fs; src = to_rel_path from_path; dst = to_rel_path to_path in
        blocking (os_then
          (if replace then os_return (Inr ())
           else os_try (or_symlink_metadata root dst) (\<lambda>r. os_return (case r of
               Inr _ \<Rightarrow> Inl KAlreadyExists
             | Inl _ \<Rightarrow> Inr ())))
          (\<lambda>_. or_rename root src dst)))"

definition local_capabilities :: "'w local_fs \<Rightarrow> backend_capabilities" where
  "local_capabilities fs =
     \<lparr>bc_is_read_only = lf_read_only fs, bc_case_sensitive = or_case_sensitive (lf_root fs),
      bc_supports_named_streams = True\<rparr>"

definition local_backend :: "'w local_fs \<Rightarrow> 'w backend" where
  "local_backend fs =
     \<lparr>be_open = local_open fs, be_unlink = local_unlink fs, be_rename = local_rename fs,
      be_capabilities = local_capabilities fs\<rparr>"

end
