(* ===== verification/Local_Fs_Contract.thy ===== *)
theory Local_Fs_Contract
  imports Local_Fs
begin

text \<open>
  What the local backend guarantees: the paths it hands to the host are confined, a read-only
  share changes nothing, the backend meets the contract of \<open>Backend\<close> whenever the host file system
  keeps its documented promises, and file times survive the conversions.
\<close>

section \<open>Calls and their outcomes\<close>

definition keeps :: "('w \<Rightarrow> 'v) \<Rightarrow> ('w \<Rightarrow> 'a \<times> 'w) \<Rightarrow> bool" where
  "keeps view call \<longleftrightarrow> (\<forall>w. view (snd (call w)) = view w)"

lemma keepsD: "keeps view call \<Longrightarrow> view (snd (call w)) = view w"
  by (simp add: keeps_def)

lemma keeps_return [simp, intro]: "keeps view (os_return r)" "keeps view (io_result r')"
  by (simp_all add: keeps_def os_return_def io_result_def)

lemma keeps_then:
  assumes "keeps view call"
    and "\<And>x w w1. call w = (Some (Inr x), w1) \<Longrightarrow> view (snd (f x w1)) = view w1"
  shows "keeps view (os_then call f)"
  unfolding keeps_def
proof
  fix w
  obtain r w1 where run: "call w = (r, w1)" by fastforce
  then have "view w1 = view w" using keepsD [OF assms(1), of w] by simp
  then show "view (snd (os_then call f w)) = view w"
    using assms(2) [of w _ w1] run by (auto simp: os_then_def split: option.splits sum.splits)
qed

lemma keeps_then_all: "keeps view call \<Longrightarrow> (\<And>x. keeps view (f x)) \<Longrightarrow> keeps view (os_then call f)"
  by (rule keeps_then) (simp_all add: keepsD)

lemma keeps_try:
  assumes "keeps view call" and "\<And>r. keeps view (f r)"
  shows "keeps view (os_try call f)"
  unfolding keeps_def
proof
  fix w
  obtain r w1 where run: "call w = (r, w1)" by fastforce
  then have "view w1 = view w" using keepsD [OF assms(1), of w] by simp
  then show "view (snd (os_try call f w)) = view w"
    using keepsD [OF assms(2)] run by (auto simp: os_try_def split: option.splits)
qed

lemma blocking_world [simp]: "snd (blocking call w) = snd (call w)"
  by (auto simp: blocking_def split: prod.splits option.splits sum.splits)

lemma keeps_blocking: "keeps view call \<Longrightarrow> keeps view (blocking call)"
  by (simp add: keeps_def)

lemma blocking_Inr: "blocking call w = (Inr x, w') \<longleftrightarrow> call w = (Some (Inr x), w')"
  by (auto simp: blocking_def split: prod.splits option.splits sum.splits)

lemma keeps_io_then:
  assumes "keeps view call" and "\<And>x. keeps view (f x)"
  shows "keeps view (io_then call f)"
  unfolding keeps_def
proof
  fix w
  obtain r w1 where run: "call w = (r, w1)" by fastforce
  then have "view w1 = view w" using keepsD [OF assms(1), of w] by simp
  then show "view (snd (io_then call f w)) = view w"
    using keepsD [OF assms(2)] run by (auto simp: io_then_def split: sum.splits)
qed

lemma io_then_Inr:
  "io_then call f w = (Inr y, w') \<longleftrightarrow> (\<exists>x w1. call w = (Inr x, w1) \<and> f x w1 = (Inr y, w'))"
  by (auto simp: io_then_def split: prod.splits sum.splits)

lemma io_result_eq [simp]: "io_result r w = (r', w') \<longleftrightarrow> r = r' \<and> w = w'"
  by (simp add: io_result_def)

lemmas keeps_intros = keeps_return keeps_then_all keeps_try keeps_blocking keeps_io_then

section \<open>Confined paths\<close>

text \<open>
  A path of the client's own name space: the root, or components that a path of a client can
  have, none of them the directory of the streams.
\<close>

definition own_path :: "rel_path \<Rightarrow> bool" where
  "own_path r \<longleftrightarrow> r = [lit ''.''] \<or>
     (r \<noteq> [] \<and> (\<forall>c \<in> set r. valid_component c \<and> \<not> eq_ignore_ascii_case c STREAMS_DIR))"

text \<open>
  The place where a stream of a file is kept, and the directory around it. The name of the stream
  is a name in that directory: not the directory itself nor the one above it.
\<close>

definition dot_name :: "rstring \<Rightarrow> bool" where
  "dot_name s \<longleftrightarrow> s = lit ''.'' \<or> s = lit ''..''"

definition stream_place :: "rel_path \<Rightarrow> bool" where
  "stream_place r \<longleftrightarrow> (\<exists>base strm. own_path base \<and> base \<noteq> [lit ''.''] \<and> strm \<noteq> [] \<and>
     list_all plain_char strm \<and> \<not> dot_name strm \<and> (r = STREAMS_DIR # base @ [strm] \<or> r = STREAMS_DIR # base))"

definition confined :: "rel_path \<Rightarrow> bool" where
  "confined r \<longleftrightarrow> own_path r \<or> stream_place r"

text \<open>Two hosts that answer alike for the paths of a set.\<close>

definition agree_on :: "(rel_path \<Rightarrow> bool) \<Rightarrow> 'w os_root \<Rightarrow> 'w os_root \<Rightarrow> bool" where
  "agree_on P a b \<longleftrightarrow>
     (\<forall>r. P r \<longrightarrow> or_open_dir a r = or_open_dir b r \<and> or_create_dir a r = or_create_dir b r \<and>
        or_create_dir_all a r = or_create_dir_all b r \<and> or_exists a r = or_exists b r \<and>
        or_metadata a r = or_metadata b r \<and> or_symlink_metadata a r = or_symlink_metadata b r \<and>
        or_open_with a r = or_open_with b r \<and> or_remove_dir a r = or_remove_dir b r \<and>
        or_remove_file a r = or_remove_file b r \<and>
        (\<forall>s. P s \<longrightarrow> or_rename a r s = or_rename b r s))"

lemma agree_onD:
  assumes "agree_on P a b" and "P r"
  shows "or_open_dir a r = or_open_dir b r" "or_create_dir a r = or_create_dir b r"
    "or_create_dir_all a r = or_create_dir_all b r" "or_exists a r = or_exists b r"
    "or_metadata a r = or_metadata b r" "or_symlink_metadata a r = or_symlink_metadata b r"
    "or_open_with a r = or_open_with b r" "or_remove_dir a r = or_remove_dir b r"
    "or_remove_file a r = or_remove_file b r" "P s \<Longrightarrow> or_rename a r s = or_rename b r s"
  using assms by (simp_all add: agree_on_def)

lemma own_path_rel:
  "valid_path p \<Longrightarrow> \<not> is_streams_control_path p \<Longrightarrow> own_path (to_rel_path p)"
  by (auto simp: own_path_def to_rel_path_def is_root_def valid_path_def is_streams_control_path_def
      list_all_iff list_ex_iff)

lemma stream_place_rel:
  assumes "valid_path p" and "\<not> is_streams_control_path p" and "stream p = Some strm"
    and "\<not> dot_name strm"
  shows "stream_place (stream_rel_path (to_rel_path p) strm)"
    "stream_place (butlast (stream_rel_path (to_rel_path p) strm))"
proof -
  have "to_rel_path p \<noteq> [lit ''.'']"
    using assms(1,3)
    by (auto simp: to_rel_path_def is_root_def valid_path_def valid_component_def)
  then show "stream_place (stream_rel_path (to_rel_path p) strm)"
    "stream_place (butlast (stream_rel_path (to_rel_path p) strm))"
    using own_path_rel [OF assms(1,2)] assms(1,3,4)
    by (auto simp: stream_place_def stream_rel_path_def valid_path_def butlast_append
        intro!: exI [of _ "to_rel_path p"] exI [of _ strm])
qed

text \<open>
  C29: unless it names a stream by a dot or two dots, a client makes the local backend look at and
  change nothing but confined paths. Two hosts that agree on the paths of the client's name space (no dot-dot, no separator, no
  reserved name, never the directory of the streams) and on the places of streams are not told
  apart by any open, unlink or rename of an accepted path. The exception is real: the parser
  accepts these two stream names (\<open>dotdot_stream_escapes\<close> and
  \<open>dotdot_not_confined\<close> below).
\<close>

theorem local_paths_confined:
  assumes "valid_path p" and "valid_path q" and "agree_on confined root root'"
    and "\<And>strm. stream p = Some strm \<Longrightarrow> \<not> dot_name strm"
  shows "local_open \<lparr>lf_root = root, lf_read_only = ro\<rparr> p opts
      = local_open \<lparr>lf_root = root', lf_read_only = ro\<rparr> p opts \<and>
    local_unlink \<lparr>lf_root = root, lf_read_only = ro\<rparr> p
      = local_unlink \<lparr>lf_root = root', lf_read_only = ro\<rparr> p \<and>
    local_rename \<lparr>lf_root = root, lf_read_only = ro\<rparr> p q replace
      = local_rename \<lparr>lf_root = root', lf_read_only = ro\<rparr> p q replace"
proof (intro conjI)
  note agree = agree_onD [OF assms(3)]
  have own: "confined (to_rel_path r)" if "valid_path r" "\<not> is_streams_control_path r" for r
    using own_path_rel [OF that] by (simp add: confined_def)
  have strm: "confined (stream_rel_path (to_rel_path p) s)"
      "confined (butlast (stream_rel_path (to_rel_path p) s))"
    if "\<not> is_streams_control_path p" "stream p = Some s" for s
    using stream_place_rel [OF assms(1) that assms(4) [OF that(2)]] by (simp_all add: confined_def)
  show "local_open \<lparr>lf_root = root, lf_read_only = ro\<rparr> p opts
      = local_open \<lparr>lf_root = root', lf_read_only = ro\<rparr> p opts"
    using agree [OF own [OF assms(1)]] agree [OF strm(1)] agree [OF strm(2)]
    by (auto simp: local_open_def local_open_stream_def open_directory_def Let_def cong: if_cong
        split: option.split open_intent.split)
  show "local_unlink \<lparr>lf_root = root, lf_read_only = ro\<rparr> p
      = local_unlink \<lparr>lf_root = root', lf_read_only = ro\<rparr> p"
    using agree [OF own [OF assms(1)]] by (auto simp: local_unlink_def Let_def cong: if_cong)
  show "local_rename \<lparr>lf_root = root, lf_read_only = ro\<rparr> p q replace
      = local_rename \<lparr>lf_root = root', lf_read_only = ro\<rparr> p q replace"
    using agree [OF own [OF assms(1)]] agree [OF own [OF assms(2)]] own [OF assms(2)]
    by (auto simp: local_rename_def Let_def cong: if_cong)
qed

section \<open>The promises of the host\<close>

text \<open>
  What \<open>cap-std\<close> and \<open>std\<close> document: a read returns at most as many bytes as the buffer has, a
  write reports at most as many as it was given, and looking at a file, a directory or its
  metadata changes nothing of what is stored, and neither does an open that may only read.
  \<open>view\<close> is what is stored, without such things as access times.
\<close>

definition only_reads :: "cap_options \<Rightarrow> bool" where
  "only_reads co \<longleftrightarrow> \<not> co_write co \<and> \<not> co_create co \<and> \<not> co_create_new co \<and> \<not> co_truncate co"

definition file_keeps :: "('w \<Rightarrow> 'v) \<Rightarrow> 'w os_file \<Rightarrow> bool" where
  "file_keeps view f \<longleftrightarrow> (\<forall>n off. keeps view (of_read_at f n off)) \<and> keeps view (of_metadata f) \<and>
     keeps view (of_sync_data f) \<and>
     (\<forall>n off w bs w'. of_read_at f n off w = (Some (Inr bs), w') \<longrightarrow> length bs \<le> n) \<and>
     (\<forall>dat off w n w'. of_write_at f dat off w = (Some (Inr n), w') \<longrightarrow> n \<le> length dat)"

lemma file_keeps_bounds:
  "file_keeps view f \<Longrightarrow> of_read_at f n off w = (Some (Inr bs), w') \<Longrightarrow> length bs \<le> n"
  "file_keeps view f \<Longrightarrow> of_write_at f dat off w = (Some (Inr k), w') \<Longrightarrow> k \<le> length dat"
  unfolding file_keeps_def by blast+

definition dir_keeps :: "('w \<Rightarrow> 'v) \<Rightarrow> 'w os_dir \<Rightarrow> bool" where
  "dir_keeps view d \<longleftrightarrow> keeps view (od_entries d) \<and> keeps view (od_metadata d) \<and>
     (\<forall>w es w' n stat. od_entries d w = (Some (Inr es), w') \<longrightarrow> Inr (n, stat) \<in> set es \<longrightarrow>
        keeps view stat)"

definition os_ok :: "'w os_root \<Rightarrow> ('w \<Rightarrow> 'v) \<Rightarrow> bool" where
  "os_ok root view \<longleftrightarrow>
     (\<forall>r. keeps view (or_open_dir root r) \<and> keeps view (or_exists root r) \<and>
        keeps view (or_metadata root r) \<and> keeps view (or_symlink_metadata root r) \<and>
        (\<forall>co. only_reads co \<longrightarrow> keeps view (or_open_with root r co)) \<and>
        (\<forall>co w f w'. or_open_with root r co w = (Some (Inr f), w') \<longrightarrow> file_keeps view f) \<and>
        (\<forall>w d w'. or_open_dir root r w = (Some (Inr d), w') \<longrightarrow> dir_keeps view d))"

lemma os_ok_opens:
  "os_ok root view \<Longrightarrow> or_open_with root r co w = (Some (Inr f), w') \<Longrightarrow> file_keeps view f"
  "os_ok root view \<Longrightarrow> or_open_dir root r w = (Some (Inr d), w') \<Longrightarrow> dir_keeps view d"
  unfolding os_ok_def by blast+

section \<open>Handles\<close>

text \<open>The handles that the backend gives out: over a file or a directory of the host.\<close>

definition host_handle :: "('w \<Rightarrow> 'v) \<Rightarrow> bool \<Rightarrow> 'w local_handle \<Rightarrow> bool" where
  "host_handle view ro h \<longleftrightarrow>
     (case h of LocalFile _ f ro' \<Rightarrow> file_keeps view f \<and> ro' = ro | LocalDir _ d \<Rightarrow> dir_keeps view d)"

lemma host_handleI:
  "file_keeps view f \<Longrightarrow> \<exists>lh. local_handle_of (LocalFile n f ro) = local_handle_of lh \<and> host_handle view ro lh"
  "dir_keeps view d \<Longrightarrow> \<exists>lh. local_handle_of (LocalDir n d) = local_handle_of lh \<and> host_handle view ro lh"
  by (auto simp: host_handle_def intro: exI [of _ "LocalFile n f ro"] exI [of _ "LocalDir n d"])

lemma open_directory_Inr:
  "open_directory root rel intent w = (Some (Inr d), w') \<Longrightarrow>
    \<exists>w1. or_open_dir root rel w1 = (Some (Inr d), w')"
  by (cases intent)
    (auto simp: open_directory_def os_then_def os_return_def split: prod.splits option.splits sum.splits)

lemma os_then_Inr:
  "os_then call f w = (Some (Inr y), w') \<longleftrightarrow>
    (\<exists>x w1. call w = (Some (Inr x), w1) \<and> f x w1 = (Some (Inr y), w'))"
  by (auto simp: os_then_def split: prod.splits option.splits sum.splits)

lemma local_open_handle:
  assumes ok: "os_ok (lf_root fs) view" and "local_open fs p opts w = (Inr h, w')"
  shows "\<exists>lh. h = local_handle_of lh \<and> host_handle view (lf_read_only fs) lh"
proof -
  note of_file = os_ok_opens(1) [OF ok] and of_dir = os_ok_opens(2) [OF ok]
  have of_stream: "\<exists>lh. h = local_handle_of lh \<and> host_handle view (lf_read_only fs) lh"
    if "local_open_stream fs r s opts w = (Inr h, w')" for r s
    using that
    by (auto simp: local_open_stream_def Let_def io_then_Inr blocking_Inr os_then_Inr
        split: if_splits dest: of_file intro!: host_handleI)
  show ?thesis
    using assms(2)
    by (auto simp: local_open_def Let_def io_then_Inr blocking_Inr
        split: if_splits option.splits open_intent.splits
        dest: of_file of_dir of_stream dest!: open_directory_Inr intro!: host_handleI)
qed

lemma collect_entries_keeps:
  "(\<And>n stat. Inr (n, stat) \<in> set es \<Longrightarrow> keeps view stat) \<Longrightarrow> keeps view (collect_entries pat es out)"
proof (induction es arbitrary: out)
  case (Cons e es)
  have IH: "keeps view (collect_entries pat es out')" for out'
    using Cons.prems by (intro Cons.IH) (meson list.set_intros(2))
  show ?case
  proof (cases e)
    case (Inr en)
    obtain n stat where "en = (n, stat)" by (cases en)
    with Inr Cons.prems [of n stat] IH show ?thesis
      by (auto intro!: keeps_then_all split: option.split)
  qed simp
qed simp

text \<open>What looks at a file or a directory keeps what is stored, and so does a refused change.\<close>

lemma handle_keeps:
  assumes "host_handle view ro h"
  shows "keeps view (local_read h off len)" "keeps view (local_stat h)" "keeps view (local_flush h)"
    "keeps view (local_list_dir h pat)" "keeps view (local_close h)"
proof -
  show "keeps view (local_read h off len)" "keeps view (local_stat h)" "keeps view (local_flush h)"
    "keeps view (local_close h)"
    using assms
    by (auto simp: host_handle_def local_read_def local_stat_def local_flush_def local_close_def
        file_keeps_def dir_keeps_def intro!: keeps_intros split: local_handle.splits)
  show "keeps view (local_list_dir h pat)"
  proof (cases h)
    case (LocalDir n d)
    with assms show ?thesis
      by (auto simp: local_list_dir_def host_handle_def dir_keeps_def
          intro!: keeps_blocking keeps_then keepsD [OF collect_entries_keeps])
  qed (simp add: local_list_dir_def)
qed

lemma saturate_le: "unat (saturate_u32 n) \<le> n"
  by (simp add: saturate_u32_def unat_of_nat take_bit_eq_mod unsigned_minus_1_eq_mask
      mask_eq_exp_minus_1)

text \<open>
  The contract of the handlers holds for the local backend on every host that keeps its promises.
\<close>

lemma local_share_backend:
  assumes ok: "os_ok (lf_root fs) view"
  shows "share_backend (local_backend fs) view"
proof -
  have handle: "\<exists>lh. h = local_handle_of lh \<and> host_handle view (lf_read_only fs) lh"
    if "opened_by (local_backend fs) h" for h
    using that local_open_handle [OF ok] by (fastforce simp: opened_by_def local_backend_def)
  show ?thesis
  proof
    fix h off len bs and w w' :: 'a
    assume "opened_by (local_backend fs) h" and run: "h_read h off len w = (Inr bs, w')"
    then obtain lh where lh: "h = local_handle_of lh" "host_handle view (lf_read_only fs) lh"
      using handle by blast
    then show "length bs \<le> unat len"
      using run by (cases lh)
        (auto simp: local_handle_of_def local_read_def blocking_Inr host_handle_def
          dest: file_keeps_bounds(1))
  next
    fix h off dat n and w w' :: 'a
    assume "opened_by (local_backend fs) h" and run: "h_write h off dat w = (Inr n, w')"
    then obtain lh where lh: "h = local_handle_of lh" "host_handle view (lf_read_only fs) lh"
      using handle by blast
    show "unat n \<le> length dat"
      using lh run by (cases lh)
        (auto simp: local_handle_of_def local_write_def io_then_Inr blocking_Inr host_handle_def
          split: if_splits dest!: file_keeps_bounds(2) intro: order_trans [OF saturate_le])
  next
    fix h off len and w :: 'a
    assume "opened_by (local_backend fs) h"
    then obtain lh where "h = local_handle_of lh" "host_handle view (lf_read_only fs) lh"
      using handle by blast
    from this(1) handle_keeps [OF this(2)]
    show "view (snd (h_read h off len w)) = view w" "view (snd (h_stat h w)) = view w"
      "view (snd (h_close h w)) = view w"
      by (simp_all add: local_handle_of_def keeps_def)
  qed
qed

section \<open>A read-only share\<close>

lemma os_ok_keeps:
  assumes "os_ok root view"
  shows "keeps view (or_open_dir root r)" "keeps view (or_metadata root r)"
    "only_reads co \<Longrightarrow> keeps view (or_open_with root r co)"
  using assms unfolding os_ok_def by blast+

lemma read_intent_only_reads: "\<not> wants_change opts \<Longrightarrow> only_reads (cap_options_for opts)"
  by (auto simp: wants_change_def cap_options_for_def only_reads_def)

lemma local_open_keeps:
  assumes ok: "os_ok (lf_root fs) view" and "\<not> wants_change opts"
  shows "keeps view (local_open fs p opts)"
proof -
  have look: "oo_intent opts = IntentOpen" using assms(2) by (simp add: wants_change_def)
  note os = os_ok_keeps [OF ok] and co = read_intent_only_reads [OF assms(2)]
  have "keeps view (local_open_stream fs r s opts)" for r s
    by (auto simp: local_open_stream_def Let_def look
        intro!: keeps_intros os co split: if_splits)
  with look show ?thesis
    by (auto simp: local_open_def open_directory_def Let_def
        intro!: keeps_intros os co split: option.split)
qed

lemma read_only_handle:
  assumes "host_handle view True lh"
  shows "\<exists>e. local_write lh off dat w = (Inl e, w)" "\<exists>e. local_set_times lh tms w = (Inl e, w)"
    "\<exists>e. local_truncate lh len w = (Inl e, w)"
  using assms
  by (cases lh; simp add: host_handle_def local_write_def local_set_times_def local_truncate_def)+

text \<open>
  C28: a read-only local share is inert. On every host that keeps its promises, an open through a
  read-only backend keeps what is stored, and one that asks for write access or for an entry to be
  created or emptied is denied before the host is asked; unlink and rename are denied; and a
  handle it gives out refuses writes, new times and new lengths without asking the host, while
  reading, listing, flushing and asking for metadata keep what is stored.
\<close>

theorem read_only_share_inert:
  assumes "os_ok (lf_root fs) view" and "lf_read_only fs"
  shows "view (snd (local_open fs p opts w)) = view w \<and>
    (wants_change opts \<longrightarrow> local_open fs p opts w = (Inl AccessDenied, w)) \<and>
    local_unlink fs p w = (Inl AccessDenied, w) \<and>
    local_rename fs p q replace w = (Inl AccessDenied, w) \<and>
    (\<forall>h w'. local_open fs p opts w = (Inr h, w') \<longrightarrow>
      (\<forall>u. (\<exists>e. h_write h off dat u = (Inl e, u)) \<and> (\<exists>e. h_set_times h tms u = (Inl e, u)) \<and>
        (\<exists>e. h_truncate h len u = (Inl e, u)) \<and>
        view (snd (h_read h off n u)) = view u \<and> view (snd (h_list_dir h pat u)) = view u \<and>
        view (snd (h_flush h u)) = view u \<and> view (snd (h_stat h u)) = view u))"
proof -
  have denied: "local_open fs p opts w = (Inl AccessDenied, w)" if "wants_change opts"
    using assms(2) that by (simp add: local_open_def io_result_def)
  have "view (snd (local_open fs p opts w)) = view w"
    using denied keepsD [OF local_open_keeps [OF assms(1)]] by (cases "wants_change opts") simp_all
  moreover have "(\<exists>e. h_write h off dat u = (Inl e, u)) \<and> (\<exists>e. h_set_times h tms u = (Inl e, u)) \<and>
      (\<exists>e. h_truncate h len u = (Inl e, u)) \<and>
      view (snd (h_read h off n u)) = view u \<and> view (snd (h_list_dir h pat u)) = view u \<and>
      view (snd (h_flush h u)) = view u \<and> view (snd (h_stat h u)) = view u"
    if opened: "local_open fs p opts w = (Inr h, w')" for h w' u
  proof -
    obtain lh where lh: "h = local_handle_of lh" "host_handle view True lh"
      using local_open_handle [OF assms(1) opened] assms(2) by auto
    show ?thesis
      using read_only_handle [OF lh(2)] handle_keeps [OF lh(2)]
      by (simp add: lh(1) local_handle_of_def keeps_def)
  qed
  ultimately show ?thesis
    using denied assms(2) by (simp add: local_unlink_def local_rename_def io_result_def)
qed

section \<open>File times\<close>

lemma local_time_eq: "local_time_to_filetime t = system_time_to_filetime t"
  by (simp add: local_time_to_filetime_def system_time_to_filetime_def split: option.split)

lemma filetime_split:
  fixes k :: u64
  shows "unat (ucast ((k mod 10000000) * 100) :: u32) = unat k mod 10000000 * 100"
    "unat k = unat (k div 10000000) * 10000000 + unat k mod 10000000"
proof -
  have m: "unat (k mod 10000000) = unat k mod 10000000" by (simp add: unat_mod_distrib)
  have "unat k mod 10000000 * 100 < 2 ^ 32"
    using mod_less_divisor [of 10000000 "unat k"] by simp
  then show "unat (ucast ((k mod 10000000) * 100) :: u32) = unat k mod 10000000 * 100"
    using m by (simp add: unsigned_ucast_eq unat_word_ariths take_bit_eq_mod)
  show "unat k = unat (k div 10000000) * 10000000 + unat k mod 10000000"
    by (simp add: unat_div_distrib)
qed

lemma filetime_to_system_time_exact:
  assumes "FILETIME_OFFSET \<le> ft"
  shows "filetime_to_system_time ft = Some (int (unat ft - 116444736000000000) * 100)"
proof -
  let ?k = "ft - FILETIME_OFFSET"
  have k: "unat ?k = unat ft - 116444736000000000"
    using assms by (simp add: unat_sub FILETIME_OFFSET_def)
  have "unat (?k div 10000000) * 1000000000 + unat (ucast ((?k mod 10000000) * 100) :: u32)
      = (unat ft - 116444736000000000) * 100"
    using filetime_split [of ?k] k by simp
  from arg_cong [OF this, of int]
  have "int (unat (?k div 10000000)) * 1000000000 + int (unat (ucast ((?k mod 10000000) * 100) :: u32))
      = int (unat ft - 116444736000000000) * 100"
    by (simp only: of_nat_add of_nat_mult of_nat_numeral)
  then show ?thesis
    using assms by (simp add: filetime_to_system_time_def Let_def not_less)
qed

lemma nat_mult_distrib_int: "nat (int n * 100) = n * 100"
  by (simp add: nat_mult_distrib)

lemma local_time_exact:
  assumes "0 \<le> t" and "t < 1833029933770955161600"
  shows "unat (local_time_to_filetime t) = 116444736000000000 + nat t div 100"
proof -
  let ?s = "nat t div 1000000000" and ?n = "nat t mod 1000000000 div 100"
  have "nat t = nat t mod 1000000000 + 100 * (?s * 10000000)"
    using mod_mult_div_eq [of "nat t" 1000000000] by simp
  then have eq: "?s * 10000000 + ?n = nat t div 100"
    by (metis (no_types) add.commute div_mult_self2 zero_neq_numeral)
  have "local_time_to_filetime t = of_nat (116444736000000000 + (?s * 10000000 + ?n))"
    using assms by (simp add: local_time_to_filetime_def since_epoch_def FILETIME_OFFSET_def)
  then have "unat (local_time_to_filetime t)
      = (116444736000000000 + (?s * 10000000 + ?n)) mod 2 ^ 64"
    by (simp only: unat_of_nat) simp
  moreover have "116444736000000000 + nat t div 100 < 2 ^ 64"
    using assms by simp
  ultimately show ?thesis by (simp only: mod_less eq)
qed

text \<open>
  C39: the two conversions of the local backend between file times and the times of the host undo
  each other. Every 64-bit file time at or after 1970 is converted to a time of the host that
  converts back to the same 100-nanosecond count, and an earlier one is not converted at all. A
  time of the host (from 1970 to the end of the 64-bit range) that is converted to a file time
  converts back to itself up to the last two digits of its nanoseconds. This says nothing of which
  times reach the conversions: SET_INFO drops 0 and the largest value, and the backend passes on only
  the times of the last access and the last write.
\<close>

theorem filetime_roundtrip:
  "map_option local_time_to_filetime (filetime_to_system_time ft)
      = (if FILETIME_OFFSET \<le> ft then Some ft else None) \<and>
    (0 \<le> t \<longrightarrow> t < 1833029933770955161600 \<longrightarrow>
      filetime_to_system_time (local_time_to_filetime t) = Some (t - t mod 100))"
proof
  show "map_option local_time_to_filetime (filetime_to_system_time ft)
      = (if FILETIME_OFFSET \<le> ft then Some ft else None)"
  proof (cases "FILETIME_OFFSET \<le> ft")
    case True
    let ?n = "unat ft - 116444736000000000"
    have le: "116444736000000000 \<le> unat ft"
      using True by (simp add: word_le_nat_alt FILETIME_OFFSET_def)
    have lt: "unat ft < 18446744073709551616" using unsigned_less [of ft, where ?'a = nat] by simp
    then have "unat (local_time_to_filetime (int ?n * 100)) = 116444736000000000 + nat (int ?n * 100) div 100"
      using le by (intro local_time_exact) linarith+
    also have "nat (int ?n * 100) = ?n * 100" by (simp only: nat_mult_distrib_int)
    also have "116444736000000000 + ?n * 100 div 100 = unat ft" using le by simp
    finally have "local_time_to_filetime (int ?n * 100) = ft" by (simp add: word_unat_eq_iff)
    with True show ?thesis by (simp add: filetime_to_system_time_exact)
  qed (simp add: filetime_to_system_time_def not_le)
  show "0 \<le> t \<longrightarrow> t < 1833029933770955161600 \<longrightarrow>
      filetime_to_system_time (local_time_to_filetime t) = Some (t - t mod 100)"
  proof (intro impI)
    assume t: "0 \<le> t" "t < 1833029933770955161600"
    note exact = local_time_exact [OF t]
    have "FILETIME_OFFSET \<le> local_time_to_filetime t"
      by (simp add: word_le_nat_alt exact FILETIME_OFFSET_def)
    then have "filetime_to_system_time (local_time_to_filetime t) = Some (int (nat t div 100) * 100)"
      by (simp add: filetime_to_system_time_exact exact)
    also have "int (nat t div 100) * 100 = t - t mod 100"
      using t(1) by (simp add: minus_mod_eq_div_mult zdiv_int)
    finally show "filetime_to_system_time (local_time_to_filetime t) = Some (t - t mod 100)" .
  qed
qed

section \<open>A host\<close>

text \<open>A host that stores plain files in one table, to which the properties are applied.\<close>

type_synonym host = "(rel_path, bytes) table"

definition host_answer :: "rel_path \<Rightarrow> (bytes \<Rightarrow> 'a) \<Rightarrow> (host, 'a) os_call" where
  "host_answer r f w =
     (Some (case tbl_get w r of None \<Rightarrow> Inl KNotFound | Some b \<Rightarrow> Inr (f b)), w)"

definition host_change :: "rel_path \<Rightarrow> (bytes \<Rightarrow> bytes) \<Rightarrow> 'a \<Rightarrow> (host, 'a) os_call" where
  "host_change r f x w =
     (case tbl_get w r of
        None \<Rightarrow> (Some (Inl KNotFound), w)
      | Some b \<Rightarrow> (Some (Inr x), tbl_insert r (f b) w))"

definition host_metadata :: "bool \<Rightarrow> nat \<Rightarrow> metadata" where
  "host_metadata dir n =
     \<lparr>md_len = of_nat n, md_is_dir = dir, md_modified = Some 0, md_accessed = None, md_created = None\<rparr>"

definition host_file :: "rel_path \<Rightarrow> host os_file" where
  "host_file r =
     \<lparr>of_read_at = (\<lambda>n off. host_answer r (slice (unat off) n)),
      of_write_at = (\<lambda>dat off. host_change r
         (\<lambda>b. take (unat off) (b @ replicate (unat off - length b) 0) @ dat) (length dat)),
      of_sync_data = os_return (Inr ()),
      of_metadata = host_answer r (\<lambda>b. host_metadata False (length b)),
      of_set_times = (\<lambda>_ _. os_return (Inr ())), of_set_len = (\<lambda>n. host_change r (take (unat n)) ())\<rparr>"

definition host_dir :: "host os_dir" where
  "host_dir =
     \<lparr>od_entries = os_return (Inr []), od_metadata = os_return (Inr (host_metadata True 0))\<rparr>"

definition host_root :: "host os_root" where
  "host_root =
     \<lparr>or_open_dir = (\<lambda>r. os_return (if r = [lit ''.''] then Inr host_dir else Inl KNotFound)),
      or_create_dir = (\<lambda>_. os_return (Inl KPermissionDenied)),
      or_create_dir_all = (\<lambda>_. os_return (Inr ())),
      or_exists = (\<lambda>r w. (Some (Inr (tbl_get w r \<noteq> None)), w)),
      or_metadata = (\<lambda>r. host_answer r (\<lambda>b. host_metadata False (length b))),
      or_symlink_metadata = (\<lambda>r. host_answer r (\<lambda>b. host_metadata False (length b))),
      or_open_with = (\<lambda>r co w. if co_create co \<and> tbl_get w r = None
         then (Some (Inr (host_file r)), tbl_insert r [] w)
         else host_answer r (\<lambda>_. host_file r) w),
      or_remove_dir = (\<lambda>_. os_return (Inl KPermissionDenied)),
      or_remove_file = (\<lambda>r w. (Some (Inr ()), tbl_remove r w)),
      or_rename = (\<lambda>r s w. case tbl_get w r of
           None \<Rightarrow> (Some (Inl KNotFound), w)
         | Some b \<Rightarrow> (Some (Inr ()), tbl_insert s b (tbl_remove r w))),
      or_case_sensitive = True\<rparr>"

lemma host_answer_keeps [simp, intro]: "keeps view (host_answer r f)"
  by (simp add: keeps_def host_answer_def)

lemma host_ok: "os_ok host_root (\<lambda>w. w)"
proof -
  have "file_keeps (\<lambda>w. w) (host_file r)" for r
    by (auto simp: file_keeps_def host_file_def host_answer_def host_change_def slice_def
        split: option.splits)
  moreover have "dir_keeps (\<lambda>w. w) host_dir"
    by (auto simp: dir_keeps_def host_dir_def os_return_def)
  moreover have "keeps (\<lambda>w. w) (or_open_with host_root r co)" if "only_reads co" for r co
    using that by (simp add: keeps_def host_root_def host_answer_def only_reads_def)
  ultimately show ?thesis
    by (auto simp: os_ok_def host_root_def host_answer_def os_return_def keeps_def
        split: if_splits option.splits)
qed

definition host_path :: smb_path where
  "host_path = \<lparr>components = [[97]], stream = None\<rparr>"

lemma host_path_valid: "valid_path host_path"
  by (simp add: host_path_def valid_path_def valid_component_def plain_char_def is_sep_def
      forbidden_char_def lit_def is_reserved_dos_name_def matches_com_or_lpt_def Let_def
      rsplit_once_def to_ascii_uppercase_def ascii_upper_def as_bytes_def utf8_char_def)

lemma host_open:
  "\<exists>h. local_open \<lparr>lf_root = host_root, lf_read_only = True\<rparr> host_path open_options_default
     [([[97]], [1, 2, 3])] = (Inr h, [([[97]], [1, 2, 3])])"
  by (simp add: local_open_def is_streams_control_path_def host_path_def eq_ignore_ascii_case_def
      to_ascii_lowercase_def ascii_lower_def STREAMS_DIR_def lit_def wants_change_def
      open_options_default_def to_rel_path_def is_root_def Let_def io_then_def blocking_def
      os_try_def os_return_def host_root_def host_answer_def tbl_get_def host_metadata_def
      cap_options_for_def io_result_def)

text \<open>
  A stream may be named \<open>..\<close>: the parser checks only its characters, so the place of the stream
  \<open>a:..\<close> is not inside the directory of the streams but that directory itself, which is neither a
  path of the client's name space nor the place of a stream.
\<close>

lemma dotdot_stream_escapes:
  "parse_components (lit ''a:..'') = Inr \<lparr>components = [lit ''a''], stream = Some (lit ''..'')\<rparr>"
  "stream_rel_path [lit ''a''] (lit ''..'') = [STREAMS_DIR, lit ''a'', lit ''..'']"
  by (simp_all add: parse_components_def strip_leading_def forbidden_char_def lit_def is_sep_def
      split_stream_selector_def is_reserved_dos_name_def matches_com_or_lpt_def Let_def
      rsplit_once_def to_ascii_uppercase_def ascii_upper_def as_bytes_def utf8_char_def
      root_path_def stream_rel_path_def)

lemma dotdot_not_confined: "\<not> confined [STREAMS_DIR, lit ''a'', lit ''..'']"
proof -
  have "\<not> valid_component (lit ''..'')" by (simp add: valid_component_def)
  moreover have "eq_ignore_ascii_case STREAMS_DIR STREAMS_DIR"
    by (simp add: eq_ignore_ascii_case_def)
  ultimately show ?thesis
    by (auto simp: confined_def own_path_def stream_place_def dot_name_def lit_def
        append_eq_Cons_conv Cons_eq_append_conv)
qed

theorem read_only_share_inert_witness:
  "\<exists>h. local_open \<lparr>lf_root = host_root, lf_read_only = True\<rparr> host_path open_options_default
      [([[97]], [1, 2, 3])] = (Inr h, [([[97]], [1, 2, 3])]) \<and>
    (\<exists>e. h_write h 0 [9] [([[97]], [1, 2, 3])] = (Inl e, [([[97]], [1, 2, 3])]))"
  using host_open read_only_share_inert [of "\<lparr>lf_root = host_root, lf_read_only = True\<rparr>" "\<lambda>w. w"]
    host_ok
  by fastforce

theorem local_paths_confined_witness:
  "local_open \<lparr>lf_root = host_root, lf_read_only = False\<rparr> host_path open_options_default
    = local_open \<lparr>lf_root = host_root\<lparr>or_metadata := (or_metadata host_root)
          ([lit ''..''] := os_return (Inl KOther))\<rparr>, lf_read_only = False\<rparr>
        host_path open_options_default"
proof -
  have "\<not> confined [lit ''..'']"
    by (auto simp: confined_def own_path_def stream_place_def valid_component_def lit_def
        STREAMS_DIR_def)
  then have "agree_on confined host_root (host_root\<lparr>or_metadata := (or_metadata host_root)
      ([lit ''..''] := os_return (Inl KOther))\<rparr>)"
    by (auto simp: agree_on_def)
  moreover have "\<And>strm. stream host_path = Some strm \<Longrightarrow> \<not> dot_name strm"
    by (simp add: host_path_def)
  ultimately show ?thesis
    using local_paths_confined [OF host_path_valid host_path_valid] by blast
qed

theorem filetime_roundtrip_witness:
  "filetime_to_system_time (local_time_to_filetime 1700000000123456789) = Some 1700000000123456700"
  using filetime_roundtrip [of 0 1700000000123456789] by simp

end
