(* ===== verification/No_Logon.thy ===== *)
theory No_Logon
  imports Dispatch_Preauth
begin

text \<open>
  Requests outside of a session: what a client can do before it has logged on, or with the
  identifier of a session it does not have (\<open>src/src/dispatch.rs\<close>, \<open>src/src/handlers\<close>).
\<close>

section \<open>The handlers\<close>





lemma lookup_session_zero [simp]: "lookup_session c 0 = Inl STATUS_USER_SESSION_DELETED"
  by (simp add: lookup_session_def)






lemma info_class_fails [simp]: "or_status STATUS_INVALID_INFO_CLASS p \<noteq> Inl STATUS_SUCCESS"
  by (rule or_status_fails) simp


section \<open>A request\<close>







end
