(* ===== verification/Closing.thy ===== *)
theory Closing
  imports Access_Control
begin

text \<open>
  What closing does to the storage, whether a client or \<open>ConfigHandle\<close> closes: the functions of
  \<open>src/src/conn/state.rs\<close> call the backend only to close handles of the connection.
\<close>

definition only_closes :: "'w handle set \<Rightarrow> 'w \<Rightarrow> 'w \<Rightarrow> bool" where
  "only_closes H w w' \<longleftrightarrow> (\<exists>hs. set hs \<subseteq> H \<and> w' = run_closes hs w)"

lemma only_closes_refl [simp, intro]: "only_closes H w w"
  by (auto simp: only_closes_def intro: exI [of _ "[]"])

lemma only_closes_run: "set hs \<subseteq> H \<Longrightarrow> only_closes H w (run_closes hs w)"
  by (auto simp: only_closes_def)

lemma only_closes_trans [trans]:
  "only_closes H a b \<Longrightarrow> only_closes H b c \<Longrightarrow> only_closes H a c"
  unfolding only_closes_def by (metis run_closes_append set_append Un_least)

lemma only_closes_mono: "only_closes H w w' \<Longrightarrow> H \<subseteq> H' \<Longrightarrow> only_closes H' w w'"
  unfolding only_closes_def by blast

definition trees_handles :: "(u32 \<times> 'w tree_connect) list \<Rightarrow> 'w handle set" where
  "trees_handles ts = (\<Union>(tid, t) \<in> set ts. set (tree_handles t))"

definition conn_handles :: "'w connection \<Rightarrow> 'w handle set" where
  "conn_handles c = (\<Union>(sid, s) \<in> set (conn_sessions c). trees_handles (sess_trees s))"

lemma set_session_handles: "set (session_handles s) = trees_handles (sess_trees s)"
  by (auto simp: session_handles_def trees_handles_def)

lemma trees_handles_mono: "set ts \<subseteq> set ts' \<Longrightarrow> trees_handles ts \<subseteq> trees_handles ts'"
  unfolding trees_handles_def by blast

lemma conn_handlesI: "(sid, s) \<in> set (conn_sessions c) \<Longrightarrow> trees_handles (sess_trees s) \<subseteq> conn_handles c"
  unfolding conn_handles_def by blast

lemma conn_handles_mono:
  "set (conn_sessions c') \<subseteq> set (conn_sessions c) \<Longrightarrow> conn_handles c' \<subseteq> conn_handles c"
  unfolding conn_handles_def by blast

section \<open>Trees and sessions\<close>

lemma remove_tree_closes:
  assumes "remove_tree_from_session s tid w = (r, s', w')"
  shows "only_closes (trees_handles (sess_trees s)) w w'" and "set (sess_trees s') \<subseteq> set (sess_trees s)"
proof -
  show "only_closes (trees_handles (sess_trees s)) w w'"
    using assms
    by (auto simp: remove_tree_from_session_def close_tree_state_run trees_handles_def
        split: option.splits intro!: only_closes_run dest!: tbl_get_in)
  show "set (sess_trees s') \<subseteq> set (sess_trees s)"
    using remove_tree_trees [OF assms] by auto
qed

lemma remove_trees_closes:
  "remove_trees tids s w = (n, s', w') \<Longrightarrow> only_closes (trees_handles (sess_trees s)) w w'"
proof (induction tids s w arbitrary: n s' w' rule: remove_trees.induct)
  case (2 tid tids s w)
  obtain r s1 w1 where first: "remove_tree_from_session s tid w = (r, s1, w1)" by (metis prod_cases3)
  obtain m s2 w2 where rest: "remove_trees tids s1 w1 = (m, s2, w2)" by (metis prod_cases3)
  note removed = remove_tree_closes [OF first]
  have "only_closes (trees_handles (sess_trees s1)) w1 w2"
    using "2.IH" [OF first [symmetric] refl] rest by simp
  from only_closes_mono [OF this trees_handles_mono [OF removed(2)]]
  have "only_closes (trees_handles (sess_trees s)) w w2" by (rule only_closes_trans [OF removed(1)])
  with "2.prems" first rest show ?case by simp
qed simp

lemma close_matching_in_closes:
  "close_matching_in P ss w = (n, ss', w') \<Longrightarrow>
    only_closes (\<Union>(sid, s) \<in> set ss. trees_handles (sess_trees s)) w w'"
proof (induction P ss w arbitrary: n ss' w' rule: close_matching_in.induct)
  case (2 P sid s ss w)
  obtain k s1 w1 where first: "remove_trees (map fst (filter (\<lambda>(_, t). P s t) (sess_trees s))) s w
      = (k, s1, w1)" by (metis prod_cases3)
  obtain m ss2 w2 where rest: "close_matching_in P ss w1 = (m, ss2, w2)" by (metis prod_cases3)
  let ?H = "\<lambda>ss. \<Union>(sid, s) \<in> set ss. trees_handles (sess_trees s)"
  have "only_closes (?H ss) w1 w2" using "2.IH" [OF refl first [symmetric] refl] rest by simp
  then have "only_closes (?H ((sid, s) # ss)) w1 w2" by (rule only_closes_mono) simp
  moreover have "only_closes (?H ((sid, s) # ss)) w w1"
    using remove_trees_closes [OF first] by (rule only_closes_mono) simp
  ultimately have "only_closes (?H ((sid, s) # ss)) w w2" by (rule only_closes_trans [rotated])
  with "2.prems" first rest show ?case by simp
qed simp

section \<open>Connections\<close>

lemma close_tree_closes: "close_tree sid tid c w = (r, c', w') \<Longrightarrow> only_closes (conn_handles c) w w'"
  by (auto simp: close_tree_def split: option.splits prod.splits dest!: tbl_get_in
      intro: only_closes_mono [OF remove_tree_closes(1) conn_handlesI])

lemma close_session_closes:
  assumes "close_session sid c w = (r, c', w')"
  shows "only_closes (conn_handles c) w w'" and "conn_handles c' \<subseteq> conn_handles c"
proof -
  show "only_closes (conn_handles c) w w'"
    using assms
    by (auto simp: close_session_def close_session_state_run set_session_handles split: option.splits
        dest!: tbl_get_in intro!: only_closes_run intro: subsetD [OF conn_handlesI])
  show "conn_handles c' \<subseteq> conn_handles c"
    using assms set_tbl_remove_subset [of sid "conn_sessions c"]
    by (intro conn_handles_mono) (auto simp: close_session_def split: option.splits)
qed

lemma close_sessions_closes:
  "close_sessions sids c w = (n, c', w') \<Longrightarrow> only_closes (conn_handles c) w w'"
proof (induction sids c w arbitrary: n c' w' rule: close_sessions.induct)
  case (2 sid sids c w)
  obtain r c1 w1 where first: "close_session sid c w = (r, c1, w1)" by (metis prod_cases3)
  obtain m c2 w2 where rest: "close_sessions sids c1 w1 = (m, c2, w2)" by (metis prod_cases3)
  note closed = close_session_closes [OF first]
  have "only_closes (conn_handles c1) w1 w2" using "2.IH" [OF first [symmetric] refl] rest by simp
  from only_closes_mono [OF this closed(2)] have "only_closes (conn_handles c) w w2"
    by (rule only_closes_trans [OF closed(1)])
  with "2.prems" first rest show ?case by simp
qed simp

lemma close_matching_closes:
  "close_matching_trees P c w = (n, c', w') \<Longrightarrow> only_closes (conn_handles c) w w'"
  by (auto simp: close_matching_trees_def conn_handles_def split: prod.splits
      dest: close_matching_in_closes)

lemma close_on_closes: "close_on cl c w = (n, c', w') \<Longrightarrow> only_closes (conn_handles c) w w'"
  by (cases cl) (auto simp: close_sessions_for_user_def close_trees_for_share_def
      close_trees_for_user_share_def intro: close_sessions_closes close_matching_closes)

text \<open>What is left is part of what was there.\<close>

lemma close_on_fewer:
  assumes "conn_ok c" and "close_on cl c w = (n, c', w')"
  shows "fewer c c'"
proof -
  have matching: "fewer c c'" if run: "close_matching_trees P c w = (n, c', w')" for P
    unfolding fewer_def
  proof (intro allI impI)
    fix sid s' assume s': "tbl_get (conn_sessions c') sid = Some s'"
    obtain s where s: "tbl_get (conn_sessions c) sid = Some s" "s' = keep_trees P s"
      using s' close_matching_sessions(1) [OF assms(1) run] by (auto simp: tbl_get_map_val)
    have "tbl_get (sess_trees s) tid = Some t" if t: "tbl_get (sess_trees s') tid = Some t" for tid t
      using close_matching_none [OF assms(1) run s' t] s(1) conn_ok_sessions [OF assms(1) s(1)]
      by (auto simp: session_ok_def dest: tbl_all_ok intro: tbl_in_get)
    with s show "\<exists>s. tbl_get (conn_sessions c) sid = Some s \<and> sess_identity s' = sess_identity s \<and>
        (\<forall>tid t. tbl_get (sess_trees s') tid = Some t \<longrightarrow> tbl_get (sess_trees s) tid = Some t)"
      by (auto simp: keep_trees_def)
  qed
  show ?thesis
  proof (cases cl)
    case (ClosingUser u)
    with assms have run: "close_sessions_for_user u c w = (n, c', w')" by simp
    show ?thesis
      unfolding fewer_def close_sessions_for_user_gone(2) [OF assms(1) run]
      by (auto split: option.splits if_splits)
  qed (use assms(2) matching in \<open>auto simp: close_trees_for_share_def close_trees_for_user_share_def\<close>)
qed

section \<open>All live connections\<close>

lemma for_conns_closes:
  "for_conns (close_on cl) cs w = (cs', w') \<Longrightarrow>
    only_closes (\<Union>(i, c) \<in> set cs. conn_handles c) w w'"
proof (induction cs arbitrary: w cs' w')
  case (Cons x cs)
  obtain i c where x: "x = (i, c)" by fastforce
  obtain k c1 w1 where first: "close_on cl c w = (k, c1, w1)" by (metis prod_cases3)
  obtain cs2 w2 where rest: "for_conns (close_on cl) cs w1 = (cs2, w2)" by fastforce
  let ?H = "\<lambda>cs. \<Union>(i, c) \<in> set cs. conn_handles c"
  have "only_closes (?H (x # cs)) w w1"
    using close_on_closes [OF first] by (rule only_closes_mono) (simp add: x)
  moreover have "only_closes (?H (x # cs)) w1 w2"
    using Cons.IH [OF rest] by (rule only_closes_mono) simp
  ultimately have "only_closes (?H (x # cs)) w w2" by (rule only_closes_trans)
  with Cons.prems first rest x show ?case by simp
qed simp

lemma run_config_op_closes:
  assumes "run_config_op oper sys = (r, sys')"
  shows "only_closes (\<Union>(i, c) \<in> set (sys_conns sys). conn_handles c) (sys_world sys) (sys_world sys')"
proof -
  let ?todo = "closing_after oper (sys_server sys) r"
  have sys': "sys' = close_all ?todo (set_server (\<lambda>_. sys_server sys') sys)"
    using assms by (rule run_config_op_parts)
  show ?thesis
    by (subst sys') (auto simp: close_all_def on_live_def dest: for_conns_closes
        split: option.split prod.split)
qed

lemma run_config_op_fewer:
  assumes "system_ok sys" and "run_config_op oper sys = (r, sys')"
    and c': "tbl_get (sys_conns sys') i = Some c'"
  shows "\<exists>c. tbl_get (sys_conns sys) i = Some c \<and> fewer c c'"
proof -
  let ?todo = "closing_after oper (sys_server sys) r" and ?sys = "set_server (\<lambda>_. sys_server sys') sys"
  have sys': "sys' = close_all ?todo ?sys" using assms(2) by (rule run_config_op_parts)
  have conns: "tbl_all (\<lambda>_. conn_ok) (sys_conns sys)" using assms(1) by (simp add: system_ok_def)
  show ?thesis
  proof (cases ?todo)
    case None
    with sys' c' have "tbl_get (sys_conns sys) i = Some c'"
      by (metis close_all_def option.simps(4) set_server_simps(2))
    then show ?thesis by (auto simp: fewer_def)
  next
    case (Some cl)
    with sys' c' have "tbl_get (sys_conns (on_live (close_on cl) ?sys)) i = Some c'"
      by (simp add: close_all_def)
    from on_live_get [OF _ this] conns obtain c w1 k w2 where
        c: "tbl_get (sys_conns sys) i = Some c" "close_on cl c w1 = (k, c', w2)"
      by (auto simp: tbl_all_ok)
    with close_on_fewer [OF tbl_all_get [OF conns c(1)]] show ?thesis by blast
  qed
qed

end
