(* ===== verification/File_Store.thy ===== *)
theory File_Store
  imports Memfs
begin

text \<open>
  The abstract service that a share provides: a store of byte strings under keys, with the actions
  that clients can perform on it, and the locale of the backends that implement it (the traits of
  \<open>src/src/backend.rs\<close>). The in-memory backend of \<open>src/src/tests/memfs.rs\<close> is one. A backend whose
  handles stay with a file that is deleted or renamed (the local one) is not: here a handle goes by
  the name it was opened under.
\<close>

section \<open>The store\<close>

type_synonym 'k store = "'k \<Rightarrow> bytes option"

datatype 'k file_action =
    Idle
  | Fetched 'k nat nat bytes
  | Stored 'k nat bytes
  | Resized 'k nat
  | Opened 'k open_intent
  | Removed 'k

text \<open>What an entry holds after an open, or nothing when the open is refused.\<close>

fun after_open :: "open_intent \<Rightarrow> bytes option \<Rightarrow> bytes option" where
  "after_open IntentOpen c = c"
| "after_open IntentCreate c = (if c = None then Some [] else None)"
| "after_open IntentOpenOrCreate c = Some (case c of None \<Rightarrow> [] | Some d \<Rightarrow> d)"
| "after_open IntentTruncate c = (if c = None then None else Some [])"
| "after_open IntentOverwriteOrCreate c = Some []"

text \<open>
  An action on the store, nothing when the store does not allow it. \<open>family k\<close> are the entries that
  are removed along with \<open>k\<close> (the streams of a file).
\<close>

fun perform :: "('k \<Rightarrow> 'k \<Rightarrow> bool) \<Rightarrow> 'k file_action \<Rightarrow> 'k store \<Rightarrow> 'k store option" where
  "perform family Idle s = Some s"
| "perform family (Fetched k off n dat) s =
     (if map_option (\<lambda>d. take n (drop off d)) (s k) = Some dat then Some s else None)"
| "perform family (Stored k off dat) s = map_option (\<lambda>d. s(k \<mapsto> written off dat d)) (s k)"
| "perform family (Resized k n) s = map_option (\<lambda>d. s(k \<mapsto> resize n d)) (s k)"
| "perform family (Opened k intent) s = map_option (\<lambda>d. s(k \<mapsto> d)) (after_open intent (s k))"
| "perform family (Removed k) s = Some (\<lambda>k'. if family k k' then None else s k')"

fun perform_all :: "('k \<Rightarrow> 'k \<Rightarrow> bool) \<Rightarrow> 'k file_action list \<Rightarrow> 'k store \<Rightarrow> 'k store option" where
  "perform_all family [] s = Some s"
| "perform_all family (a # acts) s = Option.bind (perform family a s) (perform_all family acts)"

lemma perform_all_append [simp]:
  "perform_all family (xs @ ys) s = Option.bind (perform_all family xs s) (perform_all family ys)"
  by (induction xs arbitrary: s) (auto split: Option.bind_splits)

text \<open>The actions that may change an entry.\<close>

fun touches :: "('k \<Rightarrow> 'k \<Rightarrow> bool) \<Rightarrow> 'k \<Rightarrow> 'k file_action \<Rightarrow> bool" where
  "touches family k (Stored k' _ _) = (k' = k)"
| "touches family k (Resized k' _) = (k' = k)"
| "touches family k (Opened k' intent) = (k' = k \<and> intent \<notin> {IntentOpen, IntentOpenOrCreate})"
| "touches family k (Removed k') = family k' k"
| "touches family k _ = False"

lemma perform_untouched:
  "perform family a s = Some s' \<Longrightarrow> \<not> touches family k a \<Longrightarrow> s k = Some d \<Longrightarrow> s' k = Some d"
  by (cases a) (auto split: if_splits elim: after_open.elims)

lemma perform_all_untouched:
  "perform_all family acts s = Some s' \<Longrightarrow> \<forall>a \<in> set acts. \<not> touches family k a \<Longrightarrow> s k = Some d \<Longrightarrow>
    s' k = Some d"
  by (induction acts arbitrary: s) (auto simp: Option.bind_eq_Some_conv dest: perform_untouched)

lemma written_part:
  assumes "n \<le> length dat"
  shows "take n (drop off (written off dat d)) = take n dat"
proof -
  have "take (length dat) (drop off (written off dat d)) = dat"
    using written_slice [of off dat d] by (simp add: slice_def)
  then have "take n (take (length dat) (drop off (written off dat d))) = take n dat" by simp
  with assms show ?thesis by (simp add: min_absorb1)
qed

text \<open>A store remembers what was stored until something touches it.\<close>

lemma store_remembers:
  assumes "perform_all family (pre @ Stored k off dat # mid @ Fetched k off n got # post) s = Some s'"
    and "\<forall>a \<in> set mid. \<not> touches family k a" and "n \<le> length dat"
  shows "got = take n dat"
proof -
  obtain s1 d s3 where s1: "s1 k = Some d"
      "perform_all family mid (s1(k \<mapsto> written off dat d)) = Some s3"
      "map_option (\<lambda>d. take n (drop off d)) (s3 k) = Some got"
    using assms(1) by (auto simp: Option.bind_eq_Some_conv split: if_splits)
  have "s3 k = Some (written off dat d)" using perform_all_untouched [OF s1(2) assms(2)] by simp
  with s1(3) written_part [OF assms(3)] show ?thesis by simp
qed

section \<open>The backends\<close>

text \<open>A handle that an open of a path with this key returned.\<close>

definition opened_at :: "'w backend \<Rightarrow> (smb_path \<Rightarrow> 'k) \<Rightarrow> 'w handle \<Rightarrow> 'k \<Rightarrow> bool" where
  "opened_at b key h k \<longleftrightarrow>
     (\<exists>p opts w w'. valid_path p \<and> key p = k \<and> be_open b p opts w = (Inr h, w'))"

lemma opened_at_by: "opened_at b key h k \<Longrightarrow> opened_by b h"
  unfolding opened_at_def opened_by_def by blast

lemma opened_atI: "valid_path p \<Longrightarrow> be_open b p opts w = (Inr h, w') \<Longrightarrow> opened_at b key h (key p)"
  unfolding opened_at_def by blast

text \<open>
  \<open>entry\<close> is the store that a world of the backend holds, \<open>key\<close> the entry that a path names.
\<close>

locale keyed_backend = share_backend b entry for b :: "'w backend" and entry :: "'w \<Rightarrow> 'k store" +
  fixes key :: "smb_path \<Rightarrow> 'k" and family :: "'k \<Rightarrow> 'k \<Rightarrow> bool"
  assumes open_refused: "be_open b p opts w = (Inl e, w') \<Longrightarrow> entry w' = entry w"
    and open_directory: "valid_path p \<Longrightarrow> be_open b p opts w = (Inr h, w') \<Longrightarrow> oo_directory opts \<Longrightarrow>
      stream p = None \<Longrightarrow> entry w' = entry w"
    and open_file: "valid_path p \<Longrightarrow> be_open b p opts w = (Inr h, w') \<Longrightarrow> \<not> oo_directory opts \<Longrightarrow>
      perform family (Opened (key p) (oo_intent opts)) (entry w) = Some (entry w')"
    and read_entry: "opened_at b key h k \<Longrightarrow> h_read h off n w = (Inr dat, w') \<Longrightarrow>
      perform family (Fetched k (unat off) (unat n) dat) (entry w) = Some (entry w')"
    and write_entry: "opened_at b key h k \<Longrightarrow> h_write h off dat w = (Inr n, w') \<Longrightarrow>
      perform family (Stored k (unat off) dat) (entry w) = Some (entry w')"
    and write_refused: "opened_by b h \<Longrightarrow> h_write h off dat w = (Inl e, w') \<Longrightarrow> entry w' = entry w"
    and truncate_entry: "opened_at b key h k \<Longrightarrow> h_truncate h len w = (Inr u, w') \<Longrightarrow>
      perform family (Resized k (unat len)) (entry w) = Some (entry w')"
    and truncate_refused: "opened_by b h \<Longrightarrow> h_truncate h len w = (Inl e, w') \<Longrightarrow> entry w' = entry w"
    and flush_entry: "opened_by b h \<Longrightarrow> entry (snd (h_flush h w)) = entry w"
    and times_entry: "opened_by b h \<Longrightarrow> entry (snd (h_set_times h tms w)) = entry w"
    and list_entry: "opened_by b h \<Longrightarrow> entry (snd (h_list_dir h pat w)) = entry w"
    and unlink_entry: "be_unlink b p w = (r, w') \<Longrightarrow>
      \<exists>a \<in> {Idle, Removed (key p)}. perform family a (entry w) = Some (entry w')"

section \<open>The in-memory backend\<close>

type_synonym mem_entry_name = "rstring \<times> rstring option"

definition mem_entry :: "mem_fs \<Rightarrow> mem_entry_name store" where
  "mem_entry g k = mem_data \<lparr>mh_key = fst k, mh_is_dir = False, mh_stream = snd k\<rparr> g"

definition mem_entry_key :: "smb_path \<Rightarrow> mem_entry_name" where
  "mem_entry_key p = (mem_key p, stream p)"

definition mem_family :: "mem_entry_name \<Rightarrow> mem_entry_name \<Rightarrow> bool" where
  "mem_family k k' \<longleftrightarrow> fst k' = fst k"

lemma mem_entry_data: "mem_entry g (mh_key m, mh_stream m) = mem_data m g"
  by (simp add: mem_entry_def mem_data_def split: option.split)

lemma mem_opened_at:
  assumes "opened_at memfs_backend mem_entry_key h k"
  shows "\<exists>m. h = mem_handle_of m \<and> (mh_key m, mh_stream m) = k"
proof -
  obtain p opts g g' where "mem_open p opts g = (Inr h, g')" "k = (mem_key p, stream p)"
    using assms by (auto simp: opened_at_def memfs_backend_def mem_entry_key_def)
  then show ?thesis
    by (auto simp: mem_open_def Let_def split: option.splits if_splits sum.splits)
qed

lemma mem_entry_store:
  "mem_entry (mem_store m dat g) = (mem_entry g)((mh_key m, mh_stream m) \<mapsto> dat)"
  by (auto simp: mem_entry_def mem_data_store fun_eq_iff)

lemma tbl_get_filter_keys:
  "tbl_get (filter (\<lambda>((fk, _), _). fk \<noteq> k) m) x = (if fst x = k then None else tbl_get m x)"
  by (induction m) (auto simp: tbl_get_def)

lemma apply_intent_table:
  "apply_intent intent k m = Inr m' \<Longrightarrow> \<exists>d. after_open intent (tbl_get m k) = Some d \<and>
    (\<forall>x. tbl_get m' x = (if x = k then Some d else tbl_get m x))"
  by (cases intent; cases "tbl_get m k") (auto simp: apply_intent_def Let_def split: if_splits)

lemma mem_open_entry:
  assumes "mem_open p opts g = (Inr h, g')"
  shows "oo_directory opts \<Longrightarrow> stream p = None \<Longrightarrow> mem_entry g' = mem_entry g"
    and "\<not> oo_directory opts \<Longrightarrow>
      perform fam (Opened (mem_entry_key p) (oo_intent opts)) (mem_entry g) = Some (mem_entry g')"
proof -
  show "mem_entry g' = mem_entry g" if "oo_directory opts" "stream p = None"
    using assms that
    by (auto simp: mem_open_def Let_def mem_entry_def mem_data_def fun_eq_iff
        split: if_splits option.splits)
  show "perform fam (Opened (mem_entry_key p) (oo_intent opts)) (mem_entry g) = Some (mem_entry g')"
    if "\<not> oo_directory opts"
    using assms that
    by (auto simp: mem_open_def Let_def mem_entry_def mem_data_def mem_entry_key_def fun_eq_iff
        split: if_splits option.splits sum.splits dest!: apply_intent_table)
qed

lemma mem_open_refused: "mem_open p opts g = (Inl e, g') \<Longrightarrow> g' = g"
  by (auto simp: mem_open_def Let_def split: if_splits option.splits sum.splits)

lemma mem_unlink_entry:
  "mem_unlink p g = (r, g') \<Longrightarrow> mem_entry g' = mem_entry g \<or>
    mem_entry g' = (\<lambda>k. if mem_family (mem_entry_key p) k then None else mem_entry g k)"
  by (auto simp: mem_unlink_def Let_def mem_entry_def mem_data_def mem_family_def mem_entry_key_def
      tbl_get_filter_keys fun_eq_iff split: if_splits option.splits)

lemma mem_read_entry:
  "mem_read m off n g = (Inr dat, g') \<Longrightarrow>
    g' = g \<and> map_option (\<lambda>d. take (unat n) (drop (unat off) d)) (mem_data m g) = Some dat"
  by (auto simp: mem_read_def Let_def slice_def min_def split: if_splits option.splits)

lemma mem_write_entry:
  assumes "mem_write m off dat g = (Inr n, g')"
  shows "map_option (\<lambda>d. mem_store m (written (unat off) dat d) g) (mem_data m g) = Some g'"
proof -
  obtain d where "\<not> mh_is_dir m" "mem_data m g = Some d"
    using assms by (auto simp: mem_write_def split: if_splits option.splits)
  with assms mem_write_eq [OF this, of off dat] show ?thesis by simp
qed

lemma mem_truncate_entry:
  "mem_truncate m len g = (Inr u, g') \<Longrightarrow>
    map_option (\<lambda>d. mem_store m (resize (unat len) d) g) (mem_data m g) = Some g'"
  by (auto simp: mem_truncate_def split: if_splits option.splits)

lemma mem_refused:
  "mem_write m off dat g = (Inl e, g') \<Longrightarrow> g' = g"
  "mem_truncate m len g = (Inl e, g') \<Longrightarrow> g' = g"
  "snd (mem_list_dir m pat g) = g"
  by (auto simp: mem_write_def mem_truncate_def mem_list_dir_def Let_def split: if_splits option.splits)

lemma mem_backend_simps [simp]:
  "be_open memfs_backend = mem_open" "be_unlink memfs_backend = mem_unlink"
  "h_read (mem_handle_of m) = mem_read m" "h_write (mem_handle_of m) = mem_write m"
  "h_truncate (mem_handle_of m) = mem_truncate m" "h_list_dir (mem_handle_of m) = mem_list_dir m"
  "h_flush (mem_handle_of m) g = (Inr (), g)" "h_set_times (mem_handle_of m) tms g = (Inr (), g)"
  by (simp_all add: memfs_backend_def mem_handle_of_def)

lemma mem_entry_backend: "share_backend memfs_backend mem_entry"
  using memfs.share_backend_axioms by (simp add: share_backend_def)

interpretation memfs_keyed: keyed_backend memfs_backend mem_entry mem_entry_key mem_family
proof (intro keyed_backend.intro keyed_backend_axioms.intro mem_entry_backend)
  fix p opts e h u r k off n dat len tms pat and g g' :: mem_fs
  show "be_open memfs_backend p opts g = (Inl e, g') \<Longrightarrow> mem_entry g' = mem_entry g"
    by (auto dest: mem_open_refused)
  show "be_open memfs_backend p opts g = (Inr h, g') \<Longrightarrow> oo_directory opts \<Longrightarrow> stream p = None \<Longrightarrow>
      mem_entry g' = mem_entry g"
    by (simp add: mem_open_entry(1))
  show "be_open memfs_backend p opts g = (Inr h, g') \<Longrightarrow> \<not> oo_directory opts \<Longrightarrow>
      perform mem_family (Opened (mem_entry_key p) (oo_intent opts)) (mem_entry g) = Some (mem_entry g')"
    using mem_open_entry(2) [of p opts g h g' mem_family] by simp
  show "opened_at memfs_backend mem_entry_key h k \<Longrightarrow> h_read h off n g = (Inr dat, g') \<Longrightarrow>
      perform mem_family (Fetched k (unat off) (unat n) dat) (mem_entry g) = Some (mem_entry g')"
    by (auto simp: mem_entry_data dest!: mem_opened_at mem_read_entry)
  show "opened_at memfs_backend mem_entry_key h k \<Longrightarrow> h_truncate h len g = (Inr u, g') \<Longrightarrow>
      perform mem_family (Resized k (unat len)) (mem_entry g) = Some (mem_entry g')"
    by (auto simp: mem_entry_data mem_entry_store dest!: mem_opened_at mem_truncate_entry)
  show "be_unlink memfs_backend p g = (r, g') \<Longrightarrow> \<exists>a \<in> {Idle, Removed (mem_entry_key p)}.
      perform mem_family a (mem_entry g) = Some (mem_entry g')"
    using mem_unlink_entry [of p g r g'] by auto
  show "opened_by memfs_backend h \<Longrightarrow> mem_entry (snd (h_flush h g)) = mem_entry g"
      "opened_by memfs_backend h \<Longrightarrow> mem_entry (snd (h_set_times h tms g)) = mem_entry g"
      "opened_by memfs_backend h \<Longrightarrow> mem_entry (snd (h_list_dir h pat g)) = mem_entry g"
      "opened_by memfs_backend h \<Longrightarrow> h_truncate h len g = (Inl e, g') \<Longrightarrow> mem_entry g' = mem_entry g"
    by (auto simp: mem_refused(3) dest: mem_refused(1,2) dest!: mem_opened)
next
  fix h k off dat n e and g g' :: mem_fs
  show "opened_at memfs_backend mem_entry_key h k \<Longrightarrow> h_write h off dat g = (Inr n, g') \<Longrightarrow>
      perform mem_family (Stored k (unat off) dat) (mem_entry g) = Some (mem_entry g')"
    by (auto simp: mem_entry_data mem_entry_store dest!: mem_opened_at mem_write_entry)
  show "opened_by memfs_backend h \<Longrightarrow> h_write h off dat g = (Inl e, g') \<Longrightarrow> mem_entry g' = mem_entry g"
    by (auto simp: mem_refused(3) dest: mem_refused(1,2) dest!: mem_opened)
qed

end
