(* ===== verification/File_Service.thy ===== *)
theory File_Service
  imports System Closing File_Store
begin

text \<open>
  The server as a service on the abstract store of \<open>File_Store\<close>: what the commands of
  \<open>src/src/handlers\<close> do to the store, in any sequence of requests of any number of connections,
  sessions and opens, and what the replies tell about it.
\<close>

section \<open>What a request may do to the store\<close>

definition open_key :: "(smb_path \<Rightarrow> 'k) \<Rightarrow> 'w connection \<Rightarrow> smb2_header \<Rightarrow> file_id \<Rightarrow> 'k option" where
  "open_key key c hdr fid =
     (case lookup_session_tree c hdr of
        Inl _ \<Rightarrow> None
      | Inr tree \<Rightarrow> map_option (\<lambda>op. key (open_last_path op)) (lookup_open tree fid))"

text \<open>A request on a connection and its reply.\<close>

type_synonym 'w exchange = "'w connection \<times> smb2_header \<times> bytes \<times> handler_response"

definition read_action :: "(smb_path \<Rightarrow> 'k) \<Rightarrow> 'w exchange \<Rightarrow> 'k file_action option" where
  "read_action key x =
     (case x of (c, hdr, body, resp) \<Rightarrow>
        Option.bind (read_request_parse body) (\<lambda>req.
        Option.bind (open_key key c hdr (rdq_file_id req)) (\<lambda>k.
        map_option (\<lambda>r. Fetched k (unat (rdq_offset req)) (unat (rdq_length req)) (rdr_data r))
          (read_response_parse (hr_body resp)))))"

definition write_action :: "(smb_path \<Rightarrow> 'k) \<Rightarrow> 'w exchange \<Rightarrow> 'k file_action option" where
  "write_action key x =
     (case x of (c, hdr, body, resp) \<Rightarrow>
        Option.bind (write_request_parse body) (\<lambda>req.
        map_option (\<lambda>k. Stored k (unat (wrq_offset req)) (wrq_data req))
          (open_key key c hdr (wrq_file_id req))))"

definition create_action :: "(smb_path \<Rightarrow> 'k) \<Rightarrow> 'w exchange \<Rightarrow> 'k file_action option" where
  "create_action key x =
     (case x of (c, hdr, body, resp) \<Rightarrow>
        Option.bind (create_request_parse body) (\<lambda>req.
        (case wire_path (crq_name req) of
           Inl _ \<Rightarrow> None
         | Inr path \<Rightarrow>
             if crq_create_options req AND FILE_DIRECTORY_FILE \<noteq> 0 then Some Idle
             else map_option (Opened (key path)) (intent_of (crq_create_disposition req)))))"

definition close_action :: "(smb_path \<Rightarrow> 'k) \<Rightarrow> 'w exchange \<Rightarrow> 'k file_action option" where
  "close_action key x =
     (case x of (c, hdr, body, resp) \<Rightarrow>
        Option.bind (close_request_parse body) (\<lambda>req.
        (case lookup_session_tree c hdr of
           Inl _ \<Rightarrow> None
         | Inr tree \<Rightarrow>
             Option.bind (lookup_open tree (clq_file_id req)) (\<lambda>op.
               if open_delete_on_close op then Some (Removed (key (open_last_path op))) else None))))"

definition resize_action :: "(smb_path \<Rightarrow> 'k) \<Rightarrow> 'w exchange \<Rightarrow> 'k file_action option" where
  "resize_action key x =
     (case x of (c, hdr, body, resp) \<Rightarrow>
        Option.bind (set_info_request_parse body) (\<lambda>req.
          if siq_file_information_class req = FILE_END_OF_FILE_INFORMATION
          then map_option (\<lambda>k. Resized k (unat (de64 (slice 0 8 (siq_buffer req)))))
            (open_key key c hdr (siq_file_id req))
          else Some Idle))"

text \<open>
  The actions that a request may stand for, given its reply: a successful READ or WRITE is exactly
  the fetching or storing it asks for, a failed one is nothing; a CREATE opens, and may have done so
  even when it fails after the backend's open; a CLOSE of an open marked for deletion removes, unless
  the backend refuses.
\<close>

definition possible_actions :: "(smb_path \<Rightarrow> 'k) \<Rightarrow> 'w exchange \<Rightarrow> 'k file_action list" where
  "possible_actions key x =
     (case x of (c, hdr, body, resp) \<Rightarrow>
        let ok = (hr_status resp = STATUS_SUCCESS);
            exactly = (\<lambda>a. case a of None \<Rightarrow> [] | Some a \<Rightarrow> [a])
        in case hdr_command hdr of
             Read \<Rightarrow> if ok then exactly (read_action key x) else [Idle]
           | Write \<Rightarrow> if ok then exactly (write_action key x) else [Idle]
           | Create \<Rightarrow> if ok then exactly (create_action key x)
                       else Idle # exactly (create_action key x)
           | Close \<Rightarrow> if ok then Idle # exactly (close_action key x) else [Idle]
           | SetInfo \<Rightarrow> if ok then exactly (resize_action key x) else [Idle]
           | _ \<Rightarrow> [Idle])"

text \<open>A SET_INFO that renames, which the store has no action for.\<close>

definition renames :: "smb2_header \<Rightarrow> bytes \<Rightarrow> bool" where
  "renames hdr body \<longleftrightarrow> hdr_command hdr = SetInfo \<and>
     (case set_info_request_parse body of
        None \<Rightarrow> False
      | Some req \<Rightarrow> siq_file_information_class req = FILE_RENAME_INFORMATION)"

section \<open>The trees of a connection\<close>

definition held :: "('w tree_connect \<Rightarrow> bool) \<Rightarrow> 'w connection \<Rightarrow> bool" where
  "held P c \<longleftrightarrow> (\<forall>sid s tid t. tbl_get (conn_sessions c) sid = Some s \<longrightarrow>
     tbl_get (sess_trees s) tid = Some t \<longrightarrow> P t)"

lemma heldD: "held P c \<Longrightarrow> lookup_session_tree c hdr = Inr t \<Longrightarrow> P t"
  by (auto simp: held_def lookup_session_tree_Inr)

lemma held_new [simp]: "held P (connection_new i g r w)"
  by (simp add: held_def connection_new_def tbl_get_def)

lemma held_cong: "conn_sessions c' = conn_sessions c \<Longrightarrow> held P c' = held P c"
  by (simp add: held_def)

lemma session_new_trees [simp]: "tbl_get (sess_trees (session_new i who k sk req snap)) tid = None"
  by (simp add: session_new_def tbl_get_def)

lemma held_fewer: "fewer c c' \<Longrightarrow> held P c \<Longrightarrow> held P c'"
  unfolding held_def fewer_def by metis

lemma held_put_session:
  "held P c \<Longrightarrow> (\<And>tid t. tbl_get (sess_trees s) tid = Some t \<Longrightarrow> P t) \<Longrightarrow>
    held P (c\<lparr>conn_sessions := tbl_insert sid s (conn_sessions c)\<rparr>)"
  by (auto simp: held_def split: if_splits)

lemma held_update_session:
  assumes "held P c"
    and "\<And>s tid t. tbl_get (conn_sessions c) sid = Some s \<Longrightarrow> tbl_get (sess_trees (f s)) tid = Some t \<Longrightarrow> P t"
  shows "held P (update_session sid f c)"
  using assms by (auto simp: held_def split: if_splits)

lemma held_update_tree:
  assumes "held P c" and "\<And>t. P t \<Longrightarrow> P (f t)"
  shows "held P (update_tree hdr f c)"
  using assms
  by (auto simp: held_def update_tree_get split: if_splits option.splits)

text \<open>The tree is on this backend, or on the synthetic share, and its handles go by their names.\<close>

definition tree_stores :: "'w backend \<Rightarrow> (smb_path \<Rightarrow> 'k) \<Rightarrow> 'w tree_connect \<Rightarrow> bool" where
  "tree_stores b key t \<longleftrightarrow> sb_backend (tree_share t) \<in> {b, not_supported_backend} \<and>
     (\<forall>fid op h. tbl_get (tree_opens t) fid = Some op \<longrightarrow> open_handle op = Some h \<longrightarrow>
        opened_at b key h (key (open_last_path op)))"

lemma tree_stores_open:
  "tree_stores b key t \<Longrightarrow> lookup_open t fid = Some op \<Longrightarrow> open_handle op = Some h \<Longrightarrow>
    opened_at b key h (key (open_last_path op))"
  by (auto simp: tree_stores_def lookup_open_def)

lemma tree_stores_new:
  "sb_backend share \<in> {b, not_supported_backend} \<Longrightarrow> tree_stores b key (tree_connect_new tid share a)"
  by (simp add: tree_stores_def tree_connect_new_def tbl_get_def)

lemma tree_stores_remove:
  "tree_stores b key t \<Longrightarrow> tree_stores b key (t\<lparr>tree_opens := tbl_remove fid (tree_opens t)\<rparr>)"
  by (auto simp: tree_stores_def split: if_splits)

lemma tree_stores_put:
  "tree_stores b key t \<Longrightarrow>
    (\<And>h. open_handle op = Some h \<Longrightarrow> opened_at b key h (key (open_last_path op))) \<Longrightarrow>
    tree_stores b key (t\<lparr>tree_opens := tbl_insert fid op (tree_opens t)\<rparr>)"
  by (auto simp: tree_stores_def split: if_splits)

lemma tree_stores_register:
  "tree_stores b key t \<Longrightarrow> opened_at b key h (key path) \<Longrightarrow>
    tree_stores b key (register_open h granted path d delete t)"
  by (auto simp: register_open_def alloc_file_id_def open_new_def tree_stores_def Let_def
      split: if_splits)

text \<open>An update of an open that leaves its handle and its path alone.\<close>

lemma held_update_open:
  assumes "held (tree_stores b key) c"
    and "\<And>op. open_handle (f op) = open_handle op \<and> open_last_path (f op) = open_last_path op"
  shows "held (tree_stores b key) (update_open hdr fid f c)"
  unfolding update_open_def
proof (rule held_update_tree [OF assms(1)])
  fix t assume t: "tree_stores b key t"
  show "tree_stores b key (case tbl_get (tree_opens t) fid of None \<Rightarrow> t
      | Some op \<Rightarrow> t\<lparr>tree_opens := tbl_insert fid (f op) (tree_opens t)\<rparr>)"
    using t assms(2) by (auto intro!: tree_stores_put simp: tree_stores_def split: option.split)
qed

text \<open>All the storage of a server is one backend.\<close>

definition one_backend :: "'w backend \<Rightarrow> 'w server \<Rightarrow> bool" where
  "one_backend b srv \<longleftrightarrow> (\<forall>(name, share) \<in> set (srv_shares srv). sb_backend share = b)"

lemma one_backend_find: "one_backend b srv \<Longrightarrow> find_share srv name = Some share \<Longrightarrow> sb_backend share = b"
  by (auto simp: one_backend_def find_share_def shares_find_def dest!: tbl_get_in)

section \<open>The handlers\<close>

text \<open>An outcome that leaves the store and the names of the handles alone.\<close>

definition leaves_store :: "('w \<Rightarrow> 'k store) \<Rightarrow> ('w tree_connect \<Rightarrow> bool) \<Rightarrow> 'w st \<Rightarrow> 'w handled \<Rightarrow> bool" where
  "leaves_store entry P st outcome \<longleftrightarrow> held P (st_conn (snd outcome)) \<and>
     entry (st_world (snd outcome)) = entry (st_world st)"

lemma leaves_store_return:
  "held P (st_conn st') \<Longrightarrow> entry (st_world st') = entry (st_world st) \<Longrightarrow> leaves_store entry P st (resp, st')"
  by (simp add: leaves_store_def)

lemma leaves_store_or_fail:
  "held P (st_conn st') \<Longrightarrow> entry (st_world st') = entry (st_world st) \<Longrightarrow>
    (\<And>x. r = Inr x \<Longrightarrow> leaves_store entry P st (f x)) \<Longrightarrow> leaves_store entry P st (or_fail r st' f)"
  by (cases r) (simp_all add: leaves_store_def)

lemma leaves_store_or_panic:
  "held P (st_conn st') \<Longrightarrow> entry (st_world st') = entry (st_world st) \<Longrightarrow>
    (\<And>x. p = Some x \<Longrightarrow> leaves_store entry P st (f x)) \<Longrightarrow> leaves_store entry P st (or_panic p st' f)"
  by (cases p) (simp_all add: leaves_store_def)

lemmas leaves_intros = leaves_store_or_fail leaves_store_or_panic leaves_store_return

text \<open>A reply and a state that one of the possible actions explains.\<close>

definition explained ::
    "('w \<Rightarrow> 'k store) \<Rightarrow> ('k \<Rightarrow> 'k \<Rightarrow> bool) \<Rightarrow> ('w tree_connect \<Rightarrow> bool) \<Rightarrow> 'k file_action list \<Rightarrow>
     'w st \<Rightarrow> 'w st \<Rightarrow> bool" where
  "explained entry family P acts st st' \<longleftrightarrow> held P (st_conn st') \<and>
     (\<exists>a \<in> set acts. perform family a (entry (st_world st)) = Some (entry (st_world st')))"

lemma explained_leaves_store:
  "leaves_store entry P st (resp, st') \<Longrightarrow> Idle \<in> set acts \<Longrightarrow> explained entry family P acts st st'"
  by (auto simp: leaves_store_def explained_def intro: bexI [of _ Idle])

context keyed_backend
begin

lemma handle_quiet:
  assumes "opened_at b key h k"
  shows "entry (snd (h_read h off n w)) = entry w" "entry (snd (h_stat h w)) = entry w"
    "entry (snd (h_close h w)) = entry w" "entry (snd (h_flush h w)) = entry w"
    "entry (snd (h_set_times h tms w)) = entry w" "entry (snd (h_list_dir h pat w)) = entry w"
  using opened_at_by [OF assms]
  by (simp_all add: read_view stat_view close_view flush_entry times_entry list_entry)

lemma looked_up:
  "held (tree_stores b key) c \<Longrightarrow> lookup_session_tree c hdr = Inr t \<Longrightarrow> lookup_open t fid = Some op \<Longrightarrow>
    open_handle op = Some h \<Longrightarrow> opened_at b key h (key (open_last_path op))"
  by (blast intro: tree_stores_open dest: heldD)

lemma read_quiet:
  "held (tree_stores b key) (st_conn st) \<Longrightarrow>
    leaves_store entry (tree_stores b key) st (handle_read srv hdr body st)"
  unfolding handle_read_def
  by (auto simp: Let_def case_prod_unfold handle_quiet(1) [OF looked_up]
      intro!: leaves_intros)

lemma flush_quiet:
  "held (tree_stores b key) (st_conn st) \<Longrightarrow>
    leaves_store entry (tree_stores b key) st (handle_flush srv hdr body st)"
  unfolding handle_flush_def
  by (auto simp: Let_def case_prod_unfold handle_quiet(4) [OF looked_up]
      intro!: leaves_intros)

lemma query_info_quiet:
  "held (tree_stores b key) (st_conn st) \<Longrightarrow>
    leaves_store entry (tree_stores b key) st (handle_query_info srv hdr body st)"
  unfolding handle_query_info_def
  by (auto simp: Let_def case_prod_unfold handle_quiet(2) [OF looked_up]
      intro!: leaves_intros)

lemma query_directory_quiet:
  assumes "held (tree_stores b key) (st_conn st)"
  shows "leaves_store entry (tree_stores b key) st (handle_query_directory srv hdr body st)"
proof -
  have cursor: "entry (st_world (snd (refresh_cursor pat restart op st))) = entry (st_world st)"
      "st_conn (snd (refresh_cursor pat restart op st)) = st_conn st"
    if "lookup_session_tree (st_conn st) hdr = Inr t" "lookup_open t fid = Some op"
    for pat restart op t fid
    using looked_up [OF assms that] handle_quiet(6)
    by (auto simp: refresh_cursor_def case_prod_unfold split: option.splits bool.splits)
  show ?thesis
    unfolding handle_query_directory_def
    using assms
    by (auto simp: Let_def case_prod_unfold cursor intro!: leaves_intros held_update_open)
qed

text \<open>Closing a tree or a session closes handles that go by their names.\<close>

lemma run_closes_entry:
  "(\<And>h. h \<in> set hs \<Longrightarrow> opened_by b h) \<Longrightarrow> entry (run_closes hs w) = entry w"
  unfolding run_closes_def using closes_view by blast

lemma tree_handles_opened:
  assumes "tree_stores b key t" and "tbl_ok (tree_opens t)" and "h \<in> set (tree_handles t)"
  shows "opened_by b h"
proof -
  obtain fid op where "(fid, op) \<in> set (tree_opens t)" "open_handle op = Some h"
    using assms(3) by (auto simp: tree_handles_def List.map_filter_def)
  with assms(1) tbl_in_get [OF assms(2)] show ?thesis
    unfolding tree_stores_def by (blast dest: opened_at_by)
qed

lemma conn_handles_opened:
  assumes held: "held (tree_stores b key) c" and ok: "conn_ok c" and "h \<in> conn_handles c"
  shows "opened_by b h"
proof -
  obtain sid s tid t where in_tables: "(sid, s) \<in> set (conn_sessions c)"
      "(tid, t) \<in> set (sess_trees s)" "h \<in> set (tree_handles t)"
    using assms(3) by (auto simp: conn_handles_def trees_handles_def)
  have s: "tbl_get (conn_sessions c) sid = Some s"
    using ok in_tables(1) by (auto simp: conn_ok_def dest: tbl_all_ok intro: tbl_in_get)
  note s_ok = conn_ok_sessions [OF ok s]
  have t: "tbl_get (sess_trees s) tid = Some t"
    using s_ok in_tables(2) by (auto simp: session_ok_def dest: tbl_all_ok intro: tbl_in_get)
  have "tree_stores b key t" using held s t unfolding held_def by blast
  moreover have "tbl_ok (tree_opens t)"
    using session_ok_trees [OF s_ok t] by (auto simp: tree_ok_def dest: tbl_all_ok)
  ultimately show ?thesis using in_tables(3) by (rule tree_handles_opened)
qed

lemma closed_quiet:
  "held (tree_stores b key) c \<Longrightarrow> conn_ok c \<Longrightarrow> only_closes (conn_handles c) w w' \<Longrightarrow>
    entry w' = entry w"
  unfolding only_closes_def by (blast intro: run_closes_entry conn_handles_opened)

lemma close_tree_quiet:
  assumes "held (tree_stores b key) c" and "conn_ok c" and "close_tree sid tid c w = (r, c', w')"
  shows "held (tree_stores b key) c' \<and> entry w' = entry w"
  using held_fewer [OF close_tree_fewer [OF assms(3)] assms(1)]
    closed_quiet [OF assms(1,2) close_tree_closes [OF assms(3)]] by simp

lemma close_session_quiet:
  assumes "held (tree_stores b key) c" and "conn_ok c" and "close_session sid c w = (r, c', w')"
  shows "held (tree_stores b key) c' \<and> entry w' = entry w"
  using held_fewer [OF close_session_fewer [OF assms(3)] assms(1)]
    closed_quiet [OF assms(1,2) close_session_closes(1) [OF assms(3)]] by simp

lemma logoff_quiet:
  assumes "held (tree_stores b key) (st_conn st)" and "conn_ok (st_conn st)"
  shows "leaves_store entry (tree_stores b key) st (handle_logoff srv hdr body st)"
  using assms close_session_quiet [OF assms]
  by (auto simp: handle_logoff_def Let_def split: prod.split intro!: leaves_store_return)

lemma tree_disconnect_quiet:
  assumes "held (tree_stores b key) (st_conn st)" and "conn_ok (st_conn st)"
  shows "leaves_store entry (tree_stores b key) st (handle_tree_disconnect srv hdr body st)"
  unfolding handle_tree_disconnect_def
  using assms close_tree_quiet [OF assms]
  by (auto simp: Let_def split: prod.split sum.split intro!: leaves_intros)

lemma negotiate_quiet:
  "held (tree_stores b key) (st_conn st) \<Longrightarrow>
    leaves_store entry (tree_stores b key) st (handle_negotiate srv hdr body st)"
  unfolding handle_negotiate_def negotiate_contexts_def
  by (auto simp: Let_def case_prod_unfold held_def intro!: leaves_intros)

lemma session_setup_quiet:
  "held (tree_stores b key) (st_conn st) \<Longrightarrow>
    leaves_store entry (tree_stores b key) st (handle_session_setup srv hdr body st)"
  unfolding handle_session_setup_def setup_first_def setup_second_def alloc_session_id_def
  by (auto simp: Let_def case_prod_unfold held_def
      intro!: leaves_intros split: sum.split option.split if_splits)

lemma tree_connect_quiet:
  assumes "held (tree_stores b key) (st_conn st)"
    and "one_backend b srv"
  shows "leaves_store entry (tree_stores b key) st (handle_tree_connect srv hdr body st)"
proof -
  have share: "sb_backend share \<in> {b, not_supported_backend}"
    if "share_for srv name = Some share" for name share
    using that one_backend_find [OF assms(2)]
    by (auto simp: share_for_def ipc_share_def share_bindings_new_def split: if_splits)
  have "held (tree_stores b key) (update_session sid (\<lambda>_. s1\<lparr>sess_trees :=
      tbl_insert tid (tree_connect_new tid share a) (sess_trees s1)\<rparr>) (st_conn st))"
    if "lookup_session (st_conn st) sid = Inr s" "alloc_tree_id s = (tid, s1)"
      "share_for srv name = Some share" for sid s s1 tid share a name
    using assms(1) that(1,2) tree_stores_new [OF share [OF that(3)], of key tid a]
    by (intro held_update_session [OF assms(1)])
      (auto simp: held_def lookup_session_Inr alloc_tree_id_def split: if_splits)
  then show ?thesis
    unfolding handle_tree_connect_def using assms(1)
    by (auto simp: Let_def split: prod.split intro!: leaves_intros)
qed

lemma handlers_quiet:
  assumes "held (tree_stores b key) (st_conn st)" and "conn_ok (st_conn st)"
    and "one_backend b srv"
    and "hdr_command hdr \<notin> {Create, Write, Close, SetInfo}"
  shows "leaves_store entry (tree_stores b key) st (dispatch_command srv hdr body st)"
  unfolding dispatch_command_def
  using assms read_quiet flush_quiet query_info_quiet query_directory_quiet logoff_quiet
    tree_disconnect_quiet negotiate_quiet session_setup_quiet tree_connect_quiet
  by (auto simp: handle_echo_def handle_lock_def handle_oplock_break_def handle_change_notify_def
      handle_ioctl_def Let_def split: command.split fsctl.splits intro!: leaves_intros)

text \<open>The file handlers that change the store.\<close>

lemma read_explained:
  assumes held: "held (tree_stores b key) (st_conn st)" and "hdr_command hdr = Read"
    and run: "handle_read srv hdr body st = (resp, st')"
  shows "explained entry family (tree_stores b key) (possible_actions key (st_conn st, hdr, body, resp))
    st st'"
proof (cases "hr_status resp = STATUS_SUCCESS")
  case True
  note q = read_quiet [OF held, of srv hdr body, unfolded run]
  obtain tree where t: "lookup_session_tree (st_conn st) hdr = Inr tree"
    using run True lookup_fails(2) [of "st_conn st" hdr]
    by (cases "lookup_session_tree (st_conn st) hdr")
      (auto simp: handle_read_def split: if_splits dest!: or_fail_success)
  obtain req op h dat where req: "read_request_parse body = Some req"
      and op: "lookup_open tree (rdq_file_id req) = Some op" "open_handle op = Some h"
      and r: "h_read h (rdq_offset req) (rdq_length req) (st_world st) = (Inr dat, st_world st')"
      and resp: "resp = response_ok (put_read_response (read_response_for dat))"
    using handle_read_ok [OF t run True] by metis
  note at = looked_up [OF held t op]
  have "length dat < 2 ^ 32" using read_length [OF opened_at_by [OF at] r] .
  then have "rdr_data (the (read_response_parse (hr_body resp))) = dat"
      "read_response_parse (hr_body resp) \<noteq> None"
    by (simp_all add: resp read_response_parse_for rdr_data_for)
  then have "possible_actions key (st_conn st, hdr, body, resp)
      = [Fetched (key (open_last_path op)) (unat (rdq_offset req)) (unat (rdq_length req)) dat]"
    using assms(2) True req t op(1)
    by (auto simp: possible_actions_def read_action_def open_key_def Let_def)
  with read_entry [OF at r] q show ?thesis by (simp add: explained_def leaves_store_def)
next
  case False
  with explained_leaves_store [OF read_quiet [OF held, of srv hdr body, unfolded run]] assms(2)
  show ?thesis by (simp add: possible_actions_def Let_def)
qed

lemma io_failed: "io_status r = Inl s \<longleftrightarrow> (\<exists>e. r = Inl e \<and> s = to_nt_status e)"
  by (cases r) auto

lemma write_failed:
  assumes "held (tree_stores b key) (st_conn st)" and "handle_write srv hdr body st = (resp, st')"
    and "hr_status resp \<noteq> STATUS_SUCCESS"
  shows "leaves_store entry (tree_stores b key) st (resp, st')"
  using assms write_refused [OF opened_at_by [OF looked_up [OF assms(1)]]]
  unfolding handle_write_def
  by (auto simp: Let_def run_io_def leaves_store_def io_failed split: prod.splits if_splits elim!: or_fail_cases)

lemma write_explained:
  assumes held: "held (tree_stores b key) (st_conn st)" and "hdr_command hdr = Write"
    and run: "handle_write srv hdr body st = (resp, st')"
  shows "explained entry family (tree_stores b key) (possible_actions key (st_conn st, hdr, body, resp))
    st st'"
proof (cases "hr_status resp = STATUS_SUCCESS")
  case True
  obtain req tree where req: "write_request_parse body = Some req"
      and t: "lookup_session_tree (st_conn st) hdr = Inr tree"
    using run True unfolding handle_write_def
    by (auto simp: Let_def split: if_splits dest!: or_fail_success)
  obtain op h n where op: "lookup_open tree (wrq_file_id req) = Some op" "open_handle op = Some h"
      and w: "h_write h (wrq_offset req) (wrq_data req) (st_world st) = (Inr n, st_world st')"
      and c: "st_conn st' = st_conn st"
    using handle_write_ran [OF t req run True] by metis
  have "possible_actions key (st_conn st, hdr, body, resp)
      = [Stored (key (open_last_path op)) (unat (wrq_offset req)) (wrq_data req)]"
    using assms(2) True req t op(1)
    by (simp add: possible_actions_def write_action_def open_key_def Let_def)
  with write_entry [OF looked_up [OF held t op] w] held c show ?thesis by (simp add: explained_def)
next
  case False
  with explained_leaves_store [OF write_failed [OF held run False]] assms(2)
  show ?thesis by (simp add: possible_actions_def Let_def)
qed

text \<open>CREATE: the open of the backend, which the later steps of the handler do not take back.\<close>

lemma create_opened:
  fixes c :: "'w connection"
  assumes t: "tree_stores b key tree" and "valid_path path"
    and opts: "create_options_for g path req = Inr opts" and "wire_path (crq_name req) = Inr path"
    and "create_request_parse body = Some req"
    and run: "be_open (sb_backend (tree_share tree)) path opts w = (Inr h, w1)"
  shows "sb_backend (tree_share tree) = b"
    "\<exists>a. create_action key (c, hdr, body, resp) = Some a \<and> perform family a (entry w) = Some (entry w1)"
proof -
  show b: "sb_backend (tree_share tree) = b"
    using t run by (auto simp: tree_stores_def not_supported_backend_def)
  have o': "intent_of (crq_create_disposition req) = Some (oo_intent opts)"
      "oo_directory opts \<longleftrightarrow> crq_create_options req AND FILE_DIRECTORY_FILE \<noteq> 0"
      "oo_directory opts \<Longrightarrow> stream path = None"
    using opts by (auto simp: create_options_for_def attempt_eq_Inr Let_def split: if_splits)
  show "\<exists>a. create_action key (c, hdr, body, resp) = Some a \<and> perform family a (entry w) = Some (entry w1)"
  proof (cases "oo_directory opts")
    case True
    with open_directory [OF assms(2) run [unfolded b]] o' assms(4,5) show ?thesis
      by (auto simp: create_action_def)
  next
    case False
    with open_file [OF assms(2) run [unfolded b]] o' assms(4,5) show ?thesis
      by (auto simp: create_action_def)
  qed
qed

lemma create_passed:
  assumes "handle_create srv hdr body st = (resp, st')" and "hr_status resp = STATUS_SUCCESS"
  obtains req path opts and tree :: "'w tree_connect" where
    "create_request_parse body = Some req" "lookup_session_tree (st_conn st) hdr = Inr tree"
    "wire_path (crq_name req) = Inr path"
    "create_options_for (tree_granted_access tree) path req = Inr opts"
  using assms unfolding handle_create_def by (fastforce dest!: or_fail_success)

lemma create_ran:
  fixes tree :: "'w tree_connect"
  assumes held: "held (tree_stores b key) (st_conn st)"
    and req: "create_request_parse body = Some req"
    and tree: "lookup_session_tree (st_conn st) hdr = Inr tree"
    and path: "wire_path (crq_name req) = Inr path"
    and opts: "create_options_for (tree_granted_access tree) path req = Inr opts"
    and opened: "be_open (sb_backend (tree_share tree)) path opts (st_world st) = (r, w1)"
    and run: "handle_create srv hdr body st = (resp, st')"
  shows "entry (st_world st') = entry w1" and "held (tree_stores b key) (st_conn st')"
    and "r = Inl e \<Longrightarrow> resp = response_err (to_nt_status e) \<and> st_conn st' = st_conn st"
proof -
  show "r = Inl e \<Longrightarrow> resp = response_err (to_nt_status e) \<and> st_conn st' = st_conn st"
    using run req tree path opts opened
    by (auto simp: handle_create_def run_io_def Let_def record_create_trace_def)
  have "entry (st_world st') = entry w1 \<and> held (tree_stores b key) (st_conn st')"
  proof (cases r)
    case (Inl e)
    with run req tree path opts opened held show ?thesis
      by (auto simp: handle_create_def run_io_def Let_def record_create_trace_def)
  next
    case (Inr h)
    note opened = opened [unfolded Inr]
    have b: "sb_backend (tree_share tree) = b"
      using create_opened(1) [OF heldD [OF held tree] wire_path_valid [OF path] opts path req opened] .
    have at: "opened_at b key h (key path)"
      using opened [unfolded b] by (rule opened_atI [OF wire_path_valid [OF path]])
    show ?thesis
      using run req tree path opts opened held handle_quiet(2,3) [OF at]
      by (auto simp: handle_create_def run_io_def Let_def record_create_trace_def case_prod_unfold
          at split: sum.splits intro!: held_update_tree tree_stores_register)
  qed
  then show "entry (st_world st') = entry w1" and "held (tree_stores b key) (st_conn st')" by simp_all
qed

lemma create_explained:
  assumes held: "held (tree_stores b key) (st_conn st)" and cmd: "hdr_command hdr = Create"
    and run: "handle_create srv hdr body st = (resp, st')"
  shows "explained entry family (tree_stores b key) (possible_actions key (st_conn st, hdr, body, resp))
    st st'"
proof -
  have quit: "explained entry family (tree_stores b key)
      (possible_actions key (st_conn st, hdr, body, response_err s)) st st2"
    if "s \<noteq> STATUS_SUCCESS" "st_conn st2 = st_conn st" "entry (st_world st2) = entry (st_world st)" for s st2
    using that held cmd by (auto simp: explained_def possible_actions_def Let_def)
  show ?thesis
    using run unfolding handle_create_def
  proof (elim or_fail_cases)
    fix req path opts and tree :: "'w tree_connect"
    assume req: "or_status STATUS_INVALID_PARAMETER (create_request_parse body) = Inr req"
      and tree: "lookup_session_tree (st_conn st) hdr = Inr tree"
      and path: "wire_path (crq_name req) = Inr path"
      and opts: "create_options_for (tree_granted_access tree) path req = Inr opts"
    have t: "tree_stores b key tree" using heldD [OF held tree] .
    obtain r w1 where opened: "be_open (sb_backend (tree_share tree)) path opts (st_world st) = (r, w1)"
      by fastforce
    note ran = create_ran [OF held req [unfolded or_status_eq] tree path opts opened run]
    show ?thesis
    proof (cases r)
      case (Inl e)
      then have "entry w1 = entry (st_world st)"
        using t opened open_refused by (auto simp: tree_stores_def not_supported_backend_def)
      then show ?thesis using quit [of "to_nt_status e" st'] ran(1) ran(3) [OF Inl] by simp
    next
      case (Inr h)
      obtain a where "create_action key (st_conn st, hdr, body, resp) = Some a"
          "perform family a (entry (st_world st)) = Some (entry w1)"
        using create_opened(2) [OF t wire_path_valid [OF path] opts path req [unfolded or_status_eq]
            opened [unfolded Inr]] by blast
      moreover from this(1) have "a \<in> set (possible_actions key (st_conn st, hdr, body, resp))"
        using cmd by (simp add: possible_actions_def Let_def)
      ultimately show ?thesis using ran(1,2) by (auto simp: explained_def)
    qed
  qed (use run in \<open>auto intro!: quit elim: create_passed\<close>)
qed

lemma close_explained:
  assumes held: "held (tree_stores b key) (st_conn st)" and cmd: "hdr_command hdr = Close"
    and run: "handle_close srv hdr body st = (resp, st')"
  shows "explained entry family (tree_stores b key) (possible_actions key (st_conn st, hdr, body, resp))
    st st'"
  using run unfolding handle_close_def
proof (elim or_fail_cases)
  fix req op and tree :: "'w tree_connect"
  assume req: "or_status STATUS_INVALID_PARAMETER (close_request_parse body) = Inr req"
    and tree: "lookup_session_tree (st_conn st) hdr = Inr tree"
    and op: "or_status STATUS_FILE_CLOSED (lookup_open tree (clq_file_id req)) = Inr op"
  define st1 where "st1 = record_event srv (CloseEvent (file_id_bytes (clq_file_id req))
    (open_delete_on_close op) (display_backslash (open_last_path op)))
    (put_conn (update_tree hdr (\<lambda>t. t\<lparr>tree_opens := tbl_remove (clq_file_id req) (tree_opens t)\<rparr>)
      (st_conn st)) st)"
  define st3 where "st3 = close_handle (open_handle op) (snd (stat_for_close
    (clq_flags req AND FLAG_POSTQUERY_ATTRIB \<noteq> 0) (open_handle op) st1))"
  let ?unlink = "be_unlink (sb_backend (tree_share tree)) (open_last_path op)"
  have st': "st' = (if open_delete_on_close op then snd (run_io ?unlink st3) else st3)"
      "hr_status resp = STATUS_SUCCESS"
    using run req tree op by (auto simp: handle_close_def Let_def case_prod_unfold st1_def st3_def)
  have held1: "held (tree_stores b key) (st_conn st1)"
    using held by (auto simp: st1_def intro: held_update_tree tree_stores_remove)
  have at: "opened_at b key h (key (open_last_path op))" if "open_handle op = Some h" for h
    using looked_up [OF held tree] op that by simp
  have st3: "st_conn st3 = st_conn st1" "entry (st_world st3) = entry (st_world st)"
    using handle_quiet(2,3) [OF at]
    by (auto simp: st3_def st1_def close_handle_def stat_for_close_def case_prod_unfold
        split: option.splits bool.splits)
  have acts: "possible_actions key (st_conn st, hdr, body, resp)
      = Idle # (if open_delete_on_close op then [Removed (key (open_last_path op))] else [])"
    using cmd st'(2) req tree op by (simp add: possible_actions_def close_action_def Let_def)
  have t: "tree_stores b key tree" using heldD [OF held tree] .
  have "\<exists>a \<in> {Idle, Removed (key (open_last_path op))}.
      perform family a (entry w) = Some (entry (snd (?unlink w)))" for w
  proof (cases "sb_backend (tree_share tree) = b")
    case True
    with unlink_entry [of "open_last_path op" w] show ?thesis by (metis prod.collapse)
  next
    case False
    with t show ?thesis by (simp add: tree_stores_def not_supported_backend_def)
  qed
  from this [of "st_world st3"] st' st3 held1 acts show ?thesis
    by (auto simp: explained_def)
qed (use held cmd in \<open>auto simp: explained_def possible_actions_def Let_def\<close>)

lemma truncate_ran:
  assumes "opened_at b key h k" and "run_io (h_truncate h len) st = (r, st2)"
  shows "st_conn st2 = st_conn st"
    "r = Inr () \<Longrightarrow> perform family (Resized k (unat len)) (entry (st_world st)) = Some (entry (st_world st2))"
    "r \<noteq> Inr () \<Longrightarrow> entry (st_world st2) = entry (st_world st)"
  using run_ioD [OF assms(2)] truncate_entry [OF assms(1)] truncate_refused [OF opened_at_by [OF assms(1)]]
  by (cases r; fastforce)+

lemma finish_st: "snd (finish_set_info r st') = st'" "hr_status (fst (finish_set_info r st')) = STATUS_SUCCESS \<longleftrightarrow> r = Inr ()"
  by (cases r; simp add: finish_set_info_def)+

lemma set_info_quiet:
  assumes held: "held (tree_stores b key) (st_conn st)" and "set_info_request_parse body = Some req"
    and "siq_file_information_class req \<notin> {FILE_RENAME_INFORMATION, FILE_END_OF_FILE_INFORMATION}"
  shows "leaves_store entry (tree_stores b key) st (handle_set_info srv hdr body st)"
proof -
  have finish: "held (tree_stores b key) (st_conn st2) \<Longrightarrow> entry (st_world st2) = entry (st_world st) \<Longrightarrow>
      leaves_store entry (tree_stores b key) st (finish_set_info r st2)" for r st2
    by (simp add: leaves_store_def finish_st)
  show ?thesis
    unfolding handle_set_info_def using assms
    by (auto simp: Let_def case_prod_unfold handle_quiet(5) [OF looked_up]
        intro!: leaves_intros finish held_update_open)
qed

lemma resize_explained:
  assumes held: "held (tree_stores b key) (st_conn st)" and "set_info_request_parse body = Some req"
    and cls: "siq_file_information_class req = FILE_END_OF_FILE_INFORMATION"
    and run: "handle_set_info srv hdr body st = (resp, st')"
  shows "held (tree_stores b key) (st_conn st') \<and>
    (if hr_status resp = STATUS_SUCCESS
     then \<exists>k. open_key key (st_conn st) hdr (siq_file_id req) = Some k \<and>
       perform family (Resized k (unat (de64 (slice 0 8 (siq_buffer req))))) (entry (st_world st))
         = Some (entry (st_world st'))
     else entry (st_world st') = entry (st_world st))"
proof -
  have cls': "FILE_END_OF_FILE_INFORMATION \<noteq> FILE_BASIC_INFORMATION"
      "FILE_END_OF_FILE_INFORMATION \<noteq> FILE_RENAME_INFORMATION"
    by (simp_all add: file_class_defs)
  show ?thesis
    using run unfolding handle_set_info_def
  proof (elim or_fail_cases)
    fix req' ty
    assume "or_status STATUS_INVALID_PARAMETER (set_info_request_parse body) = Inr req'"
      and ty: "or_status STATUS_INVALID_INFO_CLASS (info_type_from_u8 (siq_info_type req')) = Inr ty"
    then have req': "req' = req" using assms(2) by simp
    show ?thesis
    proof (cases "lookup_session_tree (st_conn st) hdr")
      case (Inl e)
      then show ?thesis
        using run held assms(2) ty cls lookup_fails(2) [of "st_conn st" hdr]
        by (auto simp: handle_set_info_def req' split: if_splits)
    next
      case (Inr tree)
      show ?thesis
      proof (cases "Option.bind (lookup_open tree (siq_file_id req)) open_handle")
        case None
        then show ?thesis
          using run held assms(2) ty cls cls' Inr
          by (cases "lookup_open tree (siq_file_id req)")
            (auto simp: handle_set_info_def req' Let_def split: if_splits)
      next
        case (Some h)
        then obtain op where op: "lookup_open tree (siq_file_id req) = Some op" "open_handle op = Some h"
          by (auto simp: bind_eq_Some_conv)
        let ?st1 = "record_event srv (SetInfoOtherEvent FILE_END_OF_FILE_INFORMATION) st"
        obtain r st2 where io: "run_io (h_truncate h (de64 (slice 0 8 (siq_buffer req)))) ?st1 = (r, st2)"
          by fastforce
        from truncate_ran [OF looked_up [OF held Inr op] io]
        show ?thesis
          using run held assms(2) ty cls cls' Inr op io finish_st [of r st2]
          by (auto simp: handle_set_info_def req' Let_def open_key_def split: if_splits)
      qed
    qed
  qed (use held or_status_fails [of STATUS_INVALID_INFO_CLASS] in auto)
qed

lemma set_info_explained:
  assumes held: "held (tree_stores b key) (st_conn st)" and cmd: "hdr_command hdr = SetInfo"
    and run: "handle_set_info srv hdr body st = (resp, st')" and "\<not> renames hdr body"
  shows "explained entry family (tree_stores b key) (possible_actions key (st_conn st, hdr, body, resp))
    st st'"
proof (cases "set_info_request_parse body")
  case None
  with run held cmd show ?thesis
    by (auto simp: handle_set_info_def explained_def possible_actions_def Let_def)
next
  case (Some req)
  show ?thesis
  proof (cases "siq_file_information_class req = FILE_END_OF_FILE_INFORMATION")
    case True
    with resize_explained [OF held Some True run] cmd Some show ?thesis
      by (auto simp: explained_def possible_actions_def resize_action_def Let_def split: if_splits)
  next
    case False
    with assms(4) cmd Some have "siq_file_information_class req \<notin>
        {FILE_RENAME_INFORMATION, FILE_END_OF_FILE_INFORMATION}" by (simp add: renames_def)
    note q = set_info_quiet [OF held Some this, of srv hdr, unfolded run]
    have "Idle \<in> set (possible_actions key (st_conn st, hdr, body, resp))"
      using cmd Some False by (simp add: possible_actions_def resize_action_def Let_def)
    with explained_leaves_store [OF q] show ?thesis .
  qed
qed

lemma command_explained:
  assumes held: "held (tree_stores b key) (st_conn st)" and ok: "conn_ok (st_conn st)"
    and shares: "one_backend b srv"
    and run: "dispatch_command srv hdr body st = (resp, st')" and "\<not> renames hdr body"
  shows "explained entry family (tree_stores b key) (possible_actions key (st_conn st, hdr, body, resp))
    st st'"
proof -
  have leaves_store: "explained entry family (tree_stores b key)
      (possible_actions key (st_conn st, hdr, body, resp)) st st'"
    if "hdr_command hdr \<notin> {Create, Read, Write, Close, SetInfo}"
  proof -
    have "hdr_command hdr \<notin> {Create, Write, Close, SetInfo}" using that by simp
    from handlers_quiet [OF held ok shares this, of body] run
    have "leaves_store entry (tree_stores b key) st (resp, st')" by simp
    moreover have "Idle \<in> set (possible_actions key (st_conn st, hdr, body, resp))"
      using that by (simp add: possible_actions_def Let_def split: command.split)
    ultimately show ?thesis by (rule explained_leaves_store)
  qed
  show ?thesis
  proof (cases "hdr_command hdr")
    case Create
    with run show ?thesis by (intro create_explained [OF held]) (simp_all add: dispatch_command_def)
  next
    case Read
    with run show ?thesis by (intro read_explained [OF held]) (simp_all add: dispatch_command_def)
  next
    case Write
    with run show ?thesis by (intro write_explained [OF held]) (simp_all add: dispatch_command_def)
  next
    case Close
    with run show ?thesis by (intro close_explained [OF held]) (simp_all add: dispatch_command_def)
  next
    case SetInfo
    with run assms(5) show ?thesis
      by (intro set_info_explained [OF held]) (simp_all add: dispatch_command_def)
  qed (use leaves_store in simp_all)
qed

end

end
