(* ===== verification/Service_Runs.thy ===== *)
theory Service_Runs
  imports File_Service
begin

text \<open>
  The runs of the server as a file service: connections that come and go, their requests in any
  order and the operations of \<open>ConfigHandle\<close>, against the actions of the abstract store (\<open>File_Store\<close>, \<open>File_Service\<close>), with two clients
  on the in-memory backend as an example.
\<close>

section \<open>Runs\<close>

text \<open>A share that is added has its storage where the others have it.\<close>

definition adds_to :: "'w backend \<Rightarrow> 'w config_op \<Rightarrow> bool" where
  "adds_to b oper \<longleftrightarrow> (case oper of AddShare s \<Rightarrow> sh_backend s = b | _ \<Rightarrow> True)"

text \<open>
  Connections come and go, their requests, those that passed the checks of the dispatcher, run in
  any order, and the configuration changes; the exchanges are recorded.
\<close>

inductive service_run :: "'w backend \<Rightarrow> 'w machine \<Rightarrow> 'w exchange list \<Rightarrow> 'w machine \<Rightarrow> bool"
  for b :: "'w backend" where
  service_start: "service_run b m [] m"
| service_accept: "service_run b m xs m1 \<Longrightarrow> accept_connection (mc_system m1) = (i, sys) \<Longrightarrow>
     service_run b m xs (on_system (\<lambda>_. sys) m1)"
| service_hang_up: "service_run b m xs m1 \<Longrightarrow>
     service_run b m xs (on_system (unregister_connection i) m1)"
| service_configure: "service_run b m xs m1 \<Longrightarrow> config_op_ok oper \<Longrightarrow> adds_to b oper \<Longrightarrow>
     run_config_op oper (mc_system m1) = (r, sys) \<Longrightarrow>
     service_run b m xs (on_system (\<lambda>_. sys) m1)"
| service_request: "service_run b m xs m1 \<Longrightarrow> tbl_get (sys_conns (mc_system m1)) i = Some c \<Longrightarrow>
     dispatch_command (sys_server (mc_system m1)) hdr body (machine_st m1 c) = (resp, st) \<Longrightarrow>
     service_run b m (xs @ [(c, hdr, body, resp)]) (put_st i st m1)"

lemma service_run_prefix:
  "service_run b m xs m' \<Longrightarrow> xs = ys @ zs \<Longrightarrow> \<exists>m1. service_run b m ys m1"
proof (induction arbitrary: zs rule: service_run.induct)
  case (service_request m xs m1 i c hdr body resp st)
  show ?case
  proof (cases zs rule: rev_cases)
    case Nil
    with service_request service_run.service_request [OF service_request.hyps(1-3)]
    show ?thesis by auto
  qed (use service_request in auto)
qed (blast intro: service_run.service_start)+

text \<open>A request that is not a SET_INFO with the rename class.\<close>

definition no_rename :: "'w exchange \<Rightarrow> bool" where
  "no_rename x \<longleftrightarrow> (case x of (c, hdr, body, resp) \<Rightarrow> \<not> renames hdr body)"

text \<open>All storage is the backend's, and the handles on all connections go by their names.\<close>

definition service_ok :: "'w backend \<Rightarrow> (smb_path \<Rightarrow> 'k) \<Rightarrow> 'w system \<Rightarrow> bool" where
  "service_ok b key sys \<longleftrightarrow> system_ok sys \<and> one_backend b (sys_server sys) \<and>
     (\<forall>i c. tbl_get (sys_conns sys) i = Some c \<longrightarrow> held (tree_stores b key) c)"

lemma service_ok_start:
  "config_ok srv \<Longrightarrow> one_backend b srv \<Longrightarrow> service_ok b key (mc_system (machine_start srv w))"
  by (simp add: service_ok_def machine_start_def system_ok_def tbl_get_def)

lemma service_ok_conn:
  "service_ok b key sys \<Longrightarrow> tbl_get (sys_conns sys) i = Some c \<Longrightarrow>
    conn_ok c \<and> held (tree_stores b key) c"
  by (auto simp: service_ok_def system_ok_def dest: tbl_all_get)

lemma machine_st_world [simp]: "st_world (machine_st m c) = sys_world (mc_system m)"
  "sys_world (mc_system (put_st i st m)) = st_world st"
  by (simp_all add: machine_st_def put_st_def)

lemma accept_service_ok:
  assumes "service_ok b key sys" and "accept_connection sys = (i, sys')"
  shows "service_ok b key sys'" and "sys_world sys' = sys_world sys"
  using assms
  by (auto simp: accept_connection_def Let_def service_ok_def system_ok_def conns_ok_insert
      split: if_splits)

lemma hang_up_service_ok:
  "service_ok b key sys \<Longrightarrow> service_ok b key (unregister_connection i sys)"
  by (auto simp: unregister_connection_def service_ok_def system_ok_def split: if_splits)

lemma put_service_ok:
  "service_ok b key (mc_system m) \<Longrightarrow> conn_ok (st_conn st) \<Longrightarrow> held (tree_stores b key) (st_conn st) \<Longrightarrow>
    service_ok b key (mc_system (put_st i st m))"
  by (auto simp: service_ok_def system_ok_def conns_ok_insert)

lemma one_backend_put_share:
  "one_backend b srv \<Longrightarrow> sb_backend s = b \<Longrightarrow> one_backend b (put_share s srv)"
  using set_tbl_insert_subset [of "to_ascii_lowercase (sb_name s)" s "srv_shares srv"]
  by (auto simp: one_backend_def put_share_def)

lemma run_config_op_one_backend:
  assumes one: "one_backend b (sys_server sys)" and "adds_to b oper"
    and "run_config_op oper sys = (r, sys')"
  shows "one_backend b (sys_server sys')"
proof -
  have fewer: "one_backend b (srv\<lparr>srv_shares := tbl_remove n (srv_shares srv)\<rparr>)"
    if "one_backend b srv" for srv n
    using that set_tbl_remove_subset [of n "srv_shares srv"] by (auto simp: one_backend_def)
  have dropped: "one_backend b (srv\<lparr>srv_users := us,
      srv_shares := map (\<lambda>(k, s). (k, drop_acl_user u s)) (srv_shares srv)\<rparr>)"
    if "one_backend b srv" for srv us u
    using that by (fastforce simp: one_backend_def)
  show ?thesis
    using assms(2,3) one one_backend_find [OF one]
    by (cases oper)
      (auto simp: adds_to_def share_bindings_new_def elim!: config_op_cases
        intro!: one_backend_put_share fewer dropped, auto simp: one_backend_def)
qed

context keyed_backend
begin

lemma configured_quiet:
  assumes ok: "service_ok b key sys" and run: "run_config_op oper sys = (r, sys')"
    and "config_op_ok oper" and "adds_to b oper"
  shows "service_ok b key sys'" and "entry (sys_world sys') = entry (sys_world sys)"
proof -
  have sys: "system_ok sys" using ok by (simp add: service_ok_def)
  show "service_ok b key sys'"
    using ok run_config_op_ok [OF sys assms(3) run] run_config_op_one_backend [OF _ assms(4) run]
      run_config_op_fewer [OF sys run] held_fewer
    unfolding service_ok_def by blast
  have "only_closes (\<Union>(i, c) \<in> set (sys_conns sys). conn_handles c) (sys_world sys) (sys_world sys')"
    using run by (rule run_config_op_closes)
  then obtain hs where hs: "set hs \<subseteq> (\<Union>(i, c) \<in> set (sys_conns sys). conn_handles c)"
      "sys_world sys' = run_closes hs (sys_world sys)"
    unfolding only_closes_def by blast
  have "opened_by b h" if h: "h \<in> set hs" for h
  proof -
    obtain i c where c: "(i, c) \<in> set (sys_conns sys)" "h \<in> conn_handles c" using hs(1) h by auto
    have "tbl_get (sys_conns sys) i = Some c"
      using sys c(1) by (auto simp: system_ok_def dest: tbl_all_ok intro: tbl_in_get)
    from service_ok_conn [OF ok this] c(2) show ?thesis by (blast intro: conn_handles_opened)
  qed
  then show "entry (sys_world sys') = entry (sys_world sys)" unfolding hs(2) by (rule run_closes_entry)
qed

lemma service_run_explained:
  assumes "service_run b m0 xs m" and "service_ok b key (mc_system m0)"
    and "\<forall>x \<in> set xs. no_rename x"
  shows "service_ok b key (mc_system m) \<and>
    (\<exists>acts. list_all2 (\<lambda>x a. a \<in> set (possible_actions key x)) xs acts \<and>
       perform_all family acts (entry (sys_world (mc_system m0))) = Some (entry (sys_world (mc_system m))))"
  using assms
proof (induction rule: service_run.induct)
  case (service_start m)
  then show ?case by simp
next
  case (service_accept m xs m1 i sys)
  note IH = service_accept.IH [OF service_accept.prems]
  from IH accept_service_ok [OF conjunct1 [OF IH] service_accept.hyps(2)] show ?case by simp
next
  case (service_hang_up m xs m1 i)
  note IH = service_hang_up.IH [OF service_hang_up.prems]
  from IH hang_up_service_ok [OF conjunct1 [OF IH]] show ?case
    by (simp add: unregister_connection_def)
next
  case (service_configure m xs m1 oper r sys)
  note IH = service_configure.IH [OF service_configure.prems]
  from IH configured_quiet [OF conjunct1 [OF IH] service_configure.hyps(4,2,3)] show ?case by simp
next
  case (service_request m xs m1 i c hdr body resp st)
  have "\<forall>x \<in> set xs. no_rename x" using service_request.prems(2) by simp
  from service_request.IH [OF service_request.prems(1) this]
  obtain acts where ok: "service_ok b key (mc_system m1)"
      and acts: "list_all2 (\<lambda>x a. a \<in> set (possible_actions key x)) xs acts"
        "perform_all family acts (entry (sys_world (mc_system m))) = Some (entry (sys_world (mc_system m1)))"
    by blast
  note c = service_ok_conn [OF ok service_request.hyps(2)]
  have shares: "one_backend b (sys_server (mc_system m1))" using ok by (simp add: service_ok_def)
  have "\<not> renames hdr body" using service_request.prems(2) by (simp add: no_rename_def)
  from command_explained [of "machine_st m1 c", OF _ _ shares service_request.hyps(3) this] c
  obtain a where st: "held (tree_stores b key) (st_conn st)"
      and a: "a \<in> set (possible_actions key (c, hdr, body, resp))"
        "perform family a (entry (sys_world (mc_system m1))) = Some (entry (st_world st))"
    by (auto simp: explained_def)
  have "conn_ok (st_conn st)"
    using dispatch_command_step [of "sys_server (mc_system m1)" hdr "machine_st m1 c" body]
      service_request.hyps(3) c by (simp add: step_ok_def)
  from put_service_ok [OF ok this st] have "service_ok b key (mc_system (put_st i st m1))" .
  moreover have "list_all2 (\<lambda>x a. a \<in> set (possible_actions key x)) (xs @ [(c, hdr, body, resp)])
      (acts @ [a])" using acts(1) a(1) by (simp add: list_all2_appendI)
  moreover have "perform_all family (acts @ [a]) (entry (sys_world (mc_system m)))
      = Some (entry (sys_world (mc_system (put_st i st m1))))" using acts(2) a(2) by simp
  ultimately show ?case by blast
qed

end

section \<open>Properties\<close>

text \<open>
  C5: the server is a file service. Suppose that all shares are on one backend that keeps its files
  under keys (\<open>keyed_backend\<close>, whose laws the in-memory backend satisfies; the local one, whose files
  also change outside of the server, is not an instance), and that no request of the run is a
  SET_INFO that renames. Then, whatever else any number of clients send over any number of
  connections, in any order, with connections coming and going and the configuration changing, the
  storage behaves like an abstract store of byte strings: each request is one of the actions that
  its reply allows (a successful READ fetches exactly the bytes of its reply, a successful WRITE
  stores exactly its data, a failed one does nothing, a CREATE opens by its disposition, a CLOSE
  removes only what is marked for deletion, a SET_INFO may resize, everything else does nothing),
  and performing these actions one after the other takes the store from its contents at the start
  to its contents at the end.
\<close>

theorem service_refines_store:
  assumes "keyed_backend b entry key family" and "service_ok b key (mc_system m0)"
    and "service_run b m0 xs m" and "\<forall>x \<in> set xs. no_rename x"
  shows "\<exists>acts. list_all2 (\<lambda>x a. a \<in> set (possible_actions key x)) xs acts \<and>
    perform_all family acts (entry (sys_world (mc_system m0))) = Some (entry (sys_world (mc_system m)))"
  using keyed_backend.service_run_explained [OF assms(1,3,2,4)] by (rule conjunct2)

text \<open>
  C6: stored data survives. On one keyed backend (see C5), and if no request up to the READ is a
  SET_INFO that renames: once a WRITE has succeeded, and until a request touches the file (stores
  into it, resizes it, empties it by its disposition or removes it), every successful READ at the
  same offset of at most as many bytes as were written returns what was written, whoever reads it,
  from whichever connection, session and open, whatever else the clients do before, in between and
  after, however the configuration changes, and whether or not the open or the connection of the
  WRITE is still there.
\<close>

theorem stored_data_survives:
  assumes "keyed_backend b entry key family" and "service_ok b key (mc_system m0)"
    and "service_run b m0 (pre @ (c, hdr, body, resp) # mid @ (c', hdr', body', resp') # post) m"
    and "\<forall>x \<in> set (pre @ mid). no_rename x"
    and "hdr_command hdr = Write" and "hr_status resp = STATUS_SUCCESS"
    and "write_action key (c, hdr, body, resp) = Some (Stored k off dat)"
    and "\<forall>x \<in> set mid. \<forall>a \<in> set (possible_actions key x). \<not> touches family k a"
    and "hdr_command hdr' = Read" and "hr_status resp' = STATUS_SUCCESS"
    and "read_action key (c', hdr', body', resp') = Some (Fetched k off n got)" and "n \<le> length dat"
  shows "got = take n dat"
proof -
  let ?R = "\<lambda>x a. a \<in> set (possible_actions key x)"
  let ?upto = "pre @ (c, hdr, body, resp) # mid @ [(c', hdr', body', resp')]"
  obtain m1 where "service_run b m0 ?upto m1"
    using service_run_prefix [OF assms(3), of ?upto post] by auto
  moreover have "\<forall>x \<in> set ?upto. no_rename x"
    using assms(4,5,9) by (auto simp: no_rename_def renames_def)
  ultimately obtain acts where acts: "list_all2 ?R ?upto acts"
      and run: "perform_all family acts (entry (sys_world (mc_system m0)))
        = Some (entry (sys_world (mc_system m1)))"
    using keyed_backend.service_run_explained [OF assms(1) _ assms(2)] by blast
  from acts obtain a1 w a2 r where split: "acts = a1 @ w # a2 @ [r]"
      "?R (c, hdr, body, resp) w" "?R (c', hdr', body', resp') r" "list_all2 ?R mid a2"
    by (auto simp: list_all2_append1 list_all2_Cons1)
  have "w = Stored k off dat" "r = Fetched k off n got"
    using split(2,3) assms(5-7,9-11) by (simp_all add: possible_actions_def Let_def)
  moreover have "\<forall>a \<in> set a2. \<not> touches family k a"
    using split(4) assms(8) by (metis in_set_conv_nth list_all2_conv_all_nth)
  ultimately show ?thesis
    using store_remembers [of family a1 k off dat a2 n got "[]"] run split(1) assms(12) by blast
qed

section \<open>Two clients\<close>

text \<open>Two connections to the in-memory share, each with a session that has the file open.\<close>

definition two_clients :: "mem_fs machine" where
  "two_clients =
     \<lparr>mc_system = \<lparr>sys_server = mem_server,
        sys_conns = [(7, mem_conn ReadWriteAccess False), (8, mem_conn ReadWriteAccess False)],
        sys_next_conn = 9, sys_world = sample_fs\<rparr>,
      mc_log = [], mc_draws = 0, mc_ticks = 0\<rparr>"

lemma mem_server_config: "config_ok mem_server"
  by (simp add: config_ok_def mem_server_def mem_share_def share_bindings_new_def share_ok_def
      is_public_mode_def tbl_all_def tbl_ok_def valid_user_name_def tbl_get_def name_defs)

lemma two_clients_ok: "service_ok memfs_backend mem_entry_key (mc_system two_clients)"
proof -
  have "opened_at memfs_backend mem_entry_key (mem_handle_of sample_file) (mem_entry_key path_a)"
    using valid_path_a sample_file_opens by (rule opened_atI)
  then have "tree_stores memfs_backend mem_entry_key (sample_tree ReadWriteAccess False)"
    by (auto simp: tree_stores_def sample_tree_def tree_connect_new_def sample_open_def open_new_def
        mem_share_def share_bindings_new_def tbl_get_def split: if_splits)
  then have "held (tree_stores memfs_backend mem_entry_key) (mem_conn ReadWriteAccess False)"
    by (auto simp: held_def mem_conn_def connection_new_def bob_session_def tbl_get_def
        split: if_splits)
  moreover have "system_ok (mc_system two_clients)"
    using mem_server_config
    by (simp add: system_ok_def two_clients_def tbl_all_def tbl_ok_def)
  ultimately show ?thesis
    by (auto simp: service_ok_def two_clients_def tbl_get_def one_backend_def mem_server_def
        mem_share_def share_bindings_new_def split: if_splits)
qed

text \<open>The first client writes and is gone, the second one reads.\<close>

definition written_by :: "mem_fs exchange" where
  "written_by = (mem_conn ReadWriteAccess False, hdr1 Write, put_write_request sample_write,
     response_ok (put_write_response (write_response_new 3)))"

lemma two_clients_run:
  "\<exists>m resp. service_run memfs_backend two_clients
     [written_by, (mem_conn ReadWriteAccess False, hdr1 Read, put_read_request sample_read, resp)] m \<and>
     hr_status resp = STATUS_SUCCESS \<and> (\<exists>got. read_action mem_entry_key
       (mem_conn ReadWriteAccess False, hdr1 Read, put_read_request sample_read, resp)
       = Some (Fetched (mem_entry_key path_a) 1 2 got))"
proof -
  obtain st1 where w: "dispatch_command mem_server (hdr1 Write) (put_write_request sample_write)
      (machine_st two_clients (mem_conn ReadWriteAccess False))
      = (response_ok (put_write_response (write_response_new 3)), st1)"
      "st_conn st1 = mem_conn ReadWriteAccess False"
      "st_world st1 = mem_store sample_file [1, 9, 8, 7] sample_fs"
    using sample_write_run
    by (auto simp: dispatch_command_def machine_st_def two_clients_def mem_st_def)
  let ?m1 = "on_system (unregister_connection 7) (put_st 7 st1 two_clients)"
  obtain resp st2 where r: "dispatch_command mem_server (hdr1 Read) (put_read_request sample_read)
      (machine_st ?m1 (mem_conn ReadWriteAccess False)) = (resp, st2)"
    by fastforce
  have world: "st_world (machine_st ?m1 (mem_conn ReadWriteAccess False))
      = mem_store sample_file [1, 9, 8, 7] sample_fs"
    by (simp add: w(3) unregister_connection_def)
  have "mem_read sample_file 1 2 (mem_store sample_file [1, 9, 8, 7] sample_fs)
      = (Inr [9, 8], mem_store sample_file [1, 9, 8, 7] sample_fs)"
    by (simp add: mem_read_def mem_data_store sample_file_def slice_def Let_def)
  with r world have resp: "resp = response_ok (put_read_response (read_response_for [9, 8]))"
    by (simp add: dispatch_command_def handle_read_def run_io_def mem_handle_of_def Let_def)
  have "service_run memfs_backend two_clients [written_by] (put_st 7 st1 two_clients)"
    unfolding written_by_def
    using service_request [OF service_start [of memfs_backend two_clients], of 7] w(1)
    by (simp add: two_clients_def tbl_get_def)
  then have gone: "service_run memfs_backend two_clients [written_by] ?m1" by (rule service_hang_up)
  have reader: "tbl_get (sys_conns (mc_system ?m1)) 8 = Some (mem_conn ReadWriteAccess False)"
      "sys_server (mc_system ?m1) = mem_server"
    by (simp_all add: unregister_connection_def) (simp_all add: two_clients_def tbl_get_def)
  have "service_run memfs_backend two_clients [written_by,
      (mem_conn ReadWriteAccess False, hdr1 Read, put_read_request sample_read, resp)]
      (put_st 8 st2 ?m1)"
    using service_request [OF gone reader(1)] r unfolding reader(2) by fastforce
  moreover have "read_action mem_entry_key
      (mem_conn ReadWriteAccess False, hdr1 Read, put_read_request sample_read, resp)
      = Some (Fetched (mem_entry_key path_a) 1 2 [9, 8])"
    by (simp add: read_action_def open_key_def resp read_response_parse_for rdr_data_for)
  moreover have "hr_status resp = STATUS_SUCCESS" by (simp add: resp)
  ultimately show ?thesis by blast
qed

theorem service_refines_store_witness:
  "\<exists>xs m acts. service_run memfs_backend two_clients xs m \<and> length acts = 2 \<and>
     perform_all mem_family acts (mem_entry sample_fs) = Some (mem_entry (sys_world (mc_system m)))"
proof -
  obtain m resp where run: "service_run memfs_backend two_clients
      [written_by, (mem_conn ReadWriteAccess False, hdr1 Read, put_read_request sample_read, resp)] m"
    using two_clients_run by blast
  have "sys_world (mc_system two_clients) = sample_fs" by (simp add: two_clients_def)
  with service_refines_store [OF memfs_keyed.keyed_backend_axioms two_clients_ok run]
  show ?thesis
    using run by (force simp: no_rename_def renames_def written_by_def dest: list_all2_lengthD)
qed

theorem stored_data_survives_witness:
  "\<exists>m resp got. service_run memfs_backend two_clients
     [written_by, (mem_conn ReadWriteAccess False, hdr1 Read, put_read_request sample_read, resp)] m \<and>
     read_action mem_entry_key
       (mem_conn ReadWriteAccess False, hdr1 Read, put_read_request sample_read, resp)
       = Some (Fetched (mem_entry_key path_a) 1 2 [9, 8])"
proof -
  obtain m resp got where run: "service_run memfs_backend two_clients
      [written_by, (mem_conn ReadWriteAccess False, hdr1 Read, put_read_request sample_read, resp)] m"
      "hr_status resp = STATUS_SUCCESS"
      and got: "read_action mem_entry_key (mem_conn ReadWriteAccess False, hdr1 Read,
        put_read_request sample_read, resp) = Some (Fetched (mem_entry_key path_a) 1 2 got)"
    using two_clients_run by blast
  have "got = take 2 [9, 8, 7]"
    using stored_data_survives [OF memfs_keyed.keyed_backend_axioms two_clients_ok,
        of "[]" _ _ _ _ "[]" _ _ _ _ "[]", unfolded append_Nil, OF run(1) [unfolded written_by_def]
        _ _ _ _ _ _ run(2) got]
    by (simp add: no_rename_def renames_def write_action_def open_key_def)
  with run got show ?thesis by auto
qed

end
