(* ===== verification/Interleaving.thy ===== *)
theory Interleaving
  imports System
begin

text \<open>
  The tasks of the server at a finer grain than in \<open>System\<close>. An operation of \<open>ConfigHandle\<close>
  (\<open>src/src/server.rs\<close>) changes the tables, then takes the list of live connections, then closes
  things on one connection after the other; other operations, new connections and the frames of
  the clients come in between. The dispatch of a frame reads the configuration at one point and
  takes effect on its connection at a later one, so it may decide by a configuration that is out
  of date: TREE_CONNECT releases the access list before it registers the tree, SESSION_SETUP works
  on a copy of the user table. The invariant says what still holds, and the last section what does
  not.
\<close>

record 'w tasks =
  tasks_machine :: "'w machine"
  tasks_frames :: "(u64, 'w server) table"
  tasks_closings :: "(closing \<times> u64 list option) list"

text \<open>
  \<open>tasks_frames\<close> has the connections whose reader is inside the dispatcher, with the configuration
  it saw; \<open>tasks_closings\<close> the operations that have changed the tables and have connections left to
  visit, no list as long as \<open>live()\<close> has not been called.
\<close>

definition tasks_start :: "'w server \<Rightarrow> 'w \<Rightarrow> 'w tasks" where
  "tasks_start srv w =
     \<lparr>tasks_machine = machine_start srv w, tasks_frames = [], tasks_closings = []\<rparr>"

abbreviation tasks_system :: "'w tasks \<Rightarrow> 'w system" where
  "tasks_system T \<equiv> mc_system (tasks_machine T)"

abbreviation tasks_server :: "'w tasks \<Rightarrow> 'w server" where
  "tasks_server T \<equiv> sys_server (tasks_system T)"

definition on_tasks :: "('w system \<Rightarrow> 'w system) \<Rightarrow> 'w tasks \<Rightarrow> 'w tasks" where
  "on_tasks f T = T\<lparr>tasks_machine := on_system f (tasks_machine T)\<rparr>"

lemma on_tasks_simps [simp]:
  "tasks_system (on_tasks f T) = f (tasks_system T)" "tasks_frames (on_tasks f T) = tasks_frames T"
  "tasks_closings (on_tasks f T) = tasks_closings T"
  by (simp_all add: on_tasks_def)

text \<open>One visit of a closing operation; a connection that is gone by now has nothing to close.\<close>

definition visit :: "closing \<Rightarrow> u64 \<Rightarrow> 'w system \<Rightarrow> 'w system" where
  "visit cl i sys =
     (case tbl_get (sys_conns sys) i of
        None \<Rightarrow> sys
      | Some c \<Rightarrow>
          let (_, c', w) = close_on cl c (sys_world sys)
          in sys\<lparr>sys_conns := tbl_insert i c' (sys_conns sys), sys_world := w\<rparr>)"

section \<open>The steps\<close>

datatype 'w task_event =
    TaskAccepted u64
  | FrameBegun u64
  | FrameDone u64 bytes "bytes option"
  | TablesChanged "'w config_op" "config_error + unit"
  | Listed closing
  | Visited u64 bool
  | OperationDone closing
  | TaskHungUp u64
  | ShutdownAsked

text \<open>A visit is recorded with whether the connection was inside the dispatcher.\<close>

inductive task_step :: "'w tasks \<Rightarrow> 'w task_event \<Rightarrow> 'w tasks \<Rightarrow> bool" where
  task_accept:
    "\<not> srv_shutting_down (tasks_server T) \<Longrightarrow> accept_connection (tasks_system T) = (i, sys) \<Longrightarrow>
     task_step T (TaskAccepted i) (on_tasks (\<lambda>_. sys) T)"
| task_begin:
    "\<not> srv_shutting_down (tasks_server T) \<Longrightarrow>
     tbl_get (sys_conns (tasks_system T)) i \<noteq> None \<Longrightarrow> tbl_get (tasks_frames T) i = None \<Longrightarrow>
     task_step T (FrameBegun i) (T\<lparr>tasks_frames := tbl_insert i (tasks_server T) (tasks_frames T)\<rparr>)"
| task_dispatch:
    "tbl_get (tasks_frames T) i = Some srv \<Longrightarrow> tbl_get (sys_conns (tasks_system T)) i = Some c \<Longrightarrow>
     dispatch_frame srv frame (machine_st (tasks_machine T) c) = Some (r, st) \<Longrightarrow>
     task_step T (FrameDone i frame r)
       (T\<lparr>tasks_machine := put_st i st (tasks_machine T),
          tasks_frames := tbl_remove i (tasks_frames T)\<rparr>)"
| task_configure:
    "config_op_ok oper \<Longrightarrow> run_config_op oper (tasks_system T) = (r, sys) \<Longrightarrow>
     closing_after oper (tasks_server T) r = todo \<Longrightarrow>
     task_step T (TablesChanged oper r)
       (on_tasks (set_server (\<lambda>_. sys_server sys)) T\<lparr>tasks_closings := tasks_closings T @
          (case todo of None \<Rightarrow> [] | Some cl \<Rightarrow> [(cl, None)])\<rparr>)"
| task_list:
    "tasks_closings T = as @ (cl, None) # bs \<Longrightarrow>
     task_step T (Listed cl)
       (T\<lparr>tasks_closings := as @ (cl, Some (map fst (sys_conns (tasks_system T)))) # bs\<rparr>)"
| task_visit:
    "tasks_closings T = as @ (cl, Some (i # rest)) # bs \<Longrightarrow>
     task_step T (Visited i (tbl_get (tasks_frames T) i \<noteq> None))
       (on_tasks (visit cl i) T\<lparr>tasks_closings := as @ (cl, Some rest) # bs\<rparr>)"
| task_finish:
    "tasks_closings T = as @ (cl, Some []) # bs \<Longrightarrow>
     task_step T (OperationDone cl) (T\<lparr>tasks_closings := as @ bs\<rparr>)"
| task_hang_up:
    "task_step T (TaskHungUp i)
       (on_tasks (unregister_connection i) T\<lparr>tasks_frames := tbl_remove i (tasks_frames T)\<rparr>)"
| task_shutdown:
    "task_step T ShutdownAsked (on_tasks request_shutdown T)"

inductive task_steps :: "'w tasks \<Rightarrow> 'w task_event list \<Rightarrow> 'w tasks \<Rightarrow> bool" where
  task_steps_nil: "task_steps T [] T"
| task_steps_snoc: "task_steps T es T1 \<Longrightarrow> task_step T1 e T2 \<Longrightarrow> task_steps T (es @ [e]) T2"

text \<open>No operation visits a connection while a frame of it is inside the dispatcher.\<close>

definition frames_unvisited :: "'w task_event list \<Rightarrow> bool" where
  "frames_unvisited es \<longleftrightarrow> (\<forall>i. Visited i True \<notin> set es)"

lemma frames_unvisited_simps [simp]:
  "frames_unvisited []" "frames_unvisited (es @ es') \<longleftrightarrow> frames_unvisited es \<and> frames_unvisited es'"
  "frames_unvisited (e # es) \<longleftrightarrow> (\<forall>i. e \<noteq> Visited i True) \<and> frames_unvisited es"
  by (auto simp: frames_unvisited_def)

section \<open>The invariant\<close>

text \<open>What an operation in progress is going to close on a connection.\<close>

definition going_to_close :: "u64 \<Rightarrow> (closing \<times> u64 list option) list \<Rightarrow> 'w excuse" where
  "going_to_close i closings who it \<longleftrightarrow>
     (\<exists>(cl, ids) \<in> set closings.
        (case ids of None \<Rightarrow> True | Some ids \<Rightarrow> i \<in> set ids) \<and> about_to_close cl who it)"

lemma going_to_close_simps [simp]:
  "\<not> going_to_close i [] who it"
  "going_to_close i (as @ bs) who it \<longleftrightarrow> going_to_close i as who it \<or> going_to_close i bs who it"
  "going_to_close i ((cl, None) # bs) who it \<longleftrightarrow> about_to_close cl who it \<or> going_to_close i bs who it"
  "going_to_close i ((cl, Some ids) # bs) who it \<longleftrightarrow>
     i \<in> set ids \<and> about_to_close cl who it \<or> going_to_close i bs who it"
  by (auto simp: going_to_close_def)

lemma conn_allowed_mono:
  "conn_allowed C srv c \<Longrightarrow> (\<And>who it. C who it \<Longrightarrow> D who it) \<Longrightarrow> conn_allowed D srv c"
  unfolding conn_allowed_def session_allowed_def tree_allowed_def by blast

lemma rights_kept_mono:
  "rights_kept C srv srv' \<Longrightarrow> (\<And>who it. C who it \<Longrightarrow> D who it) \<Longrightarrow> rights_kept D srv srv'"
  unfolding rights_kept_def tree_allowed_def by blast

lemma rights_kept_trans:
  "rights_kept C a b \<Longrightarrow> rights_kept D b c \<Longrightarrow> rights_kept (\<lambda>who it. C who it \<or> D who it) a c"
  unfolding rights_kept_def tree_allowed_def by blast

text \<open>
  A frame that was decided by an older configuration leaves only what is allowed under the current
  one, when the changes in between are excused.
\<close>

lemma stale_frame:
  assumes keeps: "\<And>X. conn_allowed X srv0 c \<Longrightarrow> conn_allowed X srv0 c'"
    and kept: "rights_kept C srv0 srv" and "conn_allowed C srv c"
  shows "conn_allowed C srv c'"
proof -
  let ?X = "\<lambda>who it. C who it \<or> (case it of None \<Rightarrow> known srv who
    | Some (share, a) \<Rightarrow> tree_entitled srv who (tree_connect_new 0 share a))"
  have "tree_entitled srv who (tree_connect_new 0 (tree_share t) (tree_granted_access t))
      \<longleftrightarrow> tree_entitled srv who t" for who t
    by (simp add: tree_entitled_def tree_connect_new_def)
  then have now: "tree_allowed ?X srv0 who t \<longleftrightarrow> tree_allowed C srv who t \<or> tree_entitled srv0 who t" for who t
    by (auto simp: tree_allowed_def)
  have "conn_allowed ?X srv0 c"
    using assms(3) by (auto simp: conn_allowed_def session_allowed_def now)
  then have "conn_allowed ?X srv0 c'" by (rule keeps)
  with kept show ?thesis
    unfolding conn_allowed_def session_allowed_def now rights_kept_def by simp blast
qed

definition tasks_ok :: "'w tasks \<Rightarrow> bool" where
  "tasks_ok T \<longleftrightarrow> system_ok (tasks_system T) \<and>
     (\<forall>i c. tbl_get (sys_conns (tasks_system T)) i = Some c \<longrightarrow>
        conn_allowed (going_to_close i (tasks_closings T)) (tasks_server T) c) \<and>
     (\<forall>i srv. tbl_get (tasks_frames T) i = Some srv \<longrightarrow>
        tbl_get (sys_conns (tasks_system T)) i \<noteq> None \<and> config_ok srv \<and>
        rights_kept (going_to_close i (tasks_closings T)) srv (tasks_server T))"

lemma tasks_ok_conn:
  "tasks_ok T \<Longrightarrow> tbl_get (sys_conns (tasks_system T)) i = Some c \<Longrightarrow>
    conn_ok c \<and> conn_allowed (going_to_close i (tasks_closings T)) (tasks_server T) c"
  by (auto simp: tasks_ok_def system_ok_def dest: tbl_all_get)

lemma tasks_start_ok: "config_ok srv \<Longrightarrow> tasks_ok (tasks_start srv w)"
  by (simp add: tasks_ok_def tasks_start_def machine_start_def system_ok_def tbl_get_def)

text \<open>Only the list of operations changes, and still covers what it did on the live connections.\<close>

lemma tasks_ok_closings:
  fixes T :: "'w tasks"
  assumes "tasks_ok T" and "\<And>i who (it :: ('w share_bindings \<times> access) option). tbl_get (sys_conns (tasks_system T)) i \<noteq> None \<Longrightarrow>
    going_to_close i (tasks_closings T) who it \<Longrightarrow> going_to_close i ops who it"
  shows "tasks_ok (T\<lparr>tasks_closings := ops\<rparr>)"
proof -
  have "conn_allowed (going_to_close i ops) (tasks_server T) c"
    if c: "tbl_get (sys_conns (tasks_system T)) i = Some c" for i c
    using conjunct2 [OF tasks_ok_conn [OF assms(1) c]]
    by (rule conn_allowed_mono) (rule assms(2), simp add: c)
  moreover have "rights_kept (going_to_close i ops) srv (tasks_server T)"
    if "tbl_get (tasks_frames T) i = Some srv" for i srv
  proof -
    have "tbl_get (sys_conns (tasks_system T)) i \<noteq> None"
        and "rights_kept (going_to_close i (tasks_closings T)) srv (tasks_server T)"
      using assms(1) that by (simp_all add: tasks_ok_def)
    then show ?thesis by - (rule rights_kept_mono, assumption, rule assms(2))
  qed
  ultimately show ?thesis using assms(1) by (simp add: tasks_ok_def)
qed

lemma accept_tasks_ok:
  assumes "tasks_ok T" and "accept_connection (tasks_system T) = (i, sys)"
  shows "tasks_ok (on_tasks (\<lambda>_. sys) T)"
  using assms
  by (auto simp: accept_connection_def Let_def tasks_ok_def system_ok_def conns_ok_insert split: if_splits)

lemma begin_tasks_ok:
  assumes "tasks_ok T" and "tbl_get (sys_conns (tasks_system T)) i \<noteq> None"
  shows "tasks_ok (T\<lparr>tasks_frames := tbl_insert i (tasks_server T) (tasks_frames T)\<rparr>)"
  using assms by (auto simp: tasks_ok_def system_ok_def)

lemma dispatch_tasks_ok:
  assumes ok: "tasks_ok T" and "tbl_get (tasks_frames T) i = Some srv"
    and c: "tbl_get (sys_conns (tasks_system T)) i = Some c"
    and run: "dispatch_frame srv frame (machine_st (tasks_machine T) c) = Some (r, st)"
  shows "tasks_ok (T\<lparr>tasks_machine := put_st i st (tasks_machine T),
    tasks_frames := tbl_remove i (tasks_frames T)\<rparr>)"
proof -
  have srv: "config_ok srv" "rights_kept (going_to_close i (tasks_closings T)) srv (tasks_server T)"
    using ok assms(2) by (simp_all add: tasks_ok_def)
  have keeps: "conn_ok c \<longrightarrow> conn_ok (st_conn st)"
      "conn_allowed X srv c \<Longrightarrow> conn_allowed X srv (st_conn st)" for X
    using dispatch_frame_ok [OF run] srv(1) by (auto simp: frame_ok_def)
  have "conn_ok (st_conn st)" using keeps(1) tasks_ok_conn [OF ok c] by simp
  moreover have "conn_allowed (going_to_close i (tasks_closings T)) (tasks_server T) (st_conn st)"
    using stale_frame [OF keeps(2) srv(2)] tasks_ok_conn [OF ok c] by simp
  ultimately show ?thesis using ok by (auto simp: tasks_ok_def system_ok_def split: if_splits)
qed

lemma configure_tasks_ok:
  assumes ok: "tasks_ok T" and "config_op_ok oper"
    and run: "run_config_op oper (tasks_system T) = (r, sys)"
    and todo: "closing_after oper (tasks_server T) r = todo"
  shows "tasks_ok (on_tasks (set_server (\<lambda>_. sys_server sys)) T\<lparr>tasks_closings := tasks_closings T @
    (case todo of None \<Rightarrow> [] | Some cl \<Rightarrow> [(cl, None)])\<rparr>)"
proof -
  have sys: "system_ok (tasks_system T)" using ok by (simp add: tasks_ok_def)
  have cfg: "config_ok (sys_server sys)"
    using run_config_op_ok [OF sys assms(2) run] by (simp add: system_ok_def)
  have "config_ok (tasks_server T)" using sys by (simp add: system_ok_def)
  note rights = run_config_op_rights [OF this run, unfolded todo]
  have ops: "going_to_close i (tasks_closings T @ (case todo of None \<Rightarrow> [] | Some cl \<Rightarrow> [(cl, None)])) =
      (\<lambda>who it. going_to_close i (tasks_closings T) who it \<or> excuse_of todo who it)" for i
    by (auto simp: excuse_of_def fun_eq_iff split: option.split)
  show ?thesis
    using ok cfg conn_allowed_rights [OF rights] rights_kept_trans [OF _ rights]
    by (auto simp: tasks_ok_def system_ok_def ops)
qed

lemma list_tasks_ok:
  assumes "tasks_ok T" and "tasks_closings T = as @ (cl, None) # bs"
  shows "tasks_ok (T\<lparr>tasks_closings := as @ (cl, Some (map fst (sys_conns (tasks_system T)))) # bs\<rparr>)"
  using assms(1)
  by (rule tasks_ok_closings) (force simp: assms(2) dest: tbl_get_in)

lemma visit_get:
  "tbl_get (sys_conns (visit cl i sys)) j =
    (if j = i then map_option (\<lambda>c. fst (snd (close_on cl c (sys_world sys)))) (tbl_get (sys_conns sys) i)
     else tbl_get (sys_conns sys) j)"
  "sys_server (visit cl i sys) = sys_server sys"
  by (auto simp: visit_def Let_def case_prod_unfold split: option.split)

lemma visit_system_ok:
  assumes "system_ok sys"
  shows "system_ok (visit cl i sys)"
proof -
  have "conn_ok (fst (snd (close_on cl c (sys_world sys))))"
    if "tbl_get (sys_conns sys) i = Some c" for c
  proof -
    have "conn_ok c" using assms that by (auto simp: system_ok_def dest: tbl_all_get)
    then show ?thesis by (metis close_on_ok prod.collapse)
  qed
  with assms show ?thesis
    by (auto simp: visit_def Let_def system_ok_def case_prod_unfold conns_ok_insert split: option.split)
qed

lemma visit_tasks_ok:
  assumes ok: "tasks_ok T" and ops: "tasks_closings T = as @ (cl, Some (i # rest)) # bs"
    and free: "tbl_get (tasks_frames T) i = None"
  shows "tasks_ok (on_tasks (visit cl i) T\<lparr>tasks_closings := as @ (cl, Some rest) # bs\<rparr>)"
proof -
  let ?ops = "as @ (cl, Some rest) # bs"
  have elsewhere: "going_to_close j (tasks_closings T) = going_to_close j ?ops" if "j \<noteq> i" for j
    using that by (simp add: ops fun_eq_iff)
  have here: "going_to_close i (tasks_closings T) who it \<Longrightarrow>
      going_to_close i ?ops who it \<or> about_to_close cl who it" for who it
    by (auto simp: ops)
  have "conn_allowed (going_to_close i ?ops) (tasks_server T) c'"
    if c: "tbl_get (sys_conns (tasks_system T)) i = Some c"
      and run: "close_on cl c (sys_world (tasks_system T)) = (k, c', w')" for c k c' w'
  proof (rule close_on_allowed [OF _ run])
    show "conn_ok c" using tasks_ok_conn [OF ok c] by simp
    show "conn_allowed (\<lambda>who it. going_to_close i ?ops who it \<or> about_to_close cl who it) (tasks_server T) c"
      using conjunct2 [OF tasks_ok_conn [OF ok c]] by (rule conn_allowed_mono) (rule here)
  qed
  then have "conn_allowed (going_to_close i ?ops) (tasks_server T)
      (fst (snd (close_on cl c (sys_world (tasks_system T)))))"
    if "tbl_get (sys_conns (tasks_system T)) i = Some c" for c
    using that by (metis prod.collapse)
  with ok free show ?thesis
    unfolding tasks_ok_def
    by (auto simp: visit_system_ok visit_get elsewhere [symmetric])
qed

lemma finish_tasks_ok:
  assumes "tasks_ok T" and "tasks_closings T = as @ (cl, Some []) # bs"
  shows "tasks_ok (T\<lparr>tasks_closings := as @ bs\<rparr>)"
  using assms(1) by (rule tasks_ok_closings) (simp add: assms(2))

lemma hang_up_tasks_ok:
  "tasks_ok T \<Longrightarrow>
    tasks_ok (on_tasks (unregister_connection i) T\<lparr>tasks_frames := tbl_remove i (tasks_frames T)\<rparr>)"
  by (auto simp: unregister_connection_def tasks_ok_def system_ok_def split: if_splits)

lemma shutdown_tasks_ok: "tasks_ok T \<Longrightarrow> tasks_ok (on_tasks request_shutdown T)"
proof -
  let ?stop = "\<lambda>srv. srv\<lparr>srv_shutting_down := True\<rparr>"
  have kept: "rights_kept (\<lambda>_ _. False) srv (?stop srv)" for srv :: "'a server"
    by (rule rights_kept_all) simp_all
  assume "tasks_ok T"
  then show ?thesis
    using conn_allowed_rights [OF kept] rights_kept_trans [OF _ kept]
    by (auto simp: tasks_ok_def system_ok_def request_shutdown_def)
qed

lemma task_step_ok: "task_step T e T' \<Longrightarrow> tasks_ok T \<Longrightarrow> \<forall>i. e \<noteq> Visited i True \<Longrightarrow> tasks_ok T'"
  by (induction rule: task_step.induct)
    (auto intro: accept_tasks_ok begin_tasks_ok dispatch_tasks_ok configure_tasks_ok list_tasks_ok
      visit_tasks_ok finish_tasks_ok hang_up_tasks_ok shutdown_tasks_ok)

lemma task_steps_ok: "task_steps T es T' \<Longrightarrow> tasks_ok T \<Longrightarrow> frames_unvisited es \<Longrightarrow> tasks_ok T'"
  by (induction rule: task_steps.induct) (auto intro: task_step_ok)

section \<open>Whole steps are sequences of task steps\<close>

text \<open>Every run of \<open>System\<close> is a run here, one that visits no connection inside the dispatcher.\<close>

definition alone :: "'w machine \<Rightarrow> 'w tasks" where
  "alone m = \<lparr>tasks_machine = m, tasks_frames = [], tasks_closings = []\<rparr>"

lemma alone_simps [simp]:
  "tasks_machine (alone m) = m" "tasks_frames (alone m) = []" "tasks_closings (alone m) = []"
  "on_tasks f (alone m) = alone (on_system f m)"
  by (simp_all add: alone_def on_tasks_def)

lemma task_steps_append:
  "task_steps T2 es' T3 \<Longrightarrow> task_steps T1 es T2 \<Longrightarrow> task_steps T1 (es @ es') T3"
proof (induction rule: task_steps.induct)
  case (task_steps_snoc T es' T3 e T4)
  then show ?case by (metis append_assoc task_steps.task_steps_snoc)
qed simp

lemma task_step_single: "task_step T e T' \<Longrightarrow> task_steps T [e] T'"
  using task_steps_snoc [OF task_steps_nil] by fastforce

lemma update_middle:
  "k \<notin> fst ` set ds \<Longrightarrow> tbl_insert k v (ds @ (k, v') # cs) = ds @ (k, v) # cs"
  by (induction ds) (auto simp: tbl_insert_def)

lemma visits_for_conns:
  fixes sys :: "'w system"
  shows "distinct (map fst (ds @ cs)) \<Longrightarrow>
    fold (visit cl) (map fst cs) (sys\<lparr>sys_conns := ds @ cs, sys_world := w\<rparr>) =
      (let (cs', w') = for_conns (close_on cl) cs w in sys\<lparr>sys_conns := ds @ cs', sys_world := w'\<rparr>)"
proof (induction cs arbitrary: ds w)
  case (Cons x cs)
  obtain i c where x: "x = (i, c)" by fastforce
  obtain k c' w' where run: "close_on cl c w = (k, c', w')" by (metis prod_cases3)
  have i: "i \<notin> fst ` set ds" using Cons.prems x by auto
  have "tbl_ok (ds @ (i, c) # cs)" using Cons.prems x by (simp add: tbl_ok_def)
  then have "tbl_get (ds @ (i, c) # cs) i = Some c" by (simp add: tbl_in_get)
  then have "visit cl i (sys\<lparr>sys_conns := ds @ (i, c) # cs, sys_world := w\<rparr>)
      = sys\<lparr>sys_conns := (ds @ [(i, c')]) @ cs, sys_world := w'\<rparr>"
    by (simp add: visit_def run update_middle [OF i])
  moreover have "distinct (map fst ((ds @ [(i, c')]) @ cs))" using Cons.prems x by simp
  note Cons.IH [OF this, of w']
  ultimately show ?case by (simp add: x run Let_def split: prod.split)
qed simp

lemma visits_on_live:
  "tbl_ok (sys_conns sys) \<Longrightarrow>
    fold (visit cl) (map fst (sys_conns sys)) sys = on_live (close_on cl) sys"
  using visits_for_conns [of "[]" "sys_conns sys" cl "sys_world sys" sys]
  by (simp add: tbl_ok_def on_live_def)

lemma visit_steps:
  assumes "tasks_frames T = []" and "tasks_closings T = [(cl, Some ids)]"
  shows "\<exists>es. frames_unvisited es \<and> task_steps T es
    (on_tasks (fold (visit cl) ids) T\<lparr>tasks_closings := [(cl, Some [])]\<rparr>)"
  using assms
proof (induction ids arbitrary: T)
  case Nil
  then have "on_tasks (fold (visit cl) []) T\<lparr>tasks_closings := [(cl, Some [])]\<rparr> = T"
    by (cases T) (simp add: on_tasks_def on_system_def)
  then show ?case by (metis task_steps_nil frames_unvisited_simps(1))
next
  case (Cons i ids)
  let ?T = "on_tasks (visit cl i) T\<lparr>tasks_closings := [(cl, Some ids)]\<rparr>"
  have first: "task_step T (Visited i False) ?T"
    using task_visit [of T "[]" cl i ids "[]"] Cons.prems by (simp add: tbl_get_def)
  have "tasks_frames ?T = []" "tasks_closings ?T = [(cl, Some ids)]" using Cons.prems by simp_all
  from Cons.IH [OF this] obtain es where es: "frames_unvisited es" "task_steps ?T es
      (on_tasks (fold (visit cl) ids) ?T\<lparr>tasks_closings := [(cl, Some [])]\<rparr>)"
    by blast
  have same: "on_tasks (fold (visit cl) ids) ?T\<lparr>tasks_closings := [(cl, Some [])]\<rparr>
      = on_tasks (fold (visit cl) (i # ids)) T\<lparr>tasks_closings := [(cl, Some [])]\<rparr>"
    by (simp add: on_tasks_def on_system_def)
  have "frames_unvisited ([Visited i False] @ es)" using es(1) by simp
  with task_steps_append [OF es(2) task_step_single [OF first], unfolded same] show ?case by blast
qed

lemma configured_steps:
  assumes "config_op_ok oper" and run: "run_config_op oper (mc_system m) = (r, sys)"
    and "tbl_ok (sys_conns (mc_system m))"
  shows "\<exists>es. frames_unvisited es \<and> task_steps (alone m) es (alone (on_system (\<lambda>_. sys) m))"
proof -
  let ?todo = "closing_after oper (sys_server (mc_system m)) r"
  let ?set = "on_system (set_server (\<lambda>_. sys_server sys)) m"
  note parts = run_config_op_parts [OF run]
  have changed: "task_step (alone m) (TablesChanged oper r)
      (alone ?set\<lparr>tasks_closings := case ?todo of None \<Rightarrow> [] | Some cl \<Rightarrow> [(cl, None)]\<rparr>)"
    using task_configure [of oper "alone m" r sys] assms(1) run by simp
  show ?thesis
  proof (cases ?todo)
    case None
    with parts have "alone ?set\<lparr>tasks_closings := []\<rparr> = alone (on_system (\<lambda>_. sys) m)"
      by (simp add: alone_def on_system_def close_all_def)
    with task_step_single [OF changed] None show ?thesis
      by (intro exI [of _ "[TablesChanged oper r]"]) simp
  next
    case (Some cl)
    let ?ids = "map fst (sys_conns (mc_system m))"
    let ?T = "alone ?set\<lparr>tasks_closings := [(cl, Some ?ids)]\<rparr>"
    have listed: "task_step (alone ?set\<lparr>tasks_closings := [(cl, None)]\<rparr>) (Listed cl) ?T"
      using task_list [of "alone ?set\<lparr>tasks_closings := [(cl, None)]\<rparr>" "[]" cl "[]"] by simp
    obtain es where es: "frames_unvisited es" "task_steps ?T es
        (on_tasks (fold (visit cl) ?ids) ?T\<lparr>tasks_closings := [(cl, Some [])]\<rparr>)"
      using visit_steps [of ?T cl ?ids] by auto
    have "mc_system (on_system (fold (visit cl) ?ids) ?set) = sys"
      using visits_on_live [of "mc_system ?set" cl] parts Some assms(3) by (simp add: close_all_def)
    then have "task_step (on_tasks (fold (visit cl) ?ids) ?T\<lparr>tasks_closings := [(cl, Some [])]\<rparr>)
        (OperationDone cl) (alone (on_system (\<lambda>_. sys) m))"
      using task_finish [of "on_tasks (fold (visit cl) ?ids) ?T\<lparr>tasks_closings := [(cl, Some [])]\<rparr>"
        "[]" cl "[]"] by (simp add: on_tasks_def on_system_def alone_def)
    note last = task_step_single [OF this]
    have "task_steps (alone m) ([TablesChanged oper r] @ [Listed cl] @ es @ [OperationDone cl])
        (alone (on_system (\<lambda>_. sys) m))"
      using changed listed es(2) last Some
      by (intro task_steps_append [OF task_steps_append [OF task_steps_append
        [OF last es(2)] task_step_single [OF listed]]] task_step_single) simp_all
    moreover have "frames_unvisited ([TablesChanged oper r] @ [Listed cl] @ es @ [OperationDone cl])"
      using es(1) by simp
    ultimately show ?thesis by blast
  qed
qed

lemma received_steps:
  assumes "\<not> srv_shutting_down (sys_server (mc_system m))" and "serve_frame i frame m = Some (r, m')"
  shows "task_steps (alone m) [FrameBegun i, FrameDone i frame r] (alone m')"
  using assms(2)
proof (rule serve_frameE)
  fix c st
  assume c: "tbl_get (sys_conns (mc_system m)) i = Some c" and m': "m' = put_st i st m"
    and run: "dispatch_frame (sys_server (mc_system m)) frame (machine_st m c) = Some (r, st)"
  let ?T = "alone m\<lparr>tasks_frames := [(i, sys_server (mc_system m))]\<rparr>"
  have "task_step (alone m) (FrameBegun i) ?T"
    using task_begin [of "alone m" i] assms(1) c by (simp add: tbl_get_def tbl_insert_def)
  moreover have "task_step ?T (FrameDone i frame r) (alone m')"
    using task_dispatch [of ?T i "sys_server (mc_system m)" c frame r st] c run
    by (simp add: m' alone_def tbl_get_def tbl_remove_def)
  ultimately show ?thesis
    using task_steps_append [OF task_step_single task_step_single] by fastforce
qed

lemma whole_step:
  assumes "machine_step m e m'" and "machine_ok m"
  shows "\<exists>es. frames_unvisited es \<and> task_steps (alone m) es (alone m')"
proof -
  have single: "\<exists>es. frames_unvisited es \<and> task_steps (alone m) es (alone m')"
    if "task_step (alone m) e (alone m')" "\<forall>i. e \<noteq> Visited i True" for e m'
    using task_step_single [OF that(1)] that(2) by (intro exI [of _ "[e]"]) simp
  from assms show ?thesis
  proof (induction rule: machine_step.induct)
    case (step_accept m i sys)
    show ?case
      using task_accept [of "alone m" i sys] step_accept
      by (intro exI [of _ "[TaskAccepted i]"]) (simp add: task_step_single)
  next
    case (step_receive m i frame r m')
    then show ?case
      using received_steps by (intro exI [of _ "[FrameBegun i, FrameDone i frame r]"]) simp
  next
    case (step_configure oper m r sys)
    then show ?case
      by (intro configured_steps) (auto simp: machine_ok_def system_ok_def tbl_all_ok)
  next
    case (step_hang_up m i)
    have still: "alone (on_system (unregister_connection i) m)\<lparr>tasks_frames := []\<rparr>
        = alone (on_system (unregister_connection i) m)"
      by (simp add: alone_def)
    then show ?case
      using task_hang_up [of "alone m" i]
      by (intro exI [of _ "[TaskHungUp i]"]) (simp add: task_step_single tbl_remove_def still)
  next
    case (step_shutdown m)
    show ?case
      using task_shutdown [of "alone m"]
      by (intro exI [of _ "[ShutdownAsked]"]) (simp add: task_step_single)
  qed
qed

lemma whole_steps:
  assumes "machine_steps m es m'" and "machine_ok m"
  shows "\<exists>es. frames_unvisited es \<and> task_steps (alone m) es (alone m')"
  using assms
proof (induction rule: machine_steps.induct)
  case (steps_nil m)
  then show ?case by (metis task_steps_nil frames_unvisited_simps(1))
next
  case (steps_snoc m es m1 e m2)
  then obtain es1 where es1: "frames_unvisited es1" "task_steps (alone m) es1 (alone m1)" by blast
  have "machine_ok m1" using steps_snoc by (blast intro: machine_steps_ok)
  from whole_step [OF steps_snoc.hyps(2) this]
  obtain es2 where es2: "frames_unvisited es2" "task_steps (alone m1) es2 (alone m2)" by blast
  have "frames_unvisited (es1 @ es2)" using es1(1) es2(1) by simp
  with task_steps_append [OF es2(2) es1(2)] show ?case by blast
qed

lemma tasks_start_alone: "tasks_start srv w = alone (machine_start srv w)"
  by (simp add: tasks_start_def alone_def)

section \<open>What holds\<close>

text \<open>
  C4: access follows the configuration between the tasks, too. Let the operations of
  \<open>ConfigHandle\<close>, the frames of any number of connections, new connections, disconnects and
  shutdown requests be interleaved at the grain of table changes, visits of single connections and
  the two ends of a dispatch, any number of operations and frames being under way at a time. As long
  as no operation visits a connection whose reader is inside the dispatcher, each session of a
  user belongs to a user who still exists, and each tree is on a share that still lets it in,
  unless an operation that is still at work has the connection on its list and is going to close
  it. So when no operation is at work, everything is entitled, whatever the frames that are
  still inside the dispatcher read.
\<close>

theorem access_under_interleaving:
  assumes "config_ok srv0" and "task_steps (tasks_start srv0 w) es T" and "frames_unvisited es"
    and "tbl_get (sys_conns (tasks_system T)) i = Some c"
    and "tbl_get (conn_sessions c) sid = Some s"
  shows "(known (tasks_server T) (sess_identity s) \<or>
      going_to_close i (tasks_closings T) (sess_identity s)
        (None :: ('w share_bindings \<times> access) option)) \<and>
    (\<forall>tid t. tbl_get (sess_trees s) tid = Some (t :: 'w tree_connect) \<longrightarrow>
      tree_entitled (tasks_server T) (sess_identity s) t \<or>
      going_to_close i (tasks_closings T) (sess_identity s)
        (Some (tree_share t, tree_granted_access t)))"
proof -
  have "tasks_ok T" using assms(2) tasks_start_ok [OF assms(1)] assms(3) by (rule task_steps_ok)
  from tasks_ok_conn [OF this assms(4)] have "session_allowed
      (going_to_close i (tasks_closings T)) (tasks_server T) s"
    using conn_allowed_get assms(5) by blast
  then show ?thesis by (auto simp: session_allowed_def tree_allowed_def)
qed

section \<open>What does not\<close>

text \<open>
  SESSION_SETUP looks the user up, an administrator removes the user, and the removal visits the
  connection before SESSION_SETUP adds the session: the session stays, although its user is gone
  and no operation is left that would close it. The proviso of the theorem is needed.
\<close>

lemma removing_the_user:
  assumes "sys_server sys = logon_server"
  shows "\<exists>sys'. run_config_op (RemoveUser [117]) sys = (Inr (), sys') \<and>
    lookup_user (sys_server sys') [117] = None"
proof -
  have "validate_user_name [117] = Inr ()"
    by (simp add: validate_user_name_iff valid_user_name_def eq_ignore_ascii_case_def name_defs)
  moreover have "tbl_get (srv_users (sys_server sys)) [117] = Some \<lparr>uc_nt_hash = replicate 16 0\<rparr>"
    by (simp add: assms logon_server_def setup_server_def tbl_get_def)
  ultimately show ?thesis by (simp add: config_remove_user_def lookup_user_def)
qed

lemma visit_without_sessions:
  assumes "tbl_get (sys_conns sys) i = Some c" and "conn_sessions c = []"
  shows "tbl_get (sys_conns (visit (ClosingUser u) i sys)) i = Some c"
  using assms by (simp add: visit_def close_sessions_for_user_def)

lemma logon_survives_removal:
  "\<exists>es T c s. task_steps (tasks_start logon_server sample_fs) es T \<and> tasks_closings T = [] \<and>
     tasks_frames T = [] \<and> tbl_get (sys_conns (tasks_system T)) 1 = Some c \<and>
     tbl_get (conn_sessions c) 1 = Some s \<and> sess_identity s = User [117] [] \<and>
     lookup_user (tasks_server T) [117] = None"
proof -
  let ?cl = "ClosingUser [117]" and ?gone = "RemoveUser [117] :: mem_fs config_op"
  obtain m r1 r2 c acc where m: "machine_steps (machine_start logon_server sample_fs)
      [Accepted 1, Received 1 frame1 r1, Received 1 frame2 r2] m"
      and srv: "sys_server (mc_system m) = logon_server" "map fst (sys_conns (mc_system m)) = [1]"
      and c: "tbl_get (sys_conns (mc_system m)) 1 = Some c" "conn_dialect c = Some Smb311"
        "tbl_get (conn_pending_auths c) 1 = Some (acc, True)" "nt_server_challenge acc = replicate 8 0"
        "\<forall>k. tbl_get (conn_sessions c) k = None"
    using logon_pending by (elim exE conjE) (rule that)
  have none: "conn_sessions c = []"
    using c(5) by (cases "conn_sessions c") (auto simp: tbl_get_def split: if_splits)
  obtain es where start: "task_steps (tasks_start logon_server sample_fs) es (alone m)"
    using whole_steps [OF m machine_start_ok [OF logon_server_config]] by (auto simp: tasks_start_alone)
  obtain sys where gone: "run_config_op ?gone (mc_system m) = (Inr (), sys)"
      "lookup_user (sys_server sys) [117] = None"
    using removing_the_user [OF srv(1)] by blast
  let ?m1 = "on_system (set_server (\<lambda>_. sys_server sys)) m"
  let ?m2 = "on_system (visit ?cl 1) ?m1"
  let ?T = "\<lambda>m ops. \<lparr>tasks_machine = m, tasks_frames = [(1, logon_server)], tasks_closings = ops\<rparr>"
  have c2: "tbl_get (sys_conns (mc_system ?m2)) 1 = Some c"
    using visit_without_sessions [OF _ none] c(1) by simp
  obtain r3 st s where three: "dispatch_one logon_server frame3 0 (machine_st ?m2 c) = Some (Some r3, st)"
      "tbl_get (conn_sessions (st_conn st)) 1 = Some s" "sess_identity s = User [117] []"
    using logon_round3 [of "machine_st ?m2 c" acc] c by auto
  have "task_step (alone m) (FrameBegun 1) (?T m [])"
    using task_begin [of "alone m" 1] srv(1) c(1)
    by (simp add: alone_def tbl_get_def tbl_insert_def logon_server_def setup_server_def mem_server_def)
  moreover have "task_step (?T m []) (TablesChanged ?gone (Inr ())) (?T ?m1 [(?cl, None)])"
    using task_configure [of ?gone "?T m []" "Inr ()" sys] gone(1)
    by (simp add: config_op_ok_def closing_after_def on_tasks_def)
  moreover have "task_step (?T ?m1 [(?cl, None)]) (Listed ?cl) (?T ?m1 [(?cl, Some [1])])"
    using task_list [of "?T ?m1 [(?cl, None)]" "[]" ?cl "[]"] srv(2) by simp
  moreover have "task_step (?T ?m1 [(?cl, Some [1])]) (Visited 1 True) (?T ?m2 [(?cl, Some [])])"
    using task_visit [of "?T ?m1 [(?cl, Some [1])]" "[]" ?cl 1 "[]" "[]"]
    by (simp add: on_tasks_def tbl_get_def)
  moreover have "task_step (?T ?m2 [(?cl, Some [])]) (OperationDone ?cl) (?T ?m2 [])"
    using task_finish [of "?T ?m2 [(?cl, Some [])]" "[]" ?cl "[]"] by simp
  moreover have "task_step (?T ?m2 []) (FrameDone 1 frame3 (Some r3)) (alone (put_st 1 st ?m2))"
    using task_dispatch [of "?T ?m2 []" 1 logon_server c frame3 "Some r3" st] c2 three(1)
      dispatch_single_frame [of logon_server, OF _ frame_parse1]
    by (simp add: alone_def tbl_get_def tbl_remove_def)
  ultimately obtain es2 where "task_steps (alone m) es2 (alone (put_st 1 st ?m2))"
    by (meson task_steps_append task_step_single)
  from task_steps_append [OF this start] three(2,3) gone(2) show ?thesis
    by (intro exI [of _ "es @ es2"] exI [of _ "alone (put_st 1 st ?m2)"] exI [of _ "st_conn st"]
        exI [of _ s]) (simp add: visit_get(2))
qed

section \<open>A run\<close>

theorem access_under_interleaving_witness:
  "\<exists>w es T c s. task_steps (tasks_start logon_server w) es T \<and> frames_unvisited es \<and>
     tbl_get (sys_conns (tasks_system T)) 1 = Some c \<and> tbl_get (conn_sessions c) 1 = Some s \<and>
     known (tasks_server T) (sess_identity s)"
proof -
  obtain ms w m c s where run: "machine_steps (machine_start logon_server w) ms m"
      and c: "tbl_get (sys_conns (mc_system m)) 1 = Some c" "tbl_get (conn_sessions c) 1 = Some s"
    using logon_run by (auto simp: machine_reaches_def)
  obtain es where es: "frames_unvisited es" "task_steps (tasks_start logon_server w) es (alone m)"
    using whole_steps [OF run machine_start_ok [OF logon_server_config]] by (auto simp: tasks_start_alone)
  from access_under_interleaving [OF logon_server_config es(2,1), of 1 c 1 s] c
  have "known (tasks_server (alone m)) (sess_identity s)" by simp
  with es c show ?thesis by (intro exI [of _ w] exI [of _ es] exI [of _ "alone m"]) auto
qed

end
