(* ===== verification/Spec2Isabelle.thy ===== *)
theory Spec2Isabelle
  imports Wildcard Framing Header Messages_Session Messages_File Messages_Info Signing Spnego Ntlm
    Server Trace Handlers_Session Handlers_File Handlers_Query Handlers_Create Handlers_Setup
    Dispatch Dispatch_Reply Dispatch_Preauth Dispatch_Compound Handler_Errors System Connection Serve
    Local_Fs_Contract No_Logon Service_Runs Interleaving
begin

text \<open>
  A verification library for an SMB2 server written in Rust (\<open>src/src\<close>).

  \<^bold>\<open>The program.\<close> A client connects over TCP; the reader task splits the stream into frames
  (\<open>framing.rs\<close>, \<open>conn/reader.rs\<close>); the dispatcher parses the header of each request in a frame
  (\<open>proto/header.rs\<close>), checks its signature (\<open>proto/crypto\<close>) and calls one handler per command
  (\<open>handlers\<close>); the handler parses the body (\<open>proto/messages\<close>), consults the connection's tables of
  sessions, trees and opens (\<open>conn/state.rs\<close>) and the server's users and shares (\<open>server.rs\<close>), and
  works on the share's storage through the \<open>ShareBackend\<close> and \<open>Handle\<close> traits (\<open>backend.rs\<close>). Users
  log on with NTLMv2 inside SPNEGO (\<open>proto/auth\<close>). A \<open>ConfigHandle\<close> changes users, shares and access
  lists while connections are live.

  \<^bold>\<open>The theories.\<close>
  \<^item> \<open>Prelude\<close>: machine words as bytes, byte parsers, tables (hash maps as association lists with
    distinct keys, in an arbitrary order). \<open>Codec\<close>: protocol errors, and the locale of a wire format
    with a parser and a writer.
  \<^item> \<open>Text\<close>, \<open>Wildcard\<close> (\<open>utils.rs\<close>), \<open>Status\<close> (\<open>ntstatus.rs\<close>, \<open>error.rs\<close>), \<open>Path\<close> (\<open>path.rs\<close>),
    \<open>Framing\<close>, \<open>Header\<close>, \<open>Messages_Session\<close>, \<open>Messages_File\<close>, \<open>Messages_Info\<close>
    (\<open>proto/messages\<close>), \<open>Signing\<close> (\<open>proto/crypto\<close>), \<open>Spnego\<close>, \<open>Ntlm\<close> (\<open>proto/auth\<close>),
    \<open>Info_Class\<close> (\<open>info_class.rs\<close>).
  \<^item> \<open>Backend\<close>: the traits of \<open>backend.rs\<close> as records of functions over a world \<open>'w\<close> which each call
    reads and returns; the locale of what a backend promises. \<open>Memfs\<close>: the in-memory backend of
    \<open>tests/memfs.rs\<close>, an instance of that locale. \<open>Local_Fs\<close>: the backend of \<open>fs/local.rs\<close> over a
    record of the host's calls, each of which may fail or panic; \<open>Local_Fs_Contract\<close>: the paths it
    hands to the host, a read-only share, the locale of a backend, file times.
  \<^item> \<open>Share\<close>, \<open>Server\<close> (\<open>server.rs\<close>, \<open>builder.rs\<close>), \<open>Conn_State\<close> (\<open>conn/state.rs\<close>), \<open>Trace\<close>
    (\<open>trace.rs\<close>). \<open>Access_Control\<close>: the decision of TREE_CONNECT, what the configuration says about a
    session and a tree, and that closing things and changing the configuration keep it. \<open>Closing\<close>:
    all that closing does to the storage is to close handles.
  \<^item> \<open>Handler_Core\<close>: the state a handler runs in, its response, the lookups of
    \<open>handlers/shared.rs\<close>, and the locale of the contract that every handler keeps.
    \<open>Handlers_Session\<close>, \<open>Handlers_File\<close>, \<open>Handlers_Query\<close>, \<open>Handlers_Create\<close> (\<open>create.rs\<close>),
    \<open>Handlers_Setup\<close> (\<open>negotiate.rs\<close>, \<open>session_setup.rs\<close>): one definition per handler, from its
    first parse to its reply; a slice or an index of a client's buffer that is out of range is a
    panicked response, and each handler is shown not to give one. \<open>Sample_State\<close>: the concrete connection the witnesses use.
  \<^item> \<open>Dispatch\<close> (\<open>dispatch.rs\<close>, \<open>handlers/mod.rs\<close>): the router, signatures, response headers,
    compound frames; a panic, of a handler too, is a value. \<open>Dispatch_Reply\<close>: one request and its reply.
    \<open>Dispatch_Preauth\<close>: the hash over a logon. \<open>Dispatch_Compound\<close>: frames and compound replies.
    \<open>Handler_Errors\<close>: what a failed request is answered with. \<open>No_Logon\<close>: requests outside of a
    session.
  \<^item> \<open>File_Store\<close>: the abstract service, a store of byte strings with the actions a client can
    perform, and the locale of the backends that implement it, interpreted on the in-memory one.
    \<open>File_Service\<close>: the actions a request may stand for, given its reply, and that every handler
    does one of them. \<open>Service_Runs\<close>: whole runs with many clients.
  \<^item> \<open>System\<close>: the running server as a step relation over its connections, frames, configuration
    changes and disconnects, with what holds in every reachable state. \<open>Interleaving\<close>: the same with
    the operations of \<open>ConfigHandle\<close> and the dispatch of a frame taken apart. \<open>Connection\<close>: the reader and
    writer tasks of a connection (\<open>conn/reader.rs\<close>, \<open>conn/writer.rs\<close>, \<open>conn/mod.rs\<close>) and the abstract
    server they implement. \<open>Serve\<close>: binding, the accept loop and the shutdown (\<open>server.rs\<close>).

  \<^bold>\<open>Conventions.\<close> Integers have the width of the source. A string is the list of its Unicode scalar
  values. A fallible function returns a sum, the error on the left. A handler maps the server, the
  header, the body and the state to a response and a state; the locks of the source are taken and
  released within one handler call, so one call is one step. What the crates for cryptography
  compute is a record of functions (\<open>crypto_lib\<close>), the clock and the random source are functions in
  the server record that are indexed by the number of calls so far.

  \<^bold>\<open>What is shown.\<close> Every message and header survives its round trip; the reader recovers what
  the writer framed, and splits every byte stream into the length-prefixed frames it consists of;
  the wildcard loop ends and computes the declarative match; accepted paths are safe; a signature
  verifies exactly when it is the MAC of the whole message with the signature field zeroed; a user
  logs on only with a response keyed by the user's hash, and a MIC over the exchange when there is
  one. No frame makes the dispatcher or a handler panic. Every handler keeps the connection well formed, changes no session but the
  one the header names, keeps every session and tree entitled under the configuration and only
  extends the trace (the locale \<open>handler\<close>, interpreted for each). So in every reachable state of the
  running server no session outlives its user and no tree its permission; when configuration changes
  and frames overlap, that still holds as long as no change visits a connection that is inside the
  dispatcher, and a logon that overlaps the removal of its user shows why. A connection implements
  a server that takes whole requests one at a time, and answers each of them in order; a shutdown
  stops the accept loop. A failed request gets the ERROR structure and nothing else. Without a
  session no stored data is reached and the commands that work on trees and files are refused,
  LOCK and OPLOCK_BREAK apart, which do nothing and report success. A tree connect grants exactly
  what the share offers, reads return what is stored, writes pass the access check, a create adds
  one open under an identifier of its own, closes end one open, directory scans are paged without
  loss. Over whole runs, with any number of clients and changes of the configuration, the
  server is a store of byte strings: the replies tell what it did, and what was written is read back
  until something touches the file. Renames are outside of that, and so is the local backend, whose
  handles stay with a file that moves. Configuration changes keep the server consistent and disconnect what they must. The local backend touches only confined
  paths of the host, unless a stream is named by a dot or two dots, and nothing at all on a
  read-only share.

  \<^bold>\<open>Fuel and termination.\<close> No fuel is used: the loops recurse on lists or on a measure; the wildcard
  loop is a partial function whose termination is proved for every input; the reader's loop
  consumes its input, a byte string.

  \<^bold>\<open>Not modelled.\<close> All the interleavings inside a handler: in \<open>Interleaving\<close> a frame reads the
  configuration once, at its start, and works on its connection and on the storage in one step, and
  an operation of \<open>ConfigHandle\<close> changes all its tables in one step (each decision of the code rests
  on one entry of the tables). Sockets: what the peer sends is a byte string that ends with a close or an
  error, and which send or write fails, and how much of it was written by then, are parameters.
  Panics inside the parsers and encoders of \<open>src/src/proto\<close>, the signing code and the backends (the
  host calls of the local backend apart), the debug assertion of \<open>encode_frame\<close>, arithmetic on
  \<open>usize\<close> that overflows in \<open>tests/memfs.rs\<close>, and running out of memory. What dropping a handle without closing it does. Logging,
  module roots, the example program and the tests.
\<close>

end
